(* ===== verification/Xbox_Prelude.thy ===== *)
theory Xbox_Prelude
  imports Main "HOL-Library.Word"
begin

unbundle bit_operations_syntax

text \<open>
  What the component theories share: the C integer types as words, the outcome of code that
  contains assertions, the bit-field macros \<open>GET_MASK\<close> and \<open>SET_MASK\<close> of
  \<open>hw/xbox/nv2a/nv2a_regs.h\<close>, little-endian loads and stores, and the lemmas on words,
  lists and loops the component proofs use.
\<close>

section \<open>Machine integers and outcomes\<close>

type_synonym u8 = "8 word"
type_synonym u16 = "16 word"
type_synonym u32 = "32 word"
type_synonym u64 = "64 word"
type_synonym hwaddr = "64 word"

text \<open>
  QEMU is always built with assertions on, so a failed \<open>assert\<close> ends the process.  A
  fault records why the code would not go on: which assertion failed, an access outside an
  array or buffer, a division by zero, a shift by at least the width of its operand, or a signed
  result outside its type.
\<close>

datatype fault = AssertFail string | OutOfBounds | DivByZero | BadShift | SignedOverflow

type_synonym 'a res = "fault + 'a"

definition bind_res :: "'a res \<Rightarrow> ('a \<Rightarrow> 'b res) \<Rightarrow> 'b res" where
  "bind_res r k = (case r of Inl f \<Rightarrow> Inl f | Inr a \<Rightarrow> k a)"

definition check :: "bool \<Rightarrow> fault \<Rightarrow> 'a res \<Rightarrow> 'a res" where
  "check b f k = (if b then k else Inl f)"

lemma bind_res_simps [simp]:
  "bind_res (Inl f) k = Inl f"
  "bind_res (Inr a) k = k a"
  by (simp_all add: bind_res_def)

lemma check_simps [simp]:
  "check True f k = k"
  "check False f k = Inl f"
  by (simp_all add: check_def)

lemma check_eq_Inr [simp]: "check b f k = Inr a \<longleftrightarrow> b \<and> k = Inr a"
  by (simp add: check_def)

lemma bind_res_eq_Inr: "bind_res r k = Inr b \<longleftrightarrow> (\<exists>a. r = Inr a \<and> k a = Inr b)"
  by (cases r) auto

lemma check_eq_Inl: "check b f k = Inl g \<longleftrightarrow> (if b then k = Inl g else f = g)"
  by (simp add: check_def)

section \<open>Widening\<close>

lemma uint_ucast_up:
  "LENGTH('a::len) \<le> LENGTH('b::len) \<Longrightarrow> uint (ucast (w :: 'a word) :: 'b word) = uint w"
  by (intro bit_eqI) (auto simp: bit_simps dest: bit_imp_le_length)

lemma unat_ucast_up:
  "LENGTH('a::len) \<le> LENGTH('b::len) \<Longrightarrow> unat (ucast (w :: 'a word) :: 'b word) = unat w"
  by (metis uint_ucast_up unat_eq_nat_uint)

lemma ucast_widen [simp]:
  "uint (ucast (b :: u8) :: u16) = uint b" "uint (ucast (b :: u8) :: u32) = uint b"
  "uint (ucast (b :: u8) :: u64) = uint b" "uint (ucast (h :: u16) :: u32) = uint h"
  "uint (ucast (h :: u16) :: u64) = uint h" "uint (ucast (w :: u32) :: u64) = uint w"
  "unat (ucast (b :: u8) :: u16) = unat b" "unat (ucast (b :: u8) :: u32) = unat b"
  "unat (ucast (b :: u8) :: u64) = unat b" "unat (ucast (h :: u16) :: u32) = unat h"
  "unat (ucast (h :: u16) :: u64) = unat h" "unat (ucast (w :: u32) :: u64) = unat w"
  by (simp_all add: uint_ucast_up unat_ucast_up)

lemma ucast_narrow [simp]:
  "ucast (ucast (b :: u8) :: u16) = b" "ucast (ucast (b :: u8) :: u32) = b"
  "ucast (ucast (b :: u8) :: u64) = b" "ucast (ucast (h :: u16) :: u32) = h"
  "ucast (ucast (h :: u16) :: u64) = h" "ucast (ucast (w :: u32) :: u64) = w"
  by (rule bit_word_eqI; simp add: bit_simps)+

section \<open>Bit fields\<close>

text \<open>\<open>ctz32\<close> of \<open>qemu/host-utils.h\<close>: the number of trailing zero bits, 32 for 0.\<close>

definition ctz32 :: "u32 \<Rightarrow> nat" where
  "ctz32 w = length (takeWhile (\<lambda>i. \<not> bit w i) [0..<32])"

definition GET_MASK :: "u32 \<Rightarrow> u32 \<Rightarrow> u32" where
  "GET_MASK v m = drop_bit (ctz32 m) (v AND m)"

definition SET_MASK :: "u32 \<Rightarrow> u32 \<Rightarrow> u32 \<Rightarrow> u32" where
  "SET_MASK v m x = (v AND NOT m) OR (push_bit (ctz32 m) x AND m)"


text \<open>
  Every mask of the register headers is a run of \<open>n\<close> bits from bit \<open>lo\<close>.  On such
  masks the macros read and write a field; on disjoint masks they do not interfere.
\<close>

definition field_mask :: "nat \<Rightarrow> nat \<Rightarrow> u32" where
  "field_mask lo n = push_bit lo (mask n)"

lemma ctz32_eqI:
  assumes "k < 32" and "bit w k" and "\<And>i. i < k \<Longrightarrow> \<not> bit w i"
  shows "ctz32 w = k"
proof -
  have "[0..<32] = [0..<k] @ k # [Suc k..<32]"
    using assms(1) by (metis upt_conv_Cons upt_add_eq_append le_add_diff_inverse less_imp_le zero_le)
  moreover have "takeWhile (\<lambda>i. \<not> bit w i) [0..<k] = [0..<k]"
    using assms(3) by (simp add: takeWhile_eq_all_conv)
  ultimately show ?thesis
    using assms(2,3) by (simp add: ctz32_def takeWhile_append)
qed

lemma ctz32_field_mask [simp]:
  assumes "0 < n" "lo + n \<le> 32"
  shows "ctz32 (field_mask lo n) = lo"
  using assms by (intro ctz32_eqI) (auto simp: field_mask_def bit_simps)

lemma GET_MASK_0 [simp]: "GET_MASK 0 m = 0"
  by (simp add: GET_MASK_def)

lemma GET_MASK_field:
  assumes "0 < n" "lo + n \<le> 32"
  shows "GET_MASK v (field_mask lo n) = take_bit n (drop_bit lo v)"
  unfolding GET_MASK_def ctz32_field_mask [OF assms]
  using assms by (intro bit_word_eqI) (auto simp: field_mask_def bit_simps dest: bit_imp_le_length)

lemma GET_SET_MASK_field:
  assumes "0 < n" "lo + n \<le> 32"
  shows "GET_MASK (SET_MASK v (field_mask lo n) x) (field_mask lo n) = take_bit n x"
  unfolding GET_MASK_field [OF assms] SET_MASK_def ctz32_field_mask [OF assms]
  using assms by (intro bit_word_eqI) (auto simp: field_mask_def bit_simps)

lemma GET_SET_MASK_other:
  assumes "m AND m' = 0"
  shows "GET_MASK (SET_MASK v m x) m' = GET_MASK v m'"
proof -
  have "SET_MASK v m x AND m' = v AND m'"
  proof (rule bit_word_eqI)
    fix n
    from assms have "bit (m AND m') n = bit (0 :: u32) n" by simp
    then show "bit (SET_MASK v m x AND m') n = bit (v AND m') n" if "n < LENGTH(32)"
      using that by (auto simp: SET_MASK_def bit_simps)
  qed
  then show ?thesis by (simp add: GET_MASK_def)
qed

lemma field_mask_disjoint [simp]:
  "lo + n \<le> lo' \<Longrightarrow> field_mask lo n AND field_mask lo' n' = 0"
  "lo + n \<le> lo' \<Longrightarrow> field_mask lo' n' AND field_mask lo n = 0"
  by (intro bit_word_eqI; auto simp: field_mask_def bit_simps)+

lemma bit_field_mask: "bit (field_mask lo n) i \<longleftrightarrow> lo \<le> i \<and> i < lo + n \<and> i < 32"
  by (auto simp: field_mask_def bit_simps)

lemmas mask_field_simps = GET_SET_MASK_field GET_SET_MASK_other

section \<open>Word and modular arithmetic\<close>

lemma uint_succ32: "(l :: u32) \<noteq> 0xFFFFFFFF \<Longrightarrow> uint (l + 1) = uint l + 1"
proof -
  assume "l \<noteq> 0xFFFFFFFF"
  then have "uint l \<noteq> 0xFFFFFFFF" by (simp add: word_uint_eq_iff)
  moreover have "uint l < 2 ^ 32" using uint_lt2p [of l] by simp
  ultimately show ?thesis by (simp add: uint_plus_if')
qed

lemma add_within_mask:
  fixes a b m :: "'a::len word"
  assumes "a AND m = 0" "b AND m = b"
  shows "(a + b) AND m = b" "(a + b) AND NOT m = a"
proof -
  have am: "\<not> (bit a n \<and> bit m n)" and bm: "bit b n \<Longrightarrow> bit m n" for n
    using arg_cong [OF assms(1), of "\<lambda>w. bit w n"] arg_cong [OF assms(2), of "\<lambda>w. bit w n"]
    by (auto simp: bit_simps)
  then have "a + b = a OR b"
    by (intro disjunctive_add) blast
  then show "(a + b) AND m = b" "(a + b) AND NOT m = a"
    using am bm by (auto intro!: bit_word_eqI simp: bit_simps)
qed

lemma mod_window_neq: "k < n \<Longrightarrow> n < m \<Longrightarrow> (a + k) mod m \<noteq> (a + n) mod (m::nat)"
proof
  assume "k < n" "n < m" "(a + k) mod m = (a + n) mod m"
  then have "m dvd (a + n) - (a + k)" by (metis mod_eq_dvd_iff_nat nat_add_left_cancel_le less_imp_le)
  then show False using \<open>k < n\<close> \<open>n < m\<close> by (auto dest: dvd_imp_le)
qed

lemma unat_drop_bit_div: "unat (drop_bit n w) = unat w div 2 ^ n"
  by (subst unat_drop_bit_eq) (rule drop_bit_eq_div)

lemma unat_drop_bit_less: "w \<noteq> 0 \<and> 0 < n \<Longrightarrow> unat (drop_bit n w) < unat w"
  unfolding unat_drop_bit_div
  by (rule div_less_dividend) (auto simp: unat_gt_0 intro: one_less_power [of "2 :: nat", simplified])

lemma and_not_mask_id: "take_bit n w = 0 \<Longrightarrow> w AND NOT (mask n) = (w :: 'a::len word)"
proof (rule bit_word_eqI)
  fix i
  assume "take_bit n w = 0"
  then have "\<not> bit (take_bit n w) i" by simp
  then show "bit (w AND NOT (mask n)) i = bit w i" if "i < LENGTH('a)"
    using that by (auto simp: bit_simps)
qed

lemma unat_take_bit_mod: "unat (take_bit n w) = unat w mod 2 ^ n"
  by (subst unsigned_take_bit_eq) (rule take_bit_eq_mod)

lemma and_or_test:
  fixes w :: "'a::len word"
  assumes "t AND NOT (A OR B) = 0"
  shows "w AND (A OR B) = t \<longleftrightarrow> w AND A = t AND A \<and> w AND B = t AND B"
proof
  assume "w AND (A OR B) = t"
  then show "w AND A = t AND A \<and> w AND B = t AND B"
    by (auto intro!: bit_word_eqI simp: bit_simps)
next
  assume eq: "w AND A = t AND A \<and> w AND B = t AND B"
  show "w AND (A OR B) = t"
  proof (rule bit_word_eqI)
    fix n
    have "bit (w AND A) n = bit (t AND A) n" "bit (w AND B) n = bit (t AND B) n" "\<not> bit (t AND NOT (A OR B)) n"
      using eq assms by simp_all
    then show "bit (w AND (A OR B)) n = bit t n" if "n < LENGTH('a)"
      using that by (auto simp: bit_simps)
  qed
qed

lemma and_field_test:
  fixes w c :: u32
  assumes "lo + k \<le> 32"
  shows "w AND push_bit lo (mask k) = push_bit lo (take_bit k c) \<longleftrightarrow> take_bit k (drop_bit lo w) = take_bit k c"
proof
  assume eq: "w AND push_bit lo (mask k) = push_bit lo (take_bit k c)"
  show "take_bit k (drop_bit lo w) = take_bit k c"
  proof (rule bit_word_eqI)
    fix n
    from eq have "bit (w AND push_bit lo (mask k)) (lo + n) = bit (push_bit lo (take_bit k c)) (lo + n)" by simp
    then show "bit (take_bit k (drop_bit lo w)) n = bit (take_bit k c) n"
      using assms by (auto simp: bit_simps)
  qed
next
  assume eq: "take_bit k (drop_bit lo w) = take_bit k c"
  show "w AND push_bit lo (mask k) = push_bit lo (take_bit k c)"
  proof (rule bit_word_eqI)
    fix n
    from eq have "bit (take_bit k (drop_bit lo w)) (n - lo) = bit (take_bit k c) (n - lo)" by simp
    then show "bit (w AND push_bit lo (mask k)) n = bit (push_bit lo (take_bit k c)) n"
      using assms by (auto simp: bit_simps)
  qed
qed

lemma GET_MASK_field_less: "0 < n \<Longrightarrow> lo + n \<le> 32 \<Longrightarrow> unat (GET_MASK v (field_mask lo n)) < 2 ^ n"
  by (simp add: GET_MASK_field unat_take_bit_mod)

section \<open>Little-endian loads\<close>

text \<open>\<open>ldl_le_p\<close> and \<open>pci_get_long\<close>: the 32-bit value of four bytes.\<close>

definition le32 :: "u8 \<Rightarrow> u8 \<Rightarrow> u8 \<Rightarrow> u8 \<Rightarrow> u32" where
  "le32 b0 b1 b2 b3 =
     ucast b0 OR push_bit 8 (ucast b1) OR push_bit 16 (ucast b2) OR push_bit 24 (ucast b3)"

definition ldl_le_p :: "('a::semiring_1 \<Rightarrow> u8) \<Rightarrow> 'a \<Rightarrow> u32" where
  "ldl_le_p m a = le32 (m a) (m (a + 1)) (m (a + 2)) (m (a + 3))"

definition byte_of :: "u32 \<Rightarrow> nat \<Rightarrow> u8" where
  "byte_of w i = ucast (drop_bit (8 * i) w)"

lemma le32_bytes [simp]: "le32 (byte_of w 0) (byte_of w 1) (byte_of w 2) (byte_of w 3) = w"
proof (rule bit_word_eqI)
  fix n :: nat
  assume "n < LENGTH(32)"
  then consider "n < 8" | "8 \<le> n" "n < 16" | "16 \<le> n" "n < 24" | "24 \<le> n" "n < 32"
    by fastforce
  then show "bit (le32 (byte_of w 0) (byte_of w 1) (byte_of w 2) (byte_of w 3)) n = bit w n"
    by cases (auto simp: le32_def byte_of_def bit_simps)
qed

lemma byte_of_le32 [simp]:
  "byte_of (le32 a b c d) 0 = a" "byte_of (le32 a b c d) (Suc 0) = b"
  "byte_of (le32 a b c d) 2 = c" "byte_of (le32 a b c d) 3 = d"
  by (rule bit_word_eqI; auto simp: le32_def byte_of_def bit_simps dest: bit_imp_le_length)+

section \<open>Powers of two in 32 bits\<close>

lemma unat_exp32: "i \<le> 31 \<Longrightarrow> unat (push_bit i 1 :: u32) = 2 ^ i"
proof -
  assume "i \<le> 31"
  then have "(2 :: nat) ^ i < 2 ^ LENGTH(32)" by (intro power_strict_increasing) simp_all
  moreover have "(push_bit i 1 :: u32) = word_of_nat (2 ^ i)" by simp
  ultimately show ?thesis by (simp only: unat_of_nat mod_less)
qed

lemma exp_less_iff: "i \<le> 31 \<Longrightarrow> a \<le> 31 \<Longrightarrow> (push_bit i 1 :: u32) < push_bit a 1 \<longleftrightarrow> i < a"
  by (simp only: word_less_nat_alt unat_exp32) simp

lemma exp_le_top: "(push_bit i 1 :: u32) \<le> push_bit 31 1"
proof (cases "i \<le> 31")
  case True
  then have "(2 :: nat) ^ i \<le> 2 ^ 31" by (intro power_increasing) simp_all
  then show ?thesis using True by (simp only: word_le_nat_alt unat_exp32)
next
  case False
  then have "(push_bit i 1 :: u32) = 0" by (intro bit_word_eqI) (simp add: bit_simps)
  then show ?thesis by (simp only: word_zero_le)
qed

section \<open>Bounded loops\<close>

text \<open>A loop over the values its counter takes, which ends early when its body faults.\<close>

fun fold_res :: "('a \<Rightarrow> 's \<Rightarrow> 's res) \<Rightarrow> 'a list \<Rightarrow> 's \<Rightarrow> 's res" where
  "fold_res f [] s = Inr s"
| "fold_res f (x # xs) s = bind_res (f x s) (fold_res f xs)"

lemma bind_res_assoc: "bind_res (bind_res r f) g = bind_res r (\<lambda>x. bind_res (f x) g)"
  by (cases r) simp_all

lemma fold_res_append: "fold_res f (xs @ ys) s = bind_res (fold_res f xs s) (fold_res f ys)"
proof (induction xs arbitrary: s)
  case (Cons x xs)
  then show ?case by (cases "f x s") simp_all
qed simp

lemma fold_res_concat: "fold_res f (concat xss) = fold_res (fold_res f) xss"
proof
  show "fold_res f (concat xss) s = fold_res (fold_res f) xss s" for s
  proof (induction xss arbitrary: s)
    case (Cons xs xss)
    then show ?case by (cases "fold_res f xs s") (simp_all add: fold_res_append)
  qed simp
qed

lemma fold_res_map: "fold_res f (map g xs) = fold_res (\<lambda>x. f (g x)) xs"
proof
  show "fold_res f (map g xs) s = fold_res (\<lambda>x. f (g x)) xs s" for s
  proof (induction xs arbitrary: s)
    case (Cons x xs)
    then show ?case by (cases "f (g x) s") simp_all
  qed simp
qed

lemma fold_res_cong:
  "(\<And>x s. x \<in> set xs \<Longrightarrow> f x s = g x s) \<Longrightarrow> fold_res f xs s = fold_res g xs s"
proof (induction xs arbitrary: s)
  case (Cons x xs)
  then show ?case by (cases "g x s") simp_all
qed simp

lemma fold_res_pure: "fold_res (\<lambda>x s. Inr (f x s)) xs s = Inr (fold f xs s)"
  by (induction xs arbitrary: s) simp_all

text \<open>A loop whose counter is an \<open>int\<close> and whose bound may not fit one.\<close>

definition int_loop :: "nat \<Rightarrow> (nat \<Rightarrow> 's \<Rightarrow> 's res) \<Rightarrow> 's \<Rightarrow> 's res" where
  "int_loop n body s =
    fold_res (\<lambda>i s. bind_res (body i s) (\<lambda>s. check (i + 1 < 2 ^ 31) SignedOverflow (Inr s))) [0..<n] s"

lemma bind_res_Inr [simp]: "bind_res r Inr = r"
  by (cases r) simp_all

lemma int_loop_fold:
  assumes "n < 2 ^ 31"
  shows "int_loop n body s = fold_res body [0..<n] s"
  unfolding int_loop_def
proof (rule fold_res_cong)
  fix i t
  assume "i \<in> set [0..<n]"
  then have "i + 1 < 2 ^ 31" using assms by (simp only: set_upt atLeastLessThan_iff) linarith
  then show "bind_res (body i t) (\<lambda>s. check (i + 1 < 2 ^ 31) SignedOverflow (Inr s)) = body i t"
    by (simp only: check_simps bind_res_Inr)
qed

section \<open>Counted loops\<close>

text \<open>
  An outcome of code with a loop that need not end: \<open>None\<close> if it runs for ever.  \<open>for_loop ahead
  stride count body\<close> is the loop \<open>for (unsigned i = 0; i + ahead < count; i += stride)\<close> with
  its counter and bound in 32 bits.
\<close>

type_synonym 'a run = "'a res option"

definition bind_run :: "'a run \<Rightarrow> ('a \<Rightarrow> 'b run) \<Rightarrow> 'b run" where
  "bind_run r k = (case r of None \<Rightarrow> None | Some (Inl f) \<Rightarrow> Some (Inl f) | Some (Inr a) \<Rightarrow> k a)"

lemma bind_run_simps [simp]:
  "bind_run None k = None"
  "bind_run (Some (Inl f)) k = Some (Inl f)"
  "bind_run (Some (Inr a)) k = k a"
  by (simp_all add: bind_run_def)

lemma bind_run_Some: "bind_run (Some r) (\<lambda>a. Some (k a)) = Some (bind_res r k)"
  by (cases r) simp_all

partial_function (option) for_loop :: "u32 \<Rightarrow> u32 \<Rightarrow> u32 \<Rightarrow> (u32 \<Rightarrow> 's \<Rightarrow> 's res) \<Rightarrow> u32 \<Rightarrow> 's \<Rightarrow> 's run" where
  "for_loop ahead stride count body i s =
    (if i + ahead < count
     then (case body i s of Inl f \<Rightarrow> Some (Inl f) | Inr s' \<Rightarrow> for_loop ahead stride count body (i + stride) s')
     else Some (Inr s))"

end
