(* ===== verification/NV2A_Regs.thy ===== *)
theory NV2A_Regs
  imports Xbox_Prelude
begin

text \<open>
  The constants of \<open>hw/xbox/nv2a/nv2a_regs.h\<close> the modelled code names: register offsets
  within a block (collected as \<open>nv_addr\<close>), the masks of bit fields and flags (\<open>nv_mask\<close>, and as
  runs of bits \<open>nv_field\<close>) and field values (\<open>nv_val\<close>).
\<close>

named_theorems nv_addr and nv_mask and nv_field and nv_val

section \<open>Register offsets\<close>

definition NV_PMC_BOOT_0 :: hwaddr where [nv_addr]: "NV_PMC_BOOT_0 = 0x0"
definition NV_PMC_INTR_0 :: hwaddr where [nv_addr]: "NV_PMC_INTR_0 = 0x100"
definition NV_PMC_INTR_EN_0 :: hwaddr where [nv_addr]: "NV_PMC_INTR_EN_0 = 0x140"
definition NV_PBUS_PCI_NV_0 :: hwaddr where [nv_addr]: "NV_PBUS_PCI_NV_0 = 0x800"
definition NV_PBUS_PCI_NV_1 :: hwaddr where [nv_addr]: "NV_PBUS_PCI_NV_1 = 0x804"
definition NV_PBUS_PCI_NV_2 :: hwaddr where [nv_addr]: "NV_PBUS_PCI_NV_2 = 0x808"
definition NV_PFIFO_INTR_0 :: hwaddr where [nv_addr]: "NV_PFIFO_INTR_0 = 0x100"
definition NV_PFIFO_INTR_EN_0 :: hwaddr where [nv_addr]: "NV_PFIFO_INTR_EN_0 = 0x140"
definition NV_PFIFO_RAMHT :: hwaddr where [nv_addr]: "NV_PFIFO_RAMHT = 0x210"
definition NV_PFIFO_RUNOUT_STATUS :: hwaddr where [nv_addr]: "NV_PFIFO_RUNOUT_STATUS = 0x400"
definition NV_PFIFO_MODE :: hwaddr where [nv_addr]: "NV_PFIFO_MODE = 0x504"
definition NV_PFIFO_CACHE1_PUSH0 :: hwaddr where [nv_addr]: "NV_PFIFO_CACHE1_PUSH0 = 0x1200"
definition NV_PFIFO_CACHE1_PUSH1 :: hwaddr where [nv_addr]: "NV_PFIFO_CACHE1_PUSH1 = 0x1204"
definition NV_PFIFO_CACHE1_STATUS :: hwaddr where [nv_addr]: "NV_PFIFO_CACHE1_STATUS = 0x1214"
definition NV_PFIFO_CACHE1_DMA_PUSH :: hwaddr where [nv_addr]: "NV_PFIFO_CACHE1_DMA_PUSH = 0x1220"
definition NV_PFIFO_CACHE1_DMA_STATE :: hwaddr where [nv_addr]: "NV_PFIFO_CACHE1_DMA_STATE = 0x1228"
definition NV_PFIFO_CACHE1_DMA_INSTANCE :: hwaddr where [nv_addr]: "NV_PFIFO_CACHE1_DMA_INSTANCE = 0x122C"
definition NV_PFIFO_CACHE1_DMA_PUT :: hwaddr where [nv_addr]: "NV_PFIFO_CACHE1_DMA_PUT = 0x1240"
definition NV_PFIFO_CACHE1_DMA_GET :: hwaddr where [nv_addr]: "NV_PFIFO_CACHE1_DMA_GET = 0x1244"
definition NV_PFIFO_CACHE1_REF :: hwaddr where [nv_addr]: "NV_PFIFO_CACHE1_REF = 0x1248"
definition NV_PFIFO_CACHE1_DMA_SUBROUTINE :: hwaddr where [nv_addr]: "NV_PFIFO_CACHE1_DMA_SUBROUTINE = 0x124C"
definition NV_PFIFO_CACHE1_PULL0 :: hwaddr where [nv_addr]: "NV_PFIFO_CACHE1_PULL0 = 0x1250"
definition NV_PFIFO_CACHE1_PULL1 :: hwaddr where [nv_addr]: "NV_PFIFO_CACHE1_PULL1 = 0x1254"
definition NV_PFIFO_CACHE1_ENGINE :: hwaddr where [nv_addr]: "NV_PFIFO_CACHE1_ENGINE = 0x1280"
definition NV_PFIFO_CACHE1_DMA_DCOUNT :: hwaddr where [nv_addr]: "NV_PFIFO_CACHE1_DMA_DCOUNT = 0x12A0"
definition NV_PFIFO_CACHE1_DMA_GET_JMP_SHADOW :: hwaddr where [nv_addr]: "NV_PFIFO_CACHE1_DMA_GET_JMP_SHADOW = 0x12A4"
definition NV_PFIFO_CACHE1_DMA_RSVD_SHADOW :: hwaddr where [nv_addr]: "NV_PFIFO_CACHE1_DMA_RSVD_SHADOW = 0x12A8"
definition NV_PFIFO_CACHE1_DMA_DATA_SHADOW :: hwaddr where [nv_addr]: "NV_PFIFO_CACHE1_DMA_DATA_SHADOW = 0x12AC"
definition NV_PGRAPH_DEBUG_3 :: hwaddr where [nv_addr]: "NV_PGRAPH_DEBUG_3 = 0x8C"
definition NV_PGRAPH_INTR :: hwaddr where [nv_addr]: "NV_PGRAPH_INTR = 0x100"
definition NV_PGRAPH_NSOURCE :: hwaddr where [nv_addr]: "NV_PGRAPH_NSOURCE = 0x108"
definition NV_PGRAPH_INTR_EN :: hwaddr where [nv_addr]: "NV_PGRAPH_INTR_EN = 0x140"
definition NV_PGRAPH_CTX_CONTROL :: hwaddr where [nv_addr]: "NV_PGRAPH_CTX_CONTROL = 0x144"
definition NV_PGRAPH_CTX_USER :: hwaddr where [nv_addr]: "NV_PGRAPH_CTX_USER = 0x148"
definition NV_PGRAPH_CTX_SWITCH1 :: hwaddr where [nv_addr]: "NV_PGRAPH_CTX_SWITCH1 = 0x14C"
definition NV_PGRAPH_CTX_SWITCH2 :: hwaddr where [nv_addr]: "NV_PGRAPH_CTX_SWITCH2 = 0x150"
definition NV_PGRAPH_CTX_SWITCH3 :: hwaddr where [nv_addr]: "NV_PGRAPH_CTX_SWITCH3 = 0x154"
definition NV_PGRAPH_CTX_SWITCH4 :: hwaddr where [nv_addr]: "NV_PGRAPH_CTX_SWITCH4 = 0x158"
definition NV_PGRAPH_CTX_SWITCH5 :: hwaddr where [nv_addr]: "NV_PGRAPH_CTX_SWITCH5 = 0x15C"
definition NV_PGRAPH_CTX_CACHE1 :: hwaddr where [nv_addr]: "NV_PGRAPH_CTX_CACHE1 = 0x160"
definition NV_PGRAPH_CTX_CACHE2 :: hwaddr where [nv_addr]: "NV_PGRAPH_CTX_CACHE2 = 0x180"
definition NV_PGRAPH_CTX_CACHE3 :: hwaddr where [nv_addr]: "NV_PGRAPH_CTX_CACHE3 = 0x1A0"
definition NV_PGRAPH_CTX_CACHE4 :: hwaddr where [nv_addr]: "NV_PGRAPH_CTX_CACHE4 = 0x1C0"
definition NV_PGRAPH_CTX_CACHE5 :: hwaddr where [nv_addr]: "NV_PGRAPH_CTX_CACHE5 = 0x1E0"
definition NV_PGRAPH_TRAPPED_ADDR :: hwaddr where [nv_addr]: "NV_PGRAPH_TRAPPED_ADDR = 0x704"
definition NV_PGRAPH_TRAPPED_DATA_LOW :: hwaddr where [nv_addr]: "NV_PGRAPH_TRAPPED_DATA_LOW = 0x708"
definition NV_PGRAPH_SURFACE :: hwaddr where [nv_addr]: "NV_PGRAPH_SURFACE = 0x710"
definition NV_PGRAPH_INCREMENT :: hwaddr where [nv_addr]: "NV_PGRAPH_INCREMENT = 0x71C"
definition NV_PGRAPH_FIFO :: hwaddr where [nv_addr]: "NV_PGRAPH_FIFO = 0x720"
definition NV_PGRAPH_RDI_INDEX :: hwaddr where [nv_addr]: "NV_PGRAPH_RDI_INDEX = 0x750"
definition NV_PGRAPH_RDI_DATA :: hwaddr where [nv_addr]: "NV_PGRAPH_RDI_DATA = 0x754"
definition NV_PGRAPH_CHANNEL_CTX_POINTER :: hwaddr where [nv_addr]: "NV_PGRAPH_CHANNEL_CTX_POINTER = 0x784"
definition NV_PGRAPH_CHANNEL_CTX_TRIGGER :: hwaddr where [nv_addr]: "NV_PGRAPH_CHANNEL_CTX_TRIGGER = 0x788"
definition NV_PGRAPH_PATT_COLOR0 :: hwaddr where [nv_addr]: "NV_PGRAPH_PATT_COLOR0 = 0xB10"
definition NV_PCRTC_INTR_0 :: hwaddr where [nv_addr]: "NV_PCRTC_INTR_0 = 0x100"
definition NV_PCRTC_INTR_EN_0 :: hwaddr where [nv_addr]: "NV_PCRTC_INTR_EN_0 = 0x140"
definition NV_PCRTC_START :: hwaddr where [nv_addr]: "NV_PCRTC_START = 0x800"
definition NV_PCRTC_RASTER :: hwaddr where [nv_addr]: "NV_PCRTC_RASTER = 0x808"
definition NV_PVIDEO_BUFFER :: hwaddr where [nv_addr]: "NV_PVIDEO_BUFFER = 0x700"
definition NV_PVIDEO_STOP :: hwaddr where [nv_addr]: "NV_PVIDEO_STOP = 0x704"
definition NV_PVIDEO_POINT_OUT :: hwaddr where [nv_addr]: "NV_PVIDEO_POINT_OUT = 0x948"
definition NV_PVIDEO_SIZE_OUT :: hwaddr where [nv_addr]: "NV_PVIDEO_SIZE_OUT = 0x950"
definition NV_PTIMER_INTR_0 :: hwaddr where [nv_addr]: "NV_PTIMER_INTR_0 = 0x100"
definition NV_PTIMER_INTR_EN_0 :: hwaddr where [nv_addr]: "NV_PTIMER_INTR_EN_0 = 0x140"
definition NV_PTIMER_NUMERATOR :: hwaddr where [nv_addr]: "NV_PTIMER_NUMERATOR = 0x200"
definition NV_PTIMER_DENOMINATOR :: hwaddr where [nv_addr]: "NV_PTIMER_DENOMINATOR = 0x210"
definition NV_PTIMER_TIME_0 :: hwaddr where [nv_addr]: "NV_PTIMER_TIME_0 = 0x400"
definition NV_PTIMER_TIME_1 :: hwaddr where [nv_addr]: "NV_PTIMER_TIME_1 = 0x410"
definition NV_PTIMER_ALARM_0 :: hwaddr where [nv_addr]: "NV_PTIMER_ALARM_0 = 0x420"
definition NV_PFB_CSTATUS :: hwaddr where [nv_addr]: "NV_PFB_CSTATUS = 0x20C"
definition NV_PFB_TILE :: hwaddr where [nv_addr]: "NV_PFB_TILE = 0x240"
definition NV_PFB_WBC :: hwaddr where [nv_addr]: "NV_PFB_WBC = 0x410"
definition NV_PRAMDAC_NVPLL_COEFF :: hwaddr where [nv_addr]: "NV_PRAMDAC_NVPLL_COEFF = 0x500"
definition NV_PRAMDAC_MPLL_COEFF :: hwaddr where [nv_addr]: "NV_PRAMDAC_MPLL_COEFF = 0x504"
definition NV_PRAMDAC_VPLL_COEFF :: hwaddr where [nv_addr]: "NV_PRAMDAC_VPLL_COEFF = 0x508"
definition NV_PRAMDAC_PLL_TEST_COUNTER :: hwaddr where [nv_addr]: "NV_PRAMDAC_PLL_TEST_COUNTER = 0x514"
definition NV_PRAMDAC_GENERAL_CONTROL :: hwaddr where [nv_addr]: "NV_PRAMDAC_GENERAL_CONTROL = 0x600"
definition NV_PRAMDAC_FP_VDISPLAY_END :: hwaddr where [nv_addr]: "NV_PRAMDAC_FP_VDISPLAY_END = 0x800"
definition NV_PRAMDAC_FP_VCRTC :: hwaddr where [nv_addr]: "NV_PRAMDAC_FP_VCRTC = 0x808"
definition NV_PRAMDAC_FP_VSYNC_END :: hwaddr where [nv_addr]: "NV_PRAMDAC_FP_VSYNC_END = 0x810"
definition NV_PRAMDAC_FP_VVALID_END :: hwaddr where [nv_addr]: "NV_PRAMDAC_FP_VVALID_END = 0x818"
definition NV_PRAMDAC_FP_HDISPLAY_END :: hwaddr where [nv_addr]: "NV_PRAMDAC_FP_HDISPLAY_END = 0x820"
definition NV_PRAMDAC_FP_HCRTC :: hwaddr where [nv_addr]: "NV_PRAMDAC_FP_HCRTC = 0x828"
definition NV_PRAMDAC_FP_HVALID_END :: hwaddr where [nv_addr]: "NV_PRAMDAC_FP_HVALID_END = 0x838"
definition NV_USER_DAC_WRITE_MODE_ADDRESS :: hwaddr where [nv_addr]: "NV_USER_DAC_WRITE_MODE_ADDRESS = 0x3C8"
definition NV_USER_DAC_PALETTE_DATA :: hwaddr where [nv_addr]: "NV_USER_DAC_PALETTE_DATA = 0x3C9"
definition NV_USER_DMA_PUT :: hwaddr where [nv_addr]: "NV_USER_DMA_PUT = 0x40"
definition NV_USER_DMA_GET :: hwaddr where [nv_addr]: "NV_USER_DMA_GET = 0x44"
definition NV_USER_REF :: hwaddr where [nv_addr]: "NV_USER_REF = 0x48"

section \<open>Bit fields\<close>

definition NV_PMC_INTR_0_PFIFO :: u32 where [nv_mask]: "NV_PMC_INTR_0_PFIFO = 0x00000100"
definition NV_PMC_INTR_0_PGRAPH :: u32 where [nv_mask]: "NV_PMC_INTR_0_PGRAPH = 0x00001000"
definition NV_PMC_INTR_0_PCRTC :: u32 where [nv_mask]: "NV_PMC_INTR_0_PCRTC = 0x01000000"
definition NV_PFIFO_RAMHT_BASE_ADDRESS :: u32 where [nv_mask]: "NV_PFIFO_RAMHT_BASE_ADDRESS = 0x000001F0"
definition NV_PFIFO_RAMHT_SIZE :: u32 where [nv_mask]: "NV_PFIFO_RAMHT_SIZE = 0x00030000"
definition NV_PFIFO_RUNOUT_STATUS_LOW_MARK :: u32 where [nv_mask]: "NV_PFIFO_RUNOUT_STATUS_LOW_MARK = 0x00000010"
definition NV_PFIFO_CACHE1_PUSH0_ACCESS :: u32 where [nv_mask]: "NV_PFIFO_CACHE1_PUSH0_ACCESS = 0x00000001"
definition NV_PFIFO_CACHE1_PUSH1_CHID :: u32 where [nv_mask]: "NV_PFIFO_CACHE1_PUSH1_CHID = 0x0000001F"
definition NV_PFIFO_CACHE1_PUSH1_MODE :: u32 where [nv_mask]: "NV_PFIFO_CACHE1_PUSH1_MODE = 0x00000100"
definition NV_PFIFO_CACHE1_STATUS_LOW_MARK :: u32 where [nv_mask]: "NV_PFIFO_CACHE1_STATUS_LOW_MARK = 0x00000010"
definition NV_PFIFO_CACHE1_DMA_PUSH_ACCESS :: u32 where [nv_mask]: "NV_PFIFO_CACHE1_DMA_PUSH_ACCESS = 0x00000001"
definition NV_PFIFO_CACHE1_DMA_PUSH_STATUS :: u32 where [nv_mask]: "NV_PFIFO_CACHE1_DMA_PUSH_STATUS = 0x00001000"
definition NV_PFIFO_CACHE1_DMA_STATE_METHOD_TYPE :: u32 where [nv_mask]: "NV_PFIFO_CACHE1_DMA_STATE_METHOD_TYPE = 0x00000001"
definition NV_PFIFO_CACHE1_DMA_STATE_METHOD :: u32 where [nv_mask]: "NV_PFIFO_CACHE1_DMA_STATE_METHOD = 0x00001FFC"
definition NV_PFIFO_CACHE1_DMA_STATE_SUBCHANNEL :: u32 where [nv_mask]: "NV_PFIFO_CACHE1_DMA_STATE_SUBCHANNEL = 0x0000E000"
definition NV_PFIFO_CACHE1_DMA_STATE_METHOD_COUNT :: u32 where [nv_mask]: "NV_PFIFO_CACHE1_DMA_STATE_METHOD_COUNT = 0x1FFC0000"
definition NV_PFIFO_CACHE1_DMA_STATE_ERROR :: u32 where [nv_mask]: "NV_PFIFO_CACHE1_DMA_STATE_ERROR = 0xE0000000"
definition NV_PFIFO_CACHE1_DMA_INSTANCE_ADDRESS :: u32 where [nv_mask]: "NV_PFIFO_CACHE1_DMA_INSTANCE_ADDRESS = 0x0000FFFF"
definition NV_PFIFO_CACHE1_DMA_SUBROUTINE_STATE :: u32 where [nv_mask]: "NV_PFIFO_CACHE1_DMA_SUBROUTINE_STATE = 0x00000001"
definition NV_PFIFO_CACHE1_PULL0_ACCESS :: u32 where [nv_mask]: "NV_PFIFO_CACHE1_PULL0_ACCESS = 0x00000001"
definition NV_PFIFO_CACHE1_PULL1_ENGINE :: u32 where [nv_mask]: "NV_PFIFO_CACHE1_PULL1_ENGINE = 0x00000003"
definition NV_PFIFO_CACHE1_METHOD_TYPE :: u32 where [nv_mask]: "NV_PFIFO_CACHE1_METHOD_TYPE = 0x00000001"
definition NV_PFIFO_CACHE1_METHOD_ADDRESS :: u32 where [nv_mask]: "NV_PFIFO_CACHE1_METHOD_ADDRESS = 0x00001FFC"
definition NV_PFIFO_CACHE1_METHOD_SUBCHANNEL :: u32 where [nv_mask]: "NV_PFIFO_CACHE1_METHOD_SUBCHANNEL = 0x0000E000"
definition NV_PGRAPH_DEBUG_3_HW_CONTEXT_SWITCH :: u32 where [nv_mask]: "NV_PGRAPH_DEBUG_3_HW_CONTEXT_SWITCH = 0x00000004"
definition NV_PGRAPH_INTR_CONTEXT_SWITCH :: u32 where [nv_mask]: "NV_PGRAPH_INTR_CONTEXT_SWITCH = 0x00001000"
definition NV_PGRAPH_INTR_ERROR :: u32 where [nv_mask]: "NV_PGRAPH_INTR_ERROR = 0x00100000"
definition NV_PGRAPH_NSOURCE_NOTIFICATION :: u32 where [nv_mask]: "NV_PGRAPH_NSOURCE_NOTIFICATION = 0x00000001"
definition NV_PGRAPH_CTX_CONTROL_CHID :: u32 where [nv_mask]: "NV_PGRAPH_CTX_CONTROL_CHID = 0x00010000"
definition NV_PGRAPH_CTX_USER_CHID :: u32 where [nv_mask]: "NV_PGRAPH_CTX_USER_CHID = 0x1F000000"
definition NV_PGRAPH_CTX_SWITCH1_GRCLASS :: u32 where [nv_mask]: "NV_PGRAPH_CTX_SWITCH1_GRCLASS = 0x000000FF"
definition NV_PGRAPH_TRAPPED_ADDR_MTHD :: u32 where [nv_mask]: "NV_PGRAPH_TRAPPED_ADDR_MTHD = 0x00001FFF"
definition NV_PGRAPH_TRAPPED_ADDR_SUBCH :: u32 where [nv_mask]: "NV_PGRAPH_TRAPPED_ADDR_SUBCH = 0x00070000"
definition NV_PGRAPH_TRAPPED_ADDR_CHID :: u32 where [nv_mask]: "NV_PGRAPH_TRAPPED_ADDR_CHID = 0x01F00000"
definition NV_PGRAPH_SURFACE_WRITE_3D :: u32 where [nv_mask]: "NV_PGRAPH_SURFACE_WRITE_3D = 0x00700000"
definition NV_PGRAPH_SURFACE_READ_3D :: u32 where [nv_mask]: "NV_PGRAPH_SURFACE_READ_3D = 0x07000000"
definition NV_PGRAPH_SURFACE_MODULO_3D :: u32 where [nv_mask]: "NV_PGRAPH_SURFACE_MODULO_3D = 0x70000000"
definition NV_PGRAPH_INCREMENT_READ_3D :: u32 where [nv_mask]: "NV_PGRAPH_INCREMENT_READ_3D = 0x00000002"
definition NV_PGRAPH_FIFO_ACCESS :: u32 where [nv_mask]: "NV_PGRAPH_FIFO_ACCESS = 0x00000001"
definition NV_PGRAPH_RDI_INDEX_ADDRESS :: u32 where [nv_mask]: "NV_PGRAPH_RDI_INDEX_ADDRESS = 0x00001FFC"
definition NV_PGRAPH_RDI_INDEX_SELECT :: u32 where [nv_mask]: "NV_PGRAPH_RDI_INDEX_SELECT = 0x01FF0000"
definition NV_PGRAPH_CHANNEL_CTX_POINTER_INST :: u32 where [nv_mask]: "NV_PGRAPH_CHANNEL_CTX_POINTER_INST = 0x0000FFFF"
definition NV_PGRAPH_CHANNEL_CTX_TRIGGER_READ_IN :: u32 where [nv_mask]: "NV_PGRAPH_CHANNEL_CTX_TRIGGER_READ_IN = 0x00000001"
definition NV_PCRTC_INTR_0_VBLANK :: u32 where [nv_mask]: "NV_PCRTC_INTR_0_VBLANK = 0x00000001"
definition NV_PVIDEO_POINT_OUT_Y :: u32 where [nv_mask]: "NV_PVIDEO_POINT_OUT_Y = 0x0FFF0000"
definition NV_PVIDEO_SIZE_OUT_HEIGHT :: u32 where [nv_mask]: "NV_PVIDEO_SIZE_OUT_HEIGHT = 0x0FFF0000"
definition NV_PFB_TILE_FLAGS_VALID :: u32 where [nv_mask]: "NV_PFB_TILE_FLAGS_VALID = 0x00000001"
definition NV_PRAMDAC_NVPLL_COEFF_MDIV :: u32 where [nv_mask]: "NV_PRAMDAC_NVPLL_COEFF_MDIV = 0x000000FF"
definition NV_PRAMDAC_NVPLL_COEFF_NDIV :: u32 where [nv_mask]: "NV_PRAMDAC_NVPLL_COEFF_NDIV = 0x0000FF00"
definition NV_PRAMDAC_NVPLL_COEFF_PDIV :: u32 where [nv_mask]: "NV_PRAMDAC_NVPLL_COEFF_PDIV = 0x00070000"
definition NV_PRAMDAC_PLL_TEST_COUNTER_VPLL2_LOCK :: u32 where [nv_mask]: "NV_PRAMDAC_PLL_TEST_COUNTER_VPLL2_LOCK = 0x08000000"
definition NV_PRAMDAC_PLL_TEST_COUNTER_NVPLL_LOCK :: u32 where [nv_mask]: "NV_PRAMDAC_PLL_TEST_COUNTER_NVPLL_LOCK = 0x20000000"
definition NV_PRAMDAC_PLL_TEST_COUNTER_MPLL_LOCK :: u32 where [nv_mask]: "NV_PRAMDAC_PLL_TEST_COUNTER_MPLL_LOCK = 0x40000000"
definition NV_PRAMDAC_PLL_TEST_COUNTER_VPLL_LOCK :: u32 where [nv_mask]: "NV_PRAMDAC_PLL_TEST_COUNTER_VPLL_LOCK = 0x80000000"
definition NV_PRAMDAC_GENERAL_CONTROL_ALT_MODE_SEL :: u32 where [nv_mask]: "NV_PRAMDAC_GENERAL_CONTROL_ALT_MODE_SEL = 0x00001000"
definition NV_DMA_CLASS :: u32 where [nv_mask]: "NV_DMA_CLASS = 0x00000FFF"
definition NV_DMA_TARGET :: u32 where [nv_mask]: "NV_DMA_TARGET = 0x00030000"
definition NV_DMA_ADJUST :: u32 where [nv_mask]: "NV_DMA_ADJUST = 0xFFF00000"
definition NV_DMA_ADDRESS :: u32 where [nv_mask]: "NV_DMA_ADDRESS = 0xFFFFF000"
definition NV_RAMHT_INSTANCE :: u32 where [nv_mask]: "NV_RAMHT_INSTANCE = 0x0000FFFF"
definition NV_RAMHT_ENGINE :: u32 where [nv_mask]: "NV_RAMHT_ENGINE = 0x00030000"
definition NV_RAMHT_CHID :: u32 where [nv_mask]: "NV_RAMHT_CHID = 0x1F000000"
definition NV_RAMHT_STATUS :: u32 where [nv_mask]: "NV_RAMHT_STATUS = 0x80000000"

section \<open>Field values\<close>

definition NV_PFIFO_CACHE1_PUSH1_MODE_DMA :: u32 where [nv_val]: "NV_PFIFO_CACHE1_PUSH1_MODE_DMA = 1"
definition NV_PFIFO_CACHE1_DMA_STATE_METHOD_TYPE_INC :: u32 where [nv_val]: "NV_PFIFO_CACHE1_DMA_STATE_METHOD_TYPE_INC = 0"
definition NV_PFIFO_CACHE1_DMA_STATE_METHOD_TYPE_NON_INC :: u32 where [nv_val]: "NV_PFIFO_CACHE1_DMA_STATE_METHOD_TYPE_NON_INC = 1"
definition NV_PFIFO_CACHE1_DMA_STATE_ERROR_NONE :: u32 where [nv_val]: "NV_PFIFO_CACHE1_DMA_STATE_ERROR_NONE = 0"
definition NV_PFIFO_CACHE1_DMA_STATE_ERROR_CALL :: u32 where [nv_val]: "NV_PFIFO_CACHE1_DMA_STATE_ERROR_CALL = 1"
definition NV_PFIFO_CACHE1_DMA_STATE_ERROR_RETURN :: u32 where [nv_val]: "NV_PFIFO_CACHE1_DMA_STATE_ERROR_RETURN = 3"
definition NV_PFIFO_CACHE1_DMA_STATE_ERROR_RESERVED_CMD :: u32 where [nv_val]: "NV_PFIFO_CACHE1_DMA_STATE_ERROR_RESERVED_CMD = 4"
definition NV_PFIFO_CACHE1_DMA_STATE_ERROR_PROTECTION :: u32 where [nv_val]: "NV_PFIFO_CACHE1_DMA_STATE_ERROR_PROTECTION = 6"
definition NV_SET_OBJECT :: u32 where [nv_val]: "NV_SET_OBJECT = 0"
definition NV_BETA :: u32 where [nv_val]: "NV_BETA = 18"
definition NV012_SET_OBJECT :: u32 where [nv_val]: "NV012_SET_OBJECT = 0"
definition NV012_SET_BETA :: u32 where [nv_val]: "NV012_SET_BETA = 768"
definition NV_CONTEXT_PATTERN :: u32 where [nv_val]: "NV_CONTEXT_PATTERN = 68"
definition NV044_SET_MONOCHROME_COLOR0 :: u32 where [nv_val]: "NV044_SET_MONOCHROME_COLOR0 = 784"
definition NV_CONTEXT_SURFACES_2D :: u32 where [nv_val]: "NV_CONTEXT_SURFACES_2D = 98"
definition NV062_SET_OBJECT :: u32 where [nv_val]: "NV062_SET_OBJECT = 0"
definition NV062_SET_CONTEXT_DMA_IMAGE_SOURCE :: u32 where [nv_val]: "NV062_SET_CONTEXT_DMA_IMAGE_SOURCE = 388"
definition NV062_SET_CONTEXT_DMA_IMAGE_DESTIN :: u32 where [nv_val]: "NV062_SET_CONTEXT_DMA_IMAGE_DESTIN = 392"
definition NV062_SET_COLOR_FORMAT :: u32 where [nv_val]: "NV062_SET_COLOR_FORMAT = 768"
definition NV062_SET_PITCH :: u32 where [nv_val]: "NV062_SET_PITCH = 772"
definition NV062_SET_OFFSET_SOURCE :: u32 where [nv_val]: "NV062_SET_OFFSET_SOURCE = 776"
definition NV062_SET_OFFSET_DESTIN :: u32 where [nv_val]: "NV062_SET_OFFSET_DESTIN = 780"
definition NV_IMAGE_BLIT :: u32 where [nv_val]: "NV_IMAGE_BLIT = 159"
definition NV09F_SET_OBJECT :: u32 where [nv_val]: "NV09F_SET_OBJECT = 0"
definition NV09F_SET_CONTEXT_SURFACES :: u32 where [nv_val]: "NV09F_SET_CONTEXT_SURFACES = 412"
definition NV09F_SET_OPERATION :: u32 where [nv_val]: "NV09F_SET_OPERATION = 764"
definition NV09F_CONTROL_POINT_IN :: u32 where [nv_val]: "NV09F_CONTROL_POINT_IN = 768"
definition NV09F_CONTROL_POINT_OUT :: u32 where [nv_val]: "NV09F_CONTROL_POINT_OUT = 772"
definition NV09F_SIZE :: u32 where [nv_val]: "NV09F_SIZE = 776"
definition NV_KELVIN_PRIMITIVE :: u32 where [nv_val]: "NV_KELVIN_PRIMITIVE = 151"
definition NV097_SET_BEGIN_END :: u32 where [nv_val]: "NV097_SET_BEGIN_END = 6140"
definition NV097_SET_BEGIN_END_OP_END :: u32 where [nv_val]: "NV097_SET_BEGIN_END_OP_END = 0"
definition NV097_DRAW_ARRAYS :: u32 where [nv_val]: "NV097_DRAW_ARRAYS = 6160"
definition RDI_INDEX_VTX_CONSTANTS0 :: u32 where [nv_val]: "RDI_INDEX_VTX_CONSTANTS0 = 23"
definition RDI_INDEX_VTX_CONSTANTS1 :: u32 where [nv_val]: "RDI_INDEX_VTX_CONSTANTS1 = 204"
definition NV2A_VERTEXSHADER_CONSTANTS :: u32 where [nv_val]: "NV2A_VERTEXSHADER_CONSTANTS = 192"
definition NV_NUM_GPU_TILES :: nat where [nv_val]: "NV_NUM_GPU_TILES = 8"
definition NV2A_CRYSTAL_FREQ :: u32 where [nv_val]: "NV2A_CRYSTAL_FREQ = 16666666"
definition NV2A_NUM_CHANNELS :: u32 where [nv_val]: "NV2A_NUM_CHANNELS = 32"

text \<open>Each mask is a contiguous field.\<close>

lemma nv_mask_fields [nv_field]:
  "NV_PMC_INTR_0_PFIFO = field_mask 8 1"
  "NV_PMC_INTR_0_PGRAPH = field_mask 12 1"
  "NV_PMC_INTR_0_PCRTC = field_mask 24 1"
  "NV_PFIFO_RAMHT_BASE_ADDRESS = field_mask 4 5"
  "NV_PFIFO_RAMHT_SIZE = field_mask 16 2"
  "NV_PFIFO_RUNOUT_STATUS_LOW_MARK = field_mask 4 1"
  "NV_PFIFO_CACHE1_PUSH0_ACCESS = field_mask 0 1"
  "NV_PFIFO_CACHE1_PUSH1_CHID = field_mask 0 5"
  "NV_PFIFO_CACHE1_PUSH1_MODE = field_mask 8 1"
  "NV_PFIFO_CACHE1_STATUS_LOW_MARK = field_mask 4 1"
  "NV_PFIFO_CACHE1_DMA_PUSH_ACCESS = field_mask 0 1"
  "NV_PFIFO_CACHE1_DMA_PUSH_STATUS = field_mask 12 1"
  "NV_PFIFO_CACHE1_DMA_STATE_METHOD_TYPE = field_mask 0 1"
  "NV_PFIFO_CACHE1_DMA_STATE_METHOD = field_mask 2 11"
  "NV_PFIFO_CACHE1_DMA_STATE_SUBCHANNEL = field_mask 13 3"
  "NV_PFIFO_CACHE1_DMA_STATE_METHOD_COUNT = field_mask 18 11"
  "NV_PFIFO_CACHE1_DMA_STATE_ERROR = field_mask 29 3"
  "NV_PFIFO_CACHE1_DMA_INSTANCE_ADDRESS = field_mask 0 16"
  "NV_PFIFO_CACHE1_DMA_SUBROUTINE_STATE = field_mask 0 1"
  "NV_PFIFO_CACHE1_PULL0_ACCESS = field_mask 0 1"
  "NV_PFIFO_CACHE1_PULL1_ENGINE = field_mask 0 2"
  "NV_PFIFO_CACHE1_METHOD_TYPE = field_mask 0 1"
  "NV_PFIFO_CACHE1_METHOD_ADDRESS = field_mask 2 11"
  "NV_PFIFO_CACHE1_METHOD_SUBCHANNEL = field_mask 13 3"
  "NV_PGRAPH_DEBUG_3_HW_CONTEXT_SWITCH = field_mask 2 1"
  "NV_PGRAPH_INTR_CONTEXT_SWITCH = field_mask 12 1"
  "NV_PGRAPH_INTR_ERROR = field_mask 20 1"
  "NV_PGRAPH_NSOURCE_NOTIFICATION = field_mask 0 1"
  "NV_PGRAPH_CTX_CONTROL_CHID = field_mask 16 1"
  "NV_PGRAPH_CTX_USER_CHID = field_mask 24 5"
  "NV_PGRAPH_CTX_SWITCH1_GRCLASS = field_mask 0 8"
  "NV_PGRAPH_TRAPPED_ADDR_MTHD = field_mask 0 13"
  "NV_PGRAPH_TRAPPED_ADDR_SUBCH = field_mask 16 3"
  "NV_PGRAPH_TRAPPED_ADDR_CHID = field_mask 20 5"
  "NV_PGRAPH_SURFACE_WRITE_3D = field_mask 20 3"
  "NV_PGRAPH_SURFACE_READ_3D = field_mask 24 3"
  "NV_PGRAPH_SURFACE_MODULO_3D = field_mask 28 3"
  "NV_PGRAPH_INCREMENT_READ_3D = field_mask 1 1"
  "NV_PGRAPH_FIFO_ACCESS = field_mask 0 1"
  "NV_PGRAPH_RDI_INDEX_ADDRESS = field_mask 2 11"
  "NV_PGRAPH_RDI_INDEX_SELECT = field_mask 16 9"
  "NV_PGRAPH_CHANNEL_CTX_POINTER_INST = field_mask 0 16"
  "NV_PGRAPH_CHANNEL_CTX_TRIGGER_READ_IN = field_mask 0 1"
  "NV_PCRTC_INTR_0_VBLANK = field_mask 0 1"
  "NV_PVIDEO_POINT_OUT_Y = field_mask 16 12"
  "NV_PVIDEO_SIZE_OUT_HEIGHT = field_mask 16 12"
  "NV_PFB_TILE_FLAGS_VALID = field_mask 0 1"
  "NV_PRAMDAC_NVPLL_COEFF_MDIV = field_mask 0 8"
  "NV_PRAMDAC_NVPLL_COEFF_NDIV = field_mask 8 8"
  "NV_PRAMDAC_NVPLL_COEFF_PDIV = field_mask 16 3"
  "NV_PRAMDAC_PLL_TEST_COUNTER_VPLL2_LOCK = field_mask 27 1"
  "NV_PRAMDAC_PLL_TEST_COUNTER_NVPLL_LOCK = field_mask 29 1"
  "NV_PRAMDAC_PLL_TEST_COUNTER_MPLL_LOCK = field_mask 30 1"
  "NV_PRAMDAC_PLL_TEST_COUNTER_VPLL_LOCK = field_mask 31 1"
  "NV_PRAMDAC_GENERAL_CONTROL_ALT_MODE_SEL = field_mask 12 1"
  "NV_DMA_CLASS = field_mask 0 12"
  "NV_DMA_TARGET = field_mask 16 2"
  "NV_DMA_ADJUST = field_mask 20 12"
  "NV_DMA_ADDRESS = field_mask 12 20"
  "NV_RAMHT_INSTANCE = field_mask 0 16"
  "NV_RAMHT_ENGINE = field_mask 16 2"
  "NV_RAMHT_CHID = field_mask 24 5"
  "NV_RAMHT_STATUS = field_mask 31 1"
  by (simp_all add: nv_mask field_mask_def mask_numeral)

lemmas nv_eval = nv_addr nv_mask nv_val

end
