(* ===== verification/NV2A_State.thy ===== *)
theory NV2A_State
  imports NV2A_Regs
begin

unbundle bit_operations_syntax

text \<open>
  The state of the GPU device (\<open>NV2AState\<close> of \<open>hw/xbox/nv2a/nv2a_int.h\<close> and \<open>PGRAPHState\<close> of
  \<open>hw/xbox/nv2a/pgraph/pgraph.h\<close>, less locks, timers and renderer internals), its interrupt
  aggregation, its DMA objects and the clipping of blits to tiles (\<open>hw/xbox/nv2a/nv2a.c\<close>).
  Memory regions and register files are functions from their index; the files of registers are
  indexed by the byte offset, as the arrays of the source are.
\<close>

section \<open>State\<close>

record vga_state =
  vga_cr :: "nat \<Rightarrow> u8"
  vga_sr :: "nat \<Rightarrow> u8"
  vga_msr :: u8
  vga_ar_flip_flop :: int

record context_surfaces_2d_state =
  cs2d_object_instance :: hwaddr
  cs2d_dma_image_source :: hwaddr
  cs2d_dma_image_dest :: hwaddr
  cs2d_color_format :: u32
  cs2d_source_pitch :: u32
  cs2d_dest_pitch :: u32
  cs2d_source_offset :: hwaddr
  cs2d_dest_offset :: hwaddr

record image_blit_state =
  blit_object_instance :: hwaddr
  blit_context_surfaces :: hwaddr
  blit_operation :: u32
  blit_in_x :: u32
  blit_in_y :: u32
  blit_out_x :: u32
  blit_out_y :: u32
  blit_width :: u32
  blit_height :: u32

record beta_state =
  beta_object_instance :: hwaddr
  beta_beta :: u32

record pgraph_state =
  pg_pending_interrupts :: u32
  pg_enabled_interrupts :: u32
  pg_context_surfaces_2d :: context_surfaces_2d_state
  pg_image_blit :: image_blit_state
  pg_beta :: beta_state
  pg_primitive_mode :: u32
  pg_vsh_constants :: "nat \<Rightarrow> nat \<Rightarrow> u32"
  pg_vsh_constants_dirty :: "nat \<Rightarrow> bool"
  pg_inline_elements_length :: u32
  pg_draw_arrays_length :: u32
  pg_draw_arrays_prevent_connect :: bool
  pg_regs :: "hwaddr \<Rightarrow> u32"
  pg_regs_dirty :: "hwaddr \<Rightarrow> bool"
  pg_waiting_for_nop :: bool
  pg_waiting_for_flip :: bool
  pg_waiting_for_context_switch :: bool

record pramdac_state =
  core_clock_coeff :: u32
  core_clock_freq :: u64
  memory_clock_coeff :: u32
  video_clock_coeff :: u32
  general_control :: u32
  fp_vdisplay_end :: u32
  fp_vcrtc :: u32
  fp_vsync_end :: u32
  fp_vvalid_end :: u32
  fp_hdisplay_end :: u32
  fp_hcrtc :: u32
  fp_hvalid_end :: u32

record nv2a_state =
  irq_asserted :: bool
  vga :: vga_state
  vga_invalidated :: "int \<Rightarrow> bool"
  pci_config :: "nat \<Rightarrow> u8"
  vram_size :: u64
  vram :: "u64 \<Rightarrow> u8"
  ramin :: "u64 \<Rightarrow> u8"
  pmc_pending_interrupts :: u32
  pmc_enabled_interrupts :: u32
  pfifo_pending_interrupts :: u32
  pfifo_enabled_interrupts :: u32
  pfifo_regs :: "hwaddr \<Rightarrow> u32"
  pfifo_fifo_kick :: bool
  pfifo_halt :: bool
  pvideo_regs :: "hwaddr \<Rightarrow> u32"
  ptimer_pending_interrupts :: u32
  ptimer_enabled_interrupts :: u32
  ptimer_numerator :: u32
  ptimer_denominator :: u32
  ptimer_alarm_time :: u32
  pfb_regs :: "hwaddr \<Rightarrow> u32"
  pgraph :: pgraph_state
  pcrtc_pending_interrupts :: u32
  pcrtc_enabled_interrupts :: u32
  pcrtc_start :: hwaddr
  pcrtc_raster :: u32
  pramdac :: pramdac_state
  puserdac_write_mode_address :: u16
  puserdac_palette :: "nat \<Rightarrow> u8"

text \<open>The size of the instance memory, fixed by \<open>nv2a_init_memory\<close>.\<close>

definition ramin_size :: u64 where
  "ramin_size = 0x100000"

text \<open>The zeroed state in which the object system allocates the device.\<close>

definition vga_state_zero :: vga_state where
  "vga_state_zero =
     \<lparr>vga_cr = (\<lambda>_. 0), vga_sr = (\<lambda>_. 0), vga_msr = 0, vga_ar_flip_flop = 0\<rparr>"

definition context_surfaces_2d_state_zero :: context_surfaces_2d_state where
  "context_surfaces_2d_state_zero =
     \<lparr>cs2d_object_instance = 0, cs2d_dma_image_source = 0, cs2d_dma_image_dest = 0,
      cs2d_color_format = 0, cs2d_source_pitch = 0, cs2d_dest_pitch = 0, cs2d_source_offset = 0,
      cs2d_dest_offset = 0\<rparr>"

definition image_blit_state_zero :: image_blit_state where
  "image_blit_state_zero =
     \<lparr>blit_object_instance = 0, blit_context_surfaces = 0, blit_operation = 0,
      blit_in_x = 0, blit_in_y = 0, blit_out_x = 0, blit_out_y = 0, blit_width = 0,
      blit_height = 0\<rparr>"

definition beta_state_zero :: beta_state where
  "beta_state_zero =
     \<lparr>beta_object_instance = 0, beta_beta = 0\<rparr>"

definition pgraph_state_zero :: pgraph_state where
  "pgraph_state_zero =
     \<lparr>pg_pending_interrupts = 0, pg_enabled_interrupts = 0,
      pg_context_surfaces_2d = context_surfaces_2d_state_zero,
      pg_image_blit = image_blit_state_zero, pg_beta = beta_state_zero, pg_primitive_mode = 0,
      pg_vsh_constants = (\<lambda>_ _. 0), pg_vsh_constants_dirty = (\<lambda>_. False),
      pg_inline_elements_length = 0, pg_draw_arrays_length = 0,
      pg_draw_arrays_prevent_connect = False, pg_regs = (\<lambda>_. 0),
      pg_regs_dirty = (\<lambda>_. False), pg_waiting_for_nop = False,
      pg_waiting_for_flip = False, pg_waiting_for_context_switch = False\<rparr>"

definition pramdac_state_zero :: pramdac_state where
  "pramdac_state_zero =
     \<lparr>core_clock_coeff = 0, core_clock_freq = 0, memory_clock_coeff = 0,
      video_clock_coeff = 0, general_control = 0, fp_vdisplay_end = 0, fp_vcrtc = 0,
      fp_vsync_end = 0, fp_vvalid_end = 0, fp_hdisplay_end = 0, fp_hcrtc = 0,
      fp_hvalid_end = 0\<rparr>"

definition nv2a_state_zero :: nv2a_state where
  "nv2a_state_zero =
     \<lparr>irq_asserted = False, vga = vga_state_zero, vga_invalidated = (\<lambda>_. False),
      pci_config = (\<lambda>_. 0), vram_size = 0, vram = (\<lambda>_. 0),
      ramin = (\<lambda>_. 0), pmc_pending_interrupts = 0, pmc_enabled_interrupts = 0,
      pfifo_pending_interrupts = 0, pfifo_enabled_interrupts = 0, pfifo_regs = (\<lambda>_. 0),
      pfifo_fifo_kick = False, pfifo_halt = False, pvideo_regs = (\<lambda>_. 0),
      ptimer_pending_interrupts = 0, ptimer_enabled_interrupts = 0, ptimer_numerator = 0,
      ptimer_denominator = 0, ptimer_alarm_time = 0, pfb_regs = (\<lambda>_. 0),
      pgraph = pgraph_state_zero, pcrtc_pending_interrupts = 0, pcrtc_enabled_interrupts = 0,
      pcrtc_start = 0, pcrtc_raster = 0, pramdac = pramdac_state_zero,
      puserdac_write_mode_address = 0, puserdac_palette = (\<lambda>_. 0)\<rparr>"

lemmas zero_defs = vga_state_zero_def context_surfaces_2d_state_zero_def image_blit_state_zero_def beta_state_zero_def pgraph_state_zero_def pramdac_state_zero_def nv2a_state_zero_def

lemma nv2a_zero_sel [simp]:
  "pfifo_regs nv2a_state_zero = (\<lambda>_. 0)" "vram nv2a_state_zero = (\<lambda>_. 0)"
  "ramin nv2a_state_zero = (\<lambda>_. 0)" "pfb_regs nv2a_state_zero = (\<lambda>_. 0)"
  "pgraph nv2a_state_zero = pgraph_state_zero" "pg_regs pgraph_state_zero = (\<lambda>_. 0)"
  "pg_waiting_for_nop pgraph_state_zero = False" "pg_waiting_for_flip pgraph_state_zero = False"
  "pg_waiting_for_context_switch pgraph_state_zero = False"
  "pg_pending_interrupts pgraph_state_zero = 0" "pg_enabled_interrupts pgraph_state_zero = 0"
  "pmc_pending_interrupts nv2a_state_zero = 0" "pmc_enabled_interrupts nv2a_state_zero = 0"
  "pfifo_pending_interrupts nv2a_state_zero = 0" "pfifo_enabled_interrupts nv2a_state_zero = 0"
  "pcrtc_pending_interrupts nv2a_state_zero = 0" "pcrtc_enabled_interrupts nv2a_state_zero = 0"
  "irq_asserted nv2a_state_zero = False"
  by (simp_all add: nv2a_state_zero_def pgraph_state_zero_def)

section \<open>Interrupt aggregation\<close>

text \<open>\<open>nv2a_update_irq\<close>: fold the three units into PMC, then drive the PCI line.\<close>

definition set_pending :: "bool \<Rightarrow> u32 \<Rightarrow> u32 \<Rightarrow> u32" where
  "set_pending b m p = (if b then p OR m else p AND NOT m)"

definition nv2a_update_irq :: "nv2a_state \<Rightarrow> nv2a_state" where
  "nv2a_update_irq d =
    (let p0 = pmc_pending_interrupts d;
         p1 = set_pending (pfifo_pending_interrupts d AND pfifo_enabled_interrupts d \<noteq> 0)
                NV_PMC_INTR_0_PFIFO p0;
         p2 = set_pending (pcrtc_pending_interrupts d AND pcrtc_enabled_interrupts d \<noteq> 0)
                NV_PMC_INTR_0_PCRTC p1;
         p3 = set_pending (pg_pending_interrupts (pgraph d) AND pg_enabled_interrupts (pgraph d) \<noteq> 0)
                NV_PMC_INTR_0_PGRAPH p2
     in d\<lparr>pmc_pending_interrupts := p3,
          irq_asserted := p3 \<noteq> 0 \<and> pmc_enabled_interrupts d \<noteq> 0\<rparr>)"

text \<open>
  What the aggregation promises: the PMC bit of a unit is set exactly when the unit has an
  enabled pending interrupt, and the line is up exactly when PMC has both a pending bit and a
  non-zero enable register.
\<close>

definition irq_inv :: "nv2a_state \<Rightarrow> bool" where
  "irq_inv d \<longleftrightarrow>
     (bit (pmc_pending_interrupts d) 8 \<longleftrightarrow> pfifo_pending_interrupts d AND pfifo_enabled_interrupts d \<noteq> 0) \<and>
     (bit (pmc_pending_interrupts d) 24 \<longleftrightarrow> pcrtc_pending_interrupts d AND pcrtc_enabled_interrupts d \<noteq> 0) \<and>
     (bit (pmc_pending_interrupts d) 12 \<longleftrightarrow>
        pg_pending_interrupts (pgraph d) AND pg_enabled_interrupts (pgraph d) \<noteq> 0) \<and>
     (irq_asserted d \<longleftrightarrow> pmc_pending_interrupts d \<noteq> 0 \<and> pmc_enabled_interrupts d \<noteq> 0)"

lemma bit_set_pending:
  "n < 32 \<Longrightarrow> bit (set_pending b m p) n \<longleftrightarrow> (if bit m n then b else bit p n)"
  by (auto simp: set_pending_def bit_simps)

lemma nv2a_update_irq_inv [simp, intro]: "irq_inv (nv2a_update_irq d)"
  by (simp add: irq_inv_def nv2a_update_irq_def Let_def bit_set_pending nv_field bit_field_mask)

text \<open>Aggregation touches nothing but the PMC pending register and the line.\<close>

lemma nv2a_update_irq_frame [simp]:
  "pmc_enabled_interrupts (nv2a_update_irq d) = pmc_enabled_interrupts d"
  "pfifo_pending_interrupts (nv2a_update_irq d) = pfifo_pending_interrupts d"
  "pfifo_enabled_interrupts (nv2a_update_irq d) = pfifo_enabled_interrupts d"
  "pfifo_regs (nv2a_update_irq d) = pfifo_regs d"
  "pgraph (nv2a_update_irq d) = pgraph d"
  "pcrtc_pending_interrupts (nv2a_update_irq d) = pcrtc_pending_interrupts d"
  "pcrtc_enabled_interrupts (nv2a_update_irq d) = pcrtc_enabled_interrupts d"
  "ptimer_pending_interrupts (nv2a_update_irq d) = ptimer_pending_interrupts d"
  "ptimer_enabled_interrupts (nv2a_update_irq d) = ptimer_enabled_interrupts d"
  "vram (nv2a_update_irq d) = vram d"
  "vram_size (nv2a_update_irq d) = vram_size d"
  "ramin (nv2a_update_irq d) = ramin d"
  by (simp_all add: nv2a_update_irq_def Let_def)

section \<open>DMA objects\<close>

record DMAObject =
  dma_class :: u32
  dma_target :: u32
  dma_address :: hwaddr
  dma_limit :: hwaddr

definition nv_dma_load :: "nv2a_state \<Rightarrow> hwaddr \<Rightarrow> DMAObject res" where
  "nv_dma_load d dma_obj_address =
     check (dma_obj_address < ramin_size)
       (AssertFail ''dma_obj_address < memory_region_size(&d->ramin)'')
     (check (dma_obj_address + 12 \<le> ramin_size) OutOfBounds
     (let flags = ldl_le_p (ramin d) dma_obj_address;
          limit = ldl_le_p (ramin d) (dma_obj_address + 4);
          frame = ldl_le_p (ramin d) (dma_obj_address + 8)
      in Inr \<lparr>dma_class = GET_MASK flags NV_DMA_CLASS,
              dma_target = GET_MASK flags NV_DMA_TARGET,
              dma_address = ucast ((frame AND NV_DMA_ADDRESS) OR GET_MASK flags NV_DMA_ADJUST),
              dma_limit = ucast limit\<rparr>))"

text \<open>\<open>nv_dma_map\<close> returns the offset of the mapping in video memory and its length.\<close>

definition nv_dma_map :: "nv2a_state \<Rightarrow> hwaddr \<Rightarrow> (hwaddr \<times> hwaddr) res" where
  "nv_dma_map d dma_obj_address =
     bind_res (nv_dma_load d dma_obj_address) (\<lambda>dma.
       let address = dma_address dma AND 0x07FFFFFF
       in check (address < vram_size d) (AssertFail ''dma.address < memory_region_size(d->vram)'')
            (Inr (address, dma_limit dma)))"

section \<open>Clipping a blit to the tile it overlaps\<close>

definition NV_PFB_TILE_BASE_ADDRESS_AND_FLAGS :: "nat \<Rightarrow> hwaddr" where
  "NV_PFB_TILE_BASE_ADDRESS_AND_FLAGS i = NV_PFB_TILE + of_nat i * 16"

definition NV_PFB_TILE_LIMIT :: "nat \<Rightarrow> hwaddr" where
  "NV_PFB_TILE_LIMIT i = NV_PFB_TILE + of_nat i * 16 + 4"

text \<open>The loop over the tiles, from tile \<open>i\<close> on.\<close>

function clip_tiles :: "(hwaddr \<Rightarrow> u32) \<Rightarrow> hwaddr \<Rightarrow> hwaddr \<Rightarrow> hwaddr \<Rightarrow> nat \<Rightarrow> hwaddr" where
  "clip_tiles regs blit_base_address blit_end len i =
    (if \<not> i < NV_NUM_GPU_TILES then len
     else if regs (NV_PFB_TILE_BASE_ADDRESS_AND_FLAGS i) AND NV_PFB_TILE_FLAGS_VALID = 0
     then clip_tiles regs blit_base_address blit_end len (Suc i)
     else let limit = regs (NV_PFB_TILE_LIMIT i)
          in if blit_base_address < ucast limit \<and> blit_end > ucast limit
             then ucast (limit + 1) - blit_base_address
             else clip_tiles regs blit_base_address blit_end len (Suc i))"
  by pat_completeness auto
termination
  by (relation "measure (\<lambda>(r, a, e, l, i). NV_NUM_GPU_TILES - i)") auto

definition nv_clip_gpu_tile_blit :: "nv2a_state \<Rightarrow> hwaddr \<Rightarrow> hwaddr \<Rightarrow> hwaddr" where
  "nv_clip_gpu_tile_blit d blit_base_address len =
     clip_tiles (pfb_regs d) blit_base_address (blit_base_address + len) len 0"

declare clip_tiles.simps [simp del]

end
