(* ===== verification/NV2A_Blocks.thy ===== *)
theory NV2A_Blocks
  imports NV2A_State
begin

unbundle bit_operations_syntax

text \<open>
  The register blocks of the GPU whose accesses are plain register semantics: PMC, PBUS, PVIDEO,
  PTIMER, PFB, PCRTC, PRAMDAC, PRMDIO, USER and the stubs, one definition per MMIO callback, with
  the vertical blank and the reset of the device (\<open>hw/xbox/nv2a/nv2a.c\<close>).  The optional logging
  of the iOS configuration is left out.  An interrupt block's status and enable registers share
  the contract of locale \<open>intr_block\<close>.
\<close>

section \<open>PMC: master control\<close>

definition pmc_read :: "nv2a_state \<Rightarrow> hwaddr \<Rightarrow> u64" where
  "pmc_read d addr =
    (if addr = NV_PMC_BOOT_0 then 0x02A000A3
     else if addr = NV_PMC_INTR_0 then ucast (pmc_pending_interrupts d)
     else if addr = NV_PMC_INTR_EN_0 then ucast (pmc_enabled_interrupts d)
     else 0)"

definition pmc_write :: "nv2a_state \<Rightarrow> hwaddr \<Rightarrow> u64 \<Rightarrow> nv2a_state" where
  "pmc_write d addr val =
    (if addr = NV_PMC_INTR_0 then
       nv2a_update_irq (d\<lparr>pmc_pending_interrupts := pmc_pending_interrupts d AND NOT (ucast val)\<rparr>)
     else if addr = NV_PMC_INTR_EN_0 then
       nv2a_update_irq (d\<lparr>pmc_enabled_interrupts := ucast val\<rparr>)
     else d)"

section \<open>PBUS: bus control\<close>

definition PCI_VENDOR_ID :: nat where "PCI_VENDOR_ID = 0"

definition PCI_COMMAND :: nat where "PCI_COMMAND = 4"

definition PCI_CLASS_REVISION :: nat where "PCI_CLASS_REVISION = 8"

definition pci_set_long :: "(nat \<Rightarrow> u8) \<Rightarrow> nat \<Rightarrow> u32 \<Rightarrow> nat \<Rightarrow> u8" where
  "pci_set_long c a v =
     c(a := byte_of v 0, a + 1 := byte_of v 1, a + 2 := byte_of v 2, a + 3 := byte_of v 3)"

definition pbus_read :: "nv2a_state \<Rightarrow> hwaddr \<Rightarrow> u64" where
  "pbus_read d addr =
    (if addr = NV_PBUS_PCI_NV_0 then ucast (ldl_le_p (pci_config d) PCI_VENDOR_ID)
     else if addr = NV_PBUS_PCI_NV_1 then ucast (ldl_le_p (pci_config d) PCI_COMMAND)
     else if addr = NV_PBUS_PCI_NV_2 then ucast (ldl_le_p (pci_config d) PCI_CLASS_REVISION)
     else 0)"

definition pbus_write :: "nv2a_state \<Rightarrow> hwaddr \<Rightarrow> u64 \<Rightarrow> nv2a_state" where
  "pbus_write d addr val =
    (if addr = NV_PBUS_PCI_NV_1
     then d\<lparr>pci_config := pci_set_long (pci_config d) PCI_COMMAND (ucast val)\<rparr>
     else d)"

section \<open>PVIDEO: video overlay\<close>

definition VGA_MAX_HEIGHT :: int where "VGA_MAX_HEIGHT = 2048"

text \<open>The bit table of invalidated scan lines of \<open>hw/display/vga.c\<close>, as a predicate.\<close>

definition vga_invalidate_scanlines :: "(int \<Rightarrow> bool) \<Rightarrow> int \<Rightarrow> int \<Rightarrow> int \<Rightarrow> bool" where
  "vga_invalidate_scanlines tab y1 y2 =
    (if y1 \<ge> VGA_MAX_HEIGHT then tab
     else let y2' = (if y2 \<ge> VGA_MAX_HEIGHT then VGA_MAX_HEIGHT else y2)
          in (\<lambda>y. tab y \<or> y1 \<le> y \<and> y < y2'))"

definition pvideo_vga_invalidate :: "nv2a_state \<Rightarrow> nv2a_state" where
  "pvideo_vga_invalidate d =
    (let y1 = uint (GET_MASK (pvideo_regs d NV_PVIDEO_POINT_OUT) NV_PVIDEO_POINT_OUT_Y);
         y2 = y1 + uint (GET_MASK (pvideo_regs d NV_PVIDEO_SIZE_OUT) NV_PVIDEO_SIZE_OUT_HEIGHT)
     in d\<lparr>vga_invalidated := vga_invalidate_scanlines (vga_invalidated d) y1 y2\<rparr>)"

definition pvideo_read :: "nv2a_state \<Rightarrow> hwaddr \<Rightarrow> u64" where
  "pvideo_read d addr = (if addr = NV_PVIDEO_STOP then 0 else ucast (pvideo_regs d addr))"

definition pvideo_write :: "nv2a_state \<Rightarrow> hwaddr \<Rightarrow> u64 \<Rightarrow> nv2a_state" where
  "pvideo_write d addr val =
    (if addr = NV_PVIDEO_BUFFER then
       pvideo_vga_invalidate (d\<lparr>pvideo_regs := (pvideo_regs d)(addr := ucast val)\<rparr>)
     else if addr = NV_PVIDEO_STOP then
       pvideo_vga_invalidate
         (if val AND 1 \<noteq> 0 then d\<lparr>pvideo_regs := (pvideo_regs d)(NV_PVIDEO_BUFFER := 0)\<rparr> else d)
     else d\<lparr>pvideo_regs := (pvideo_regs d)(addr := ucast val)\<rparr>)"

section \<open>PTIMER: time measurement\<close>

definition NANOSECONDS_PER_SECOND :: u32 where "NANOSECONDS_PER_SECOND = 1000000000"

text \<open>\<open>muldiv64\<close>: the product is exact in 128 bits, the quotient is cut to 64.\<close>

definition muldiv64 :: "u64 \<Rightarrow> u32 \<Rightarrow> u32 \<Rightarrow> u64 res" where
  "muldiv64 a b c = check (c \<noteq> 0) DivByZero (Inr (word_of_nat (unat a * unat b div unat c)))"

text \<open>\<open>now\<close> is the virtual clock, \<open>qemu_clock_get_ns(QEMU_CLOCK_VIRTUAL)\<close>.\<close>

definition ptimer_get_clock :: "u64 \<Rightarrow> nv2a_state \<Rightarrow> u64 res" where
  "ptimer_get_clock now d =
     bind_res (muldiv64 now (ucast (core_clock_freq (pramdac d))) NANOSECONDS_PER_SECOND)
       (\<lambda>t. muldiv64 t (ptimer_denominator d) (ptimer_numerator d))"

definition ptimer_read :: "u64 \<Rightarrow> nv2a_state \<Rightarrow> hwaddr \<Rightarrow> u64 res" where
  "ptimer_read now d addr =
    (if addr = NV_PTIMER_INTR_0 then Inr (ucast (ptimer_pending_interrupts d))
     else if addr = NV_PTIMER_INTR_EN_0 then Inr (ucast (ptimer_enabled_interrupts d))
     else if addr = NV_PTIMER_NUMERATOR then Inr (ucast (ptimer_numerator d))
     else if addr = NV_PTIMER_DENOMINATOR then Inr (ucast (ptimer_denominator d))
     else if addr = NV_PTIMER_TIME_0 then
       bind_res (ptimer_get_clock now d) (\<lambda>t. Inr (push_bit 5 (t AND 0x7ffffff)))
     else if addr = NV_PTIMER_TIME_1 then
       bind_res (ptimer_get_clock now d) (\<lambda>t. Inr (drop_bit 27 t AND 0x1fffffff))
     else Inr 0)"

definition ptimer_write :: "nv2a_state \<Rightarrow> hwaddr \<Rightarrow> u64 \<Rightarrow> nv2a_state" where
  "ptimer_write d addr val =
    (if addr = NV_PTIMER_INTR_0 then
       nv2a_update_irq (d\<lparr>ptimer_pending_interrupts := ptimer_pending_interrupts d AND NOT (ucast val)\<rparr>)
     else if addr = NV_PTIMER_INTR_EN_0 then
       nv2a_update_irq (d\<lparr>ptimer_enabled_interrupts := ucast val\<rparr>)
     else if addr = NV_PTIMER_DENOMINATOR then d\<lparr>ptimer_denominator := ucast val\<rparr>
     else if addr = NV_PTIMER_NUMERATOR then d\<lparr>ptimer_numerator := ucast val\<rparr>
     else if addr = NV_PTIMER_ALARM_0 then d\<lparr>ptimer_alarm_time := ucast val\<rparr>
     else d)"

section \<open>PFB: memory interface\<close>

definition pfb_read :: "nv2a_state \<Rightarrow> hwaddr \<Rightarrow> u64" where
  "pfb_read d addr =
    (if addr = NV_PFB_CSTATUS then vram_size d
     else if addr = NV_PFB_WBC then 0
     else ucast (pfb_regs d addr))"

definition pfb_write :: "nv2a_state \<Rightarrow> hwaddr \<Rightarrow> u64 \<Rightarrow> nv2a_state" where
  "pfb_write d addr val = d\<lparr>pfb_regs := (pfb_regs d)(addr := ucast val)\<rparr>"

section \<open>PCRTC: display controller\<close>

text \<open>Reading the raster position advances it.\<close>

definition pcrtc_read :: "nv2a_state \<Rightarrow> hwaddr \<Rightarrow> u64 \<times> nv2a_state" where
  "pcrtc_read d addr =
    (if addr = NV_PCRTC_INTR_0 then (ucast (pcrtc_pending_interrupts d), d)
     else if addr = NV_PCRTC_INTR_EN_0 then (ucast (pcrtc_enabled_interrupts d), d)
     else if addr = NV_PCRTC_START then (pcrtc_start d, d)
     else if addr = NV_PCRTC_RASTER then
       (ucast (pcrtc_raster d), d\<lparr>pcrtc_raster := pcrtc_raster d + 1\<rparr>)
     else (0, d))"

definition pcrtc_write :: "nv2a_state \<Rightarrow> hwaddr \<Rightarrow> u64 \<Rightarrow> nv2a_state" where
  "pcrtc_write d addr val =
    (if addr = NV_PCRTC_INTR_0 then
       nv2a_update_irq (d\<lparr>pcrtc_pending_interrupts := pcrtc_pending_interrupts d AND NOT (ucast val)\<rparr>)
     else if addr = NV_PCRTC_INTR_EN_0 then
       nv2a_update_irq (d\<lparr>pcrtc_enabled_interrupts := ucast val\<rparr>)
     else if addr = NV_PCRTC_START then d\<lparr>pcrtc_start := val AND 0x07FFFFFF\<rparr>
     else d)"

text \<open>The part of \<open>nv2a_vga_gfx_update\<close> after the VGA core has drawn: a vertical blank.\<close>

definition nv2a_vga_gfx_update :: "nv2a_state \<Rightarrow> nv2a_state" where
  "nv2a_vga_gfx_update d =
     nv2a_update_irq
       (d\<lparr>pcrtc_pending_interrupts := pcrtc_pending_interrupts d OR NV_PCRTC_INTR_0_VBLANK,
          pcrtc_raster := 0\<rparr>)"

section \<open>PRAMDAC: clocks and flat panel timing\<close>

definition pramdac_reg :: "pramdac_state \<Rightarrow> hwaddr \<Rightarrow> u32" where
  "pramdac_reg s a =
    (if a = NV_PRAMDAC_NVPLL_COEFF then core_clock_coeff s
     else if a = NV_PRAMDAC_MPLL_COEFF then memory_clock_coeff s
     else if a = NV_PRAMDAC_VPLL_COEFF then video_clock_coeff s
     else if a = NV_PRAMDAC_PLL_TEST_COUNTER then
       NV_PRAMDAC_PLL_TEST_COUNTER_VPLL2_LOCK OR NV_PRAMDAC_PLL_TEST_COUNTER_NVPLL_LOCK
       OR NV_PRAMDAC_PLL_TEST_COUNTER_MPLL_LOCK OR NV_PRAMDAC_PLL_TEST_COUNTER_VPLL_LOCK
     else if a = NV_PRAMDAC_GENERAL_CONTROL then general_control s
     else if a = NV_PRAMDAC_FP_VDISPLAY_END then fp_vdisplay_end s
     else if a = NV_PRAMDAC_FP_VCRTC then fp_vcrtc s
     else if a = NV_PRAMDAC_FP_VSYNC_END then fp_vsync_end s
     else if a = NV_PRAMDAC_FP_VVALID_END then fp_vvalid_end s
     else if a = NV_PRAMDAC_FP_HDISPLAY_END then fp_hdisplay_end s
     else if a = NV_PRAMDAC_FP_HCRTC then fp_hcrtc s
     else if a = NV_PRAMDAC_FP_HVALID_END then fp_hvalid_end s
     else 0)"

text \<open>
  The register is read at its aligned offset and shifted right by \<open>32 - 8 * size - 8 * (addr & 3)\<close>,
  an unsigned 64-bit amount; a shift of 64 or more is undefined.
\<close>

definition pramdac_read :: "nv2a_state \<Rightarrow> hwaddr \<Rightarrow> u32 \<Rightarrow> u64 res" where
  "pramdac_read d addr sz =
    (let r = ucast (pramdac_reg (pramdac d) (addr AND NOT 3)) :: u64;
         sh = ucast (32 - 8 * sz) - 8 * (addr AND 3)
     in check (sh < 64) BadShift (Inr (drop_bit (unat sh) r)))"

definition nvpll_freq :: "u64 \<Rightarrow> u64" where
  "nvpll_freq val =
    (let m = ucast val AND NV_PRAMDAC_NVPLL_COEFF_MDIV;
         n = drop_bit 8 (ucast val AND NV_PRAMDAC_NVPLL_COEFF_NDIV);
         p = drop_bit 16 (ucast val AND NV_PRAMDAC_NVPLL_COEFF_PDIV)
     in if m = 0 then 0
        else ucast ((NV2A_CRYSTAL_FREQ * n) div push_bit (unat p) 1 div m))"

definition pramdac_write :: "nv2a_state \<Rightarrow> hwaddr \<Rightarrow> u64 \<Rightarrow> nv2a_state" where
  "pramdac_write d addr val =
    (let s = pramdac d; v = ucast val :: u32 in
     d\<lparr>pramdac :=
      (if addr = NV_PRAMDAC_NVPLL_COEFF then
         s\<lparr>core_clock_coeff := v, core_clock_freq := nvpll_freq val\<rparr>
       else if addr = NV_PRAMDAC_MPLL_COEFF then s\<lparr>memory_clock_coeff := v\<rparr>
       else if addr = NV_PRAMDAC_VPLL_COEFF then s\<lparr>video_clock_coeff := v\<rparr>
       else if addr = NV_PRAMDAC_GENERAL_CONTROL then s\<lparr>general_control := v\<rparr>
       else if addr = NV_PRAMDAC_FP_VDISPLAY_END then s\<lparr>fp_vdisplay_end := v\<rparr>
       else if addr = NV_PRAMDAC_FP_VCRTC then s\<lparr>fp_vcrtc := v\<rparr>
       else if addr = NV_PRAMDAC_FP_VSYNC_END then s\<lparr>fp_vsync_end := v\<rparr>
       else if addr = NV_PRAMDAC_FP_VVALID_END then s\<lparr>fp_vvalid_end := v\<rparr>
       else if addr = NV_PRAMDAC_FP_HDISPLAY_END then s\<lparr>fp_hdisplay_end := v\<rparr>
       else if addr = NV_PRAMDAC_FP_HCRTC then s\<lparr>fp_hcrtc := v\<rparr>
       else if addr = NV_PRAMDAC_FP_HVALID_END then s\<lparr>fp_hvalid_end := v\<rparr>
       else s)\<rparr>)"

section \<open>PRMDIO: palette\<close>

definition prmdio_read :: "nv2a_state \<Rightarrow> hwaddr \<Rightarrow> u64" where
  "prmdio_read d addr =
    (if addr = NV_USER_DAC_WRITE_MODE_ADDRESS then ucast (puserdac_write_mode_address d div 3) else 0)"

definition prmdio_write :: "nv2a_state \<Rightarrow> hwaddr \<Rightarrow> u64 \<Rightarrow> nv2a_state" where
  "prmdio_write d addr val =
    (if addr = NV_USER_DAC_WRITE_MODE_ADDRESS then
       d\<lparr>puserdac_write_mode_address := ucast ((val AND 0xff) * 3)\<rparr>
     else if addr = NV_USER_DAC_PALETTE_DATA then
       d\<lparr>puserdac_palette :=
           (puserdac_palette d)(unat (puserdac_write_mode_address d) mod (256 * 3) := ucast val),
         puserdac_write_mode_address := puserdac_write_mode_address d + 1\<rparr>
     else d)"

section \<open>USER: DMA submission\<close>

definition pfifo_kick :: "nv2a_state \<Rightarrow> nv2a_state" where
  "pfifo_kick d = d\<lparr>pfifo_fifo_kick := True\<rparr>"

text \<open>The guards \<open>user_read\<close> and \<open>user_write\<close> share: the channel, its mode, and that it is current.\<close>

definition user_channel :: "nv2a_state \<Rightarrow> hwaddr \<Rightarrow> string \<Rightarrow> 'a res \<Rightarrow> 'a res" where
  "user_channel d addr msg k =
    (let channel_id = ucast (drop_bit 16 addr) :: u32;
         cur_channel_id = GET_MASK (pfifo_regs d NV_PFIFO_CACHE1_PUSH1) NV_PFIFO_CACHE1_PUSH1_CHID
     in check (channel_id < NV2A_NUM_CHANNELS) (AssertFail ''channel_id < NV2A_NUM_CHANNELS'')
       (if pfifo_regs d NV_PFIFO_MODE AND push_bit (unat channel_id) 1 \<noteq> 0
        then check (channel_id = cur_channel_id) (AssertFail msg) k
        else Inl (AssertFail ''Failed to enter DMA mode - entered PIO mode'')))"

definition user_read :: "nv2a_state \<Rightarrow> hwaddr \<Rightarrow> u64 res" where
  "user_read d addr =
    user_channel d addr ''Unsupported: channel_id != cur_channel_id''
      (let a = addr AND 0xFFFF in
       Inr (if a = NV_USER_DMA_PUT then ucast (pfifo_regs d NV_PFIFO_CACHE1_DMA_PUT)
            else if a = NV_USER_DMA_GET then ucast (pfifo_regs d NV_PFIFO_CACHE1_DMA_GET)
            else if a = NV_USER_REF then ucast (pfifo_regs d NV_PFIFO_CACHE1_REF)
            else 0))"

definition user_write :: "nv2a_state \<Rightarrow> hwaddr \<Rightarrow> u64 \<Rightarrow> nv2a_state res" where
  "user_write d addr val =
    user_channel d addr ''Invalid channel id''
      (let a = addr AND 0xFFFF;
           put = (\<lambda>r. Inr (pfifo_kick (d\<lparr>pfifo_regs := (pfifo_regs d)(r := ucast val)\<rparr>)))
       in if a = NV_USER_DMA_PUT then put NV_PFIFO_CACHE1_DMA_PUT
          else if a = NV_USER_DMA_GET then put NV_PFIFO_CACHE1_DMA_GET
          else if a = NV_USER_REF then put NV_PFIFO_CACHE1_REF
          else Inl (AssertFail ''Unsupported NV_USER DMA register write offset''))"

section \<open>Display parameters and reset\<close>

definition nv2a_get_bpp :: "nv2a_state \<Rightarrow> nat res" where
  "nv2a_get_bpp d =
    (let depth = vga_cr (vga d) 0x28 AND 3 in
     if depth = 0 then Inr 0
     else if depth = 2 then
       Inr (if general_control (pramdac d) AND NV_PRAMDAC_GENERAL_CONTROL_ALT_MODE_SEL \<noteq> 0
            then 16 else 15)
     else if depth = 3 then Inr 32
     else Inl (AssertFail ''Unknown VGA depth - check logs for depth value''))"

record VGADisplayParams =
  line_offset :: u32
  start_addr :: u32
  line_compare :: u32

definition nv2a_get_params :: "nv2a_state \<Rightarrow> VGADisplayParams" where
  "nv2a_get_params d =
    (let cr = (\<lambda>i. ucast (vga_cr (vga d) i) :: u32) in
     \<lparr>line_offset = push_bit 3 (cr 0x13 OR push_bit 3 (cr 0x19 AND 0xe0) OR push_bit 6 (cr 0x25 AND 0x20)),
      start_addr = ucast (pcrtc_start d div 4),
      line_compare = cr 0x18 OR push_bit 4 (cr 7 AND 0x10) OR push_bit 3 (cr 9 AND 0x40)\<rparr>)"

definition nv2a_get_screen_off :: "nv2a_state \<Rightarrow> u8" where
  "nv2a_get_screen_off d = vga_sr (vga d) 1 AND 0x20"

text \<open>
  \<open>nv2a_reset\<close> once the FIFO thread has flushed, to the kick of \<open>nv2a_unlock_fifo\<close>;
  \<open>vga_common_reset\<close> is the reset of the VGA core.
\<close>

definition nv2a_reset :: "(vga_state \<Rightarrow> vga_state) \<Rightarrow> nv2a_state \<Rightarrow> nv2a_state" where
  "nv2a_reset vga_common_reset d =
     d\<lparr>pfifo_regs := (\<lambda>_. 0)(NV_PFIFO_CACHE1_STATUS := NV_PFIFO_CACHE1_STATUS_LOW_MARK),
       pvideo_regs := (\<lambda>_. 0),
       pcrtc_start := 0,
       pramdac := (pramdac d)\<lparr>core_clock_coeff := 0x00011C01, core_clock_freq := 233333324,
                     memory_clock_coeff := 0, video_clock_coeff := 0x0003C20D\<rparr>,
       vga := (vga_common_reset (vga d))\<lparr>vga_msr := 1\<rparr>,
       pgraph := (pgraph d)\<lparr>pg_regs := (\<lambda>_. 0), pg_waiting_for_nop := False,
                    pg_waiting_for_flip := False, pg_waiting_for_context_switch := False\<rparr>,
       pmc_pending_interrupts := 0,
       pfifo_pending_interrupts := 0,
       ptimer_pending_interrupts := 0,
       pcrtc_pending_interrupts := 0,
       pfifo_fifo_kick := True,
       puserdac_palette := (\<lambda>i. if i < 768 then word_of_nat (i div 3) else puserdac_palette d i)\<rparr>"


section \<open>The contract of interrupt registers\<close>

text \<open>
  A unit has a status and an enable register.  Writing ones to the status acknowledges the bits,
  writing the enable register replaces it, and neither touches the other.
\<close>

locale intr_block =
  fixes pending :: "'d \<Rightarrow> u32" and enabled :: "'d \<Rightarrow> u32"
    and ack :: "'d \<Rightarrow> u64 \<Rightarrow> 'd" and set_enable :: "'d \<Rightarrow> u64 \<Rightarrow> 'd"
  assumes pending_ack: "pending (ack d v) = pending d AND NOT (ucast v)"
    and enabled_ack: "enabled (ack d v) = enabled d"
    and pending_set: "pending (set_enable d v) = pending d"
    and enabled_set: "enabled (set_enable d v) = ucast v"
begin

lemma ack_read_back: "pending (ack d (ucast (pending d))) = 0"
  by (simp add: pending_ack)

lemma ack_all: "pending (fold (\<lambda>v d. ack d v) vs d) = pending d AND NOT (ucast (foldr (OR) vs 0))"
proof (induction vs arbitrary: d)
  case (Cons v vs)
  then show ?case
    by (simp add: pending_ack bit_eq_iff [where 'a = u32] bit_simps)
qed simp

lemma ack_keeps: "v AND w = 0 \<Longrightarrow> pending (ack d v) AND ucast w = pending d AND ucast w"
proof -
  assume "v AND w = 0"
  then have "\<not> (bit v n \<and> bit w n)" for n
    by (metis bit_and_iff bit_0_eq bot_apply bot_bool_def)
  then show ?thesis
    by (intro bit_word_eqI) (auto simp: pending_ack bit_simps)
qed

lemma masked_silent: "pending (set_enable d 0) AND enabled (set_enable d 0) = 0"
  by (simp add: enabled_set)

end

interpretation pcrtc: intr_block pcrtc_pending_interrupts pcrtc_enabled_interrupts
  "\<lambda>d. pcrtc_write d NV_PCRTC_INTR_0" "\<lambda>d. pcrtc_write d NV_PCRTC_INTR_EN_0"
  by unfold_locales (simp_all add: pcrtc_write_def nv_addr)

interpretation ptimer: intr_block ptimer_pending_interrupts ptimer_enabled_interrupts
  "\<lambda>d. ptimer_write d NV_PTIMER_INTR_0" "\<lambda>d. ptimer_write d NV_PTIMER_INTR_EN_0"
  by unfold_locales (simp_all add: ptimer_write_def nv_addr)

section \<open>What an access does to the interrupt state\<close>

text \<open>An access either aggregates anew, or leaves everything the line depends on as it was.\<close>

definition irq_same :: "nv2a_state \<Rightarrow> nv2a_state \<Rightarrow> bool" where
  "irq_same d d' \<longleftrightarrow>
     pmc_pending_interrupts d' = pmc_pending_interrupts d \<and> pmc_enabled_interrupts d' = pmc_enabled_interrupts d \<and>
     pfifo_pending_interrupts d' = pfifo_pending_interrupts d \<and> pfifo_enabled_interrupts d' = pfifo_enabled_interrupts d \<and>
     pcrtc_pending_interrupts d' = pcrtc_pending_interrupts d \<and> pcrtc_enabled_interrupts d' = pcrtc_enabled_interrupts d \<and>
     irq_asserted d' = irq_asserted d"

definition pg_irq_same :: "nv2a_state \<Rightarrow> nv2a_state \<Rightarrow> bool" where
  "pg_irq_same d d' \<longleftrightarrow>
     pg_pending_interrupts (pgraph d') = pg_pending_interrupts (pgraph d) \<and>
     pg_enabled_interrupts (pgraph d') = pg_enabled_interrupts (pgraph d)"

text \<open>The part of the consistency that does not look at PGRAPH.\<close>

definition irq_core :: "nv2a_state \<Rightarrow> bool" where
  "irq_core d \<longleftrightarrow>
     (bit (pmc_pending_interrupts d) 8 \<longleftrightarrow> pfifo_pending_interrupts d AND pfifo_enabled_interrupts d \<noteq> 0) \<and>
     (bit (pmc_pending_interrupts d) 24 \<longleftrightarrow> pcrtc_pending_interrupts d AND pcrtc_enabled_interrupts d \<noteq> 0) \<and>
     (irq_asserted d \<longleftrightarrow> pmc_pending_interrupts d \<noteq> 0 \<and> pmc_enabled_interrupts d \<noteq> 0)"

lemma irq_inv_core: "irq_inv d \<Longrightarrow> irq_core d"
  by (simp add: irq_inv_def irq_core_def)

lemma irq_same_inv: "irq_same d d' \<Longrightarrow> pg_irq_same d d' \<Longrightarrow> irq_inv d' = irq_inv d"
  by (simp add: irq_same_def pg_irq_same_def irq_inv_def)

lemma irq_same_core: "irq_same d d' \<Longrightarrow> irq_core d' = irq_core d"
  by (simp add: irq_same_def irq_core_def)

lemma irq_same_refl [simp]: "irq_same d d" "pg_irq_same d d"
  by (simp_all add: irq_same_def pg_irq_same_def)

lemma pmc_write_irq:
  "a = NV_PMC_INTR_0 \<or> a = NV_PMC_INTR_EN_0 \<Longrightarrow> irq_inv (pmc_write d a v)"
  "\<not> (a = NV_PMC_INTR_0 \<or> a = NV_PMC_INTR_EN_0) \<Longrightarrow> irq_same d (pmc_write d a v)"
  "\<not> (a = NV_PMC_INTR_0 \<or> a = NV_PMC_INTR_EN_0) \<Longrightarrow> pg_irq_same d (pmc_write d a v)"
  by (auto simp: pmc_write_def)

lemma ptimer_write_irq:
  "a = NV_PTIMER_INTR_0 \<or> a = NV_PTIMER_INTR_EN_0 \<Longrightarrow> irq_inv (ptimer_write d a v)"
  "\<not> (a = NV_PTIMER_INTR_0 \<or> a = NV_PTIMER_INTR_EN_0) \<Longrightarrow> irq_same d (ptimer_write d a v)"
  "\<not> (a = NV_PTIMER_INTR_0 \<or> a = NV_PTIMER_INTR_EN_0) \<Longrightarrow> pg_irq_same d (ptimer_write d a v)"
  by (auto simp: ptimer_write_def irq_same_def pg_irq_same_def)

lemma pcrtc_write_irq:
  "a = NV_PCRTC_INTR_0 \<or> a = NV_PCRTC_INTR_EN_0 \<Longrightarrow> irq_inv (pcrtc_write d a v)"
  "\<not> (a = NV_PCRTC_INTR_0 \<or> a = NV_PCRTC_INTR_EN_0) \<Longrightarrow> irq_same d (pcrtc_write d a v)"
  "\<not> (a = NV_PCRTC_INTR_0 \<or> a = NV_PCRTC_INTR_EN_0) \<Longrightarrow> pg_irq_same d (pcrtc_write d a v)"
  by (auto simp: pcrtc_write_def irq_same_def pg_irq_same_def)

lemma quiet_writes:
  "irq_same d (pbus_write d a v)" "pg_irq_same d (pbus_write d a v)"
  "irq_same d (pvideo_write d a v)" "pg_irq_same d (pvideo_write d a v)"
  "irq_same d (pfb_write d a v)" "pg_irq_same d (pfb_write d a v)"
  "irq_same d (pramdac_write d a v)" "pg_irq_same d (pramdac_write d a v)"
  "irq_same d (prmdio_write d a v)" "pg_irq_same d (prmdio_write d a v)"
  "irq_same d (snd (pcrtc_read d a))" "pg_irq_same d (snd (pcrtc_read d a))"
  by (simp_all add: irq_same_def pg_irq_same_def pbus_write_def pvideo_write_def pvideo_vga_invalidate_def pfb_write_def
      pramdac_write_def prmdio_write_def pcrtc_read_def Let_def)

lemma user_write_irq: "user_write d a v = Inr d' \<Longrightarrow> irq_same d d'" "user_write d a v = Inr d' \<Longrightarrow> pg_irq_same d d'"
  by (auto simp: user_write_def user_channel_def pfifo_kick_def Let_def irq_same_def pg_irq_same_def split: if_splits)

section \<open>Tile clipping\<close>

text \<open>A blit from \<open>base\<close> to before \<open>e\<close> runs past the last byte of the valid tile \<open>k\<close> it starts below.\<close>

definition tile_crossed :: "(hwaddr \<Rightarrow> u32) \<Rightarrow> hwaddr \<Rightarrow> hwaddr \<Rightarrow> nat \<Rightarrow> bool" where
  "tile_crossed regs base e k \<longleftrightarrow>
     regs (NV_PFB_TILE_BASE_ADDRESS_AND_FLAGS k) AND NV_PFB_TILE_FLAGS_VALID \<noteq> 0 \<and>
     base < ucast (regs (NV_PFB_TILE_LIMIT k)) \<and> ucast (regs (NV_PFB_TILE_LIMIT k)) < e"

lemma clip_tiles_step:
  "\<not> tile_crossed regs base e i \<Longrightarrow> i < NV_NUM_GPU_TILES \<Longrightarrow>
   clip_tiles regs base e len i = clip_tiles regs base e len (Suc i)"
  by (subst clip_tiles.simps) (auto simp: tile_crossed_def Let_def)

lemma clip_tiles_none:
  "\<forall>k. i \<le> k \<and> k < NV_NUM_GPU_TILES \<longrightarrow> \<not> tile_crossed regs base e k \<Longrightarrow>
   clip_tiles regs base e len i = len"
proof (induction "NV_NUM_GPU_TILES - i" arbitrary: i)
  case 0
  then show ?case by (subst clip_tiles.simps) simp
next
  case (Suc n)
  from Suc.hyps(1) [of "Suc i"] Suc.hyps(2) Suc.prems show ?case
    by (simp add: clip_tiles_step)
qed

lemma clip_tiles_first:
  assumes "k < NV_NUM_GPU_TILES" "tile_crossed regs base e k"
  shows "i \<le> k \<Longrightarrow> \<forall>j. i \<le> j \<and> j < k \<longrightarrow> \<not> tile_crossed regs base e j \<Longrightarrow>
   clip_tiles regs base e len i = ucast (regs (NV_PFB_TILE_LIMIT k) + 1) - base"
proof (induction "k - i" arbitrary: i)
  case 0
  with assms show ?case by (subst clip_tiles.simps) (simp add: tile_crossed_def)
next
  case (Suc n)
  from Suc.hyps(1) [of "Suc i"] Suc.hyps(2) Suc.prems assms(1) show ?case
    by (simp add: clip_tiles_step)
qed

lemma clip_end:
  assumes "uint base + uint len < 2 ^ 64" "(l :: u32) \<noteq> 0xFFFFFFFF" "base < ucast l" "ucast l < base + len"
  shows "uint (ucast (l + 1) - base :: hwaddr) + uint base = uint l + 1 \<and>  (ucast (l + 1) - base :: hwaddr) \<le> len"
proof -
  have "uint base < uint l" using assms(3) by (simp add: word_less_def)
  moreover have "uint l < uint base + uint len"
    using assms(1,4) by (simp add: word_less_def uint_plus_if')
  ultimately show ?thesis
    using uint_succ32 [OF assms(2)]
    by (simp add: word_le_def uint_sub_if')
qed

text \<open>C26: Clipping a blit to the GPU tiles never lengthens it: where the blit runs past the limit
  of some valid tile, it is cut to end with the last byte of the first such tile, and
  otherwise it is left as it is (blits that do not wrap, limits below the last 32-bit address).\<close>

theorem nv_clip_gpu_tile_blit_spec:
  assumes "uint base + uint len < 2 ^ 64"
    and "\<forall>i < NV_NUM_GPU_TILES. pfb_regs d (NV_PFB_TILE_LIMIT i) \<noteq> 0xFFFFFFFF"
  shows "nv_clip_gpu_tile_blit d base len \<le> len \<and>
     (if \<exists>k < NV_NUM_GPU_TILES. tile_crossed (pfb_regs d) base (base + len) k
      then \<exists>k < NV_NUM_GPU_TILES. tile_crossed (pfb_regs d) base (base + len) k \<and>
        (\<forall>j < k. \<not> tile_crossed (pfb_regs d) base (base + len) j) \<and>
        uint base + uint (nv_clip_gpu_tile_blit d base len) = uint (pfb_regs d (NV_PFB_TILE_LIMIT k)) + 1
      else nv_clip_gpu_tile_blit d base len = len)"
proof (cases "\<exists>k < NV_NUM_GPU_TILES. tile_crossed (pfb_regs d) base (base + len) k")
  case True
  then obtain k' where k': "k' < NV_NUM_GPU_TILES" "tile_crossed (pfb_regs d) base (base + len) k'"
    by blast
  define k where "k = (LEAST k. tile_crossed (pfb_regs d) base (base + len) k)"
  have k: "k < NV_NUM_GPU_TILES" "tile_crossed (pfb_regs d) base (base + len) k"
    "\<forall>j < k. \<not> tile_crossed (pfb_regs d) base (base + len) j"
    using k' unfolding k_def by (auto intro: LeastI dest: not_less_Least intro: le_less_trans [OF Least_le])
  then have clip: "nv_clip_gpu_tile_blit d base len = ucast (pfb_regs d (NV_PFB_TILE_LIMIT k) + 1) - base"
    by (simp add: nv_clip_gpu_tile_blit_def clip_tiles_first)
  have "uint base + uint (nv_clip_gpu_tile_blit d base len) = uint (pfb_regs d (NV_PFB_TILE_LIMIT k)) + 1
      \<and> nv_clip_gpu_tile_blit d base len \<le> len"
    using clip_end [OF assms(1), of "pfb_regs d (NV_PFB_TILE_LIMIT k)"] assms(2) k(1,2)
    by (simp add: clip tile_crossed_def add.commute)
  with k True show ?thesis by auto
next
  case False
  then show ?thesis by (auto simp: nv_clip_gpu_tile_blit_def clip_tiles_none)
qed

theorem nv_clip_gpu_tile_blit_spec_witness:
  "nv_clip_gpu_tile_blit (nv2a_state_zero\<lparr>pfb_regs := (\<lambda>_. 0)
      (NV_PFB_TILE_BASE_ADDRESS_AND_FLAGS 1 := 1, NV_PFB_TILE_LIMIT 1 := 0xFFF)\<rparr>) 0x800 0x1000 \<le> 0x1000"
  by (rule conjunct1 [OF nv_clip_gpu_tile_blit_spec])
    (simp_all add: NV_PFB_TILE_BASE_ADDRESS_AND_FLAGS_def NV_PFB_TILE_LIMIT_def nv_eval)

section \<open>Clocks\<close>

text \<open>The three fields of a PLL coefficient, as numbers.\<close>

lemma nvpll_fields:
  fixes val :: u64
  shows "uint (ucast val AND NV_PRAMDAC_NVPLL_COEFF_MDIV) = uint val mod 256"
    and "uint (drop_bit 8 (ucast val AND NV_PRAMDAC_NVPLL_COEFF_NDIV)) = uint val div 256 mod 256"
    and "uint (drop_bit 16 (ucast val AND NV_PRAMDAC_NVPLL_COEFF_PDIV)) = uint val div 65536 mod 8"
proof -
  have "uint (ucast val AND NV_PRAMDAC_NVPLL_COEFF_MDIV) = take_bit 8 (uint val)"
    "uint (drop_bit 8 (ucast val AND NV_PRAMDAC_NVPLL_COEFF_NDIV)) = take_bit 8 (drop_bit 8 (uint val))"
    "uint (drop_bit 16 (ucast val AND NV_PRAMDAC_NVPLL_COEFF_PDIV)) = take_bit 3 (drop_bit 16 (uint val))"
    unfolding nv_field by (rule bit_eqI; auto simp: bit_simps field_mask_def)+
  then show "uint (ucast val AND NV_PRAMDAC_NVPLL_COEFF_MDIV) = uint val mod 256"
    "uint (drop_bit 8 (ucast val AND NV_PRAMDAC_NVPLL_COEFF_NDIV)) = uint val div 256 mod 256"
    "uint (drop_bit 16 (ucast val AND NV_PRAMDAC_NVPLL_COEFF_PDIV)) = uint val div 65536 mod 8"
    by (simp_all add: take_bit_eq_mod drop_bit_eq_div)
qed

lemma nvpll_quotient:
  fixes m n p :: u32
  assumes "uint n < 256" "uint p < 8"
  shows "uint (ucast ((NV2A_CRYSTAL_FREQ * n) div push_bit (unat p) 1 div m) :: u64)
    = 16666666 * uint n div 2 ^ unat p div uint m"
proof -
  have freq: "uint NV2A_CRYSTAL_FREQ = 16666666" by (simp add: nv_val)
  have "uint NV2A_CRYSTAL_FREQ * uint n < 2 ^ LENGTH(32)"
    unfolding freq using assms(1) by simp
  then have "uint (NV2A_CRYSTAL_FREQ * n) = 16666666 * uint n"
    unfolding freq [symmetric] by (simp only: uint_mult_lem)
  moreover have "unat p < 32" using assms(2) unfolding unat_eq_nat_uint by linarith
  then have "uint (push_bit (unat p) 1 :: u32) = push_bit (unat p) 1"
    by (intro bit_eqI) (auto simp: bit_simps)
  then have "uint (push_bit (unat p) 1 :: u32) = 2 ^ unat p"
    by (simp only: push_bit_of_1)
  ultimately show ?thesis by (simp only: uint_div_distrib ucast_widen)
qed

text \<open>C27: The core clock computed from a PLL coefficient is exact: no intermediate of
  \<open>pramdac_write\<close> overflows, so the frequency is crystal * N / 2^P / M in the integers, 0 when M is 0.\<close>

theorem nvpll_freq_exact:
  "uint (nvpll_freq val) =
     (let m = uint val mod 2 ^ 8; n = uint val div 2 ^ 8 mod 2 ^ 8; p = uint val div 2 ^ 16 mod 2 ^ 3
      in if m = 0 then 0 else 16666666 * n div 2 ^ nat p div m)"
proof -
  define m where "m = ucast val AND NV_PRAMDAC_NVPLL_COEFF_MDIV"
  define n where "n = drop_bit 8 (ucast val AND NV_PRAMDAC_NVPLL_COEFF_NDIV)"
  define p where "p = drop_bit 16 (ucast val AND NV_PRAMDAC_NVPLL_COEFF_PDIV)"
  note fields = nvpll_fields [of val, folded m_def n_def p_def]
  have "m = 0 \<longleftrightarrow> uint val mod 256 = 0"
    by (simp only: fields(1) [symmetric] uint_0_iff)
  moreover have "unat p = nat (uint val div 65536 mod 8)"
    by (simp only: unat_eq_nat_uint fields)
  moreover have "nvpll_freq val =
      (if m = 0 then 0 else ucast ((NV2A_CRYSTAL_FREQ * n) div push_bit (unat p) 1 div m))"
    by (simp only: nvpll_freq_def Let_def m_def n_def p_def)
  moreover have "uint (ucast ((NV2A_CRYSTAL_FREQ * n) div push_bit (unat p) 1 div m) :: u64)
      = 16666666 * (uint val div 256 mod 256) div 2 ^ unat p div (uint val mod 256)"
    unfolding fields [symmetric] by (rule nvpll_quotient) (simp_all only: fields pos_mod_bound zero_less_numeral)
  ultimately have "uint (nvpll_freq val) =
      (if uint val mod 256 = 0 then 0
       else 16666666 * (uint val div 256 mod 256) div 2 ^ nat (uint val div 65536 mod 8) div (uint val mod 256))"
    by (simp only: if_distrib [of uint] uint_0_eq)
  then show ?thesis by (simp add: Let_def)
qed

text \<open>The cached frequency belongs to the coefficient register.\<close>

definition pramdac_clock_inv :: "pramdac_state \<Rightarrow> bool" where
  "pramdac_clock_inv s \<longleftrightarrow> core_clock_freq s = nvpll_freq (ucast (core_clock_coeff s))"

lemma nvpll_freq_low: "nvpll_freq (ucast (ucast v :: u32)) = nvpll_freq v"
  by (simp only: nvpll_freq_def ucast_narrow)

lemma pramdac_write_clock:
  "pramdac_clock_inv (pramdac d) \<Longrightarrow> pramdac_clock_inv (pramdac (pramdac_write d addr val))"
  by (auto simp: pramdac_clock_inv_def pramdac_write_def Let_def nvpll_freq_low)

lemma nvpll_freq_reset: "nvpll_freq 0x11C01 = 233333324"
  by code_simp

lemma nv2a_reset_clock: "pramdac_clock_inv (pramdac (nv2a_reset f d))"
  by (simp add: pramdac_clock_inv_def nv2a_reset_def nvpll_freq_reset)

lemma ptimer_time_join:
  "push_bit 32 (drop_bit 27 t AND 0x1fffffff) OR push_bit 5 (t AND 0x7ffffff) = push_bit 5 (take_bit 56 (t::u64))"
proof -
  have m: "0x1fffffff = (mask 29 :: u64)" "0x7ffffff = (mask 27 :: u64)" by (simp_all add: mask_eq_exp_minus_1)
  show ?thesis unfolding m
  proof (rule bit_word_eqI)
    fix n :: nat assume "n < LENGTH(64)"
    then consider "n < 32" | "32 \<le> n" "n < 64" by fastforce
    then show "bit (push_bit 32 (drop_bit 27 t AND mask 29) OR push_bit 5 (t AND mask 27)) n = bit (push_bit 5 (take_bit 56 t)) n"
      by cases (auto simp: bit_simps)
  qed
qed

lemma nvpll_freq_narrow: "uint (ucast (nvpll_freq val) :: u32) = uint (nvpll_freq val)"
  by (simp only: nvpll_freq_def Let_def split: if_split) simp

lemma low2_add:
  fixes a :: hwaddr
  assumes "a AND 3 = 0" "k < 4"
  shows "(a + word_of_nat k) AND 3 = word_of_nat k" "(a + word_of_nat k) AND NOT 3 = a"
proof -
  have "k = 0 \<or> k = 1 \<or> k = 2 \<or> k = 3" using assms(2) by auto
  then have "(word_of_nat k :: hwaddr) AND 3 = word_of_nat k" by auto
  then show "(a + word_of_nat k) AND 3 = word_of_nat k" "(a + word_of_nat k) AND NOT 3 = a"
    by (fact add_within_mask [OF assms(1)])+
qed

text \<open>C30: A byte read of a PRAMDAC register at offset \<open>k\<close> within it returns byte \<open>3 - k\<close> of its
  little-endian value: the bytes come back in reverse order.\<close>

theorem pramdac_read_byte:
  assumes "k < 4" "a AND 3 = 0"
  shows "\<exists>r. pramdac_read d (a + word_of_nat k) 1 = Inr r \<and> ucast r = byte_of (pramdac_reg (pramdac d) a) (3 - k)"
proof -
  have k: "k = 0 \<or> k = 1 \<or> k = 2 \<or> k = 3" using assms(1) by auto
  then have sh: "(24 :: u64) - 8 * word_of_nat k = word_of_nat (24 - 8 * k)" by auto
  have u: "unat (word_of_nat (24 - 8 * k) :: u64) = 24 - 8 * k"
    using k by auto
  have lt: "(word_of_nat (24 - 8 * k) :: u64) < 64"
    using k by auto
  have "pramdac_read d (a + word_of_nat k) 1 = Inr (drop_bit (24 - 8 * k) (ucast (pramdac_reg (pramdac d) a)))"
    unfolding pramdac_read_def Let_def low2_add [OF assms(2,1)] by (simp add: sh lt u)
  moreover have "ucast (drop_bit (24 - 8 * k) (ucast (w :: u32) :: u64)) = byte_of w (3 - k)" for w
    using k by (auto simp: byte_of_def intro!: bit_word_eqI simp: bit_simps)
  ultimately show ?thesis by simp
qed

theorem pramdac_read_byte_witness:
  "\<exists>r. pramdac_read nv2a_state_zero (NV_PRAMDAC_NVPLL_COEFF + word_of_nat 1) 1 = Inr r \<and>
     ucast r = byte_of (pramdac_reg (pramdac nv2a_state_zero) NV_PRAMDAC_NVPLL_COEFF) (3 - 1)"
  by (rule pramdac_read_byte) (simp_all add: nv_addr)

lemma unat_muldiv64:
  "c \<noteq> 0 \<Longrightarrow> \<exists>t. muldiv64 a b c = Inr t \<and> unat t = unat a * unat b div unat c mod 2 ^ 64"
  by (simp add: muldiv64_def unat_of_nat)

text \<open>C28: With a non-zero numerator and the cached core clock in step with its coefficient, the two
  time registers read and join to the clock: TIME_1 above TIME_0 is 32 times the low 56 bits of
  ns * core clock / 10^9 * denominator / numerator.\<close>

theorem ptimer_time_spec:
  assumes "ptimer_numerator d \<noteq> 0" "pramdac_clock_inv (pramdac d)"
  shows "\<exists>t hi lo. ptimer_read now d NV_PTIMER_TIME_1 = Inr hi \<and> ptimer_read now d NV_PTIMER_TIME_0 = Inr lo \<and>
     push_bit 32 hi OR lo = push_bit 5 (take_bit 56 t) \<and>
     unat t = (unat now * unat (core_clock_freq (pramdac d)) div 10 ^ 9 mod 2 ^ 64)
                * unat (ptimer_denominator d) div unat (ptimer_numerator d) mod 2 ^ 64"
proof -
  let ?f = "core_clock_freq (pramdac d)"
  have f: "unat (ucast ?f :: u32) = unat ?f"
    using assms(2) nvpll_freq_narrow [of "ucast (core_clock_coeff (pramdac d))"]
    by (simp only: pramdac_clock_inv_def unat_eq_nat_uint)
  have ns: "NANOSECONDS_PER_SECOND \<noteq> 0" "unat NANOSECONDS_PER_SECOND = 10 ^ 9"
    by (simp_all add: NANOSECONDS_PER_SECOND_def)
  obtain s where s: "muldiv64 now (ucast ?f) NANOSECONDS_PER_SECOND = Inr s"
    "unat s = unat now * unat ?f div 10 ^ 9 mod 2 ^ 64"
    using unat_muldiv64 [OF ns(1), of now "ucast ?f"] unfolding f ns by blast
  obtain t where t: "muldiv64 s (ptimer_denominator d) (ptimer_numerator d) = Inr t"
    "unat t = unat s * unat (ptimer_denominator d) div unat (ptimer_numerator d) mod 2 ^ 64"
    using unat_muldiv64 [OF assms(1)] by blast
  have "ptimer_get_clock now d = Inr t" by (simp add: ptimer_get_clock_def s t)
  then have "ptimer_read now d NV_PTIMER_TIME_1 = Inr (drop_bit 27 t AND 0x1fffffff)"
    "ptimer_read now d NV_PTIMER_TIME_0 = Inr (push_bit 5 (t AND 0x7ffffff))"
    by (simp_all add: ptimer_read_def nv_addr)
  then show ?thesis using ptimer_time_join [of t] t(2) unfolding s(2) by blast
qed

theorem ptimer_time_spec_witness:
  "\<exists>t hi lo. ptimer_read 1000 (nv2a_reset id nv2a_state_zero\<lparr>ptimer_numerator := 1, ptimer_denominator := 1\<rparr>) NV_PTIMER_TIME_1 = Inr hi \<and>
     ptimer_read 1000 (nv2a_reset id nv2a_state_zero\<lparr>ptimer_numerator := 1, ptimer_denominator := 1\<rparr>) NV_PTIMER_TIME_0 = Inr lo \<and>
     push_bit 32 hi OR lo = push_bit 5 (take_bit 56 t) \<and> unat t = 233"
  using ptimer_time_spec [of "nv2a_reset id nv2a_state_zero\<lparr>ptimer_numerator := 1, ptimer_denominator := 1\<rparr>" 1000]
  by (simp add: nv2a_reset_clock) (simp add: nv2a_reset_def)

section \<open>Palette uploads\<close>

lemma palette_step:
  "puserdac_palette (prmdio_write d NV_USER_DAC_PALETTE_DATA v) =
     (puserdac_palette d)(unat (puserdac_write_mode_address d) mod 768 := ucast v)"
  "puserdac_write_mode_address (prmdio_write d NV_USER_DAC_PALETTE_DATA v) = puserdac_write_mode_address d + 1"
  by (simp_all add: prmdio_write_def nv_addr)


abbreviation palette_upload :: "u64 list \<Rightarrow> nv2a_state \<Rightarrow> nv2a_state" where
  "palette_upload vs d \<equiv> fold (\<lambda>v d. prmdio_write d NV_USER_DAC_PALETTE_DATA v) vs d"

lemma palette_upload_address:
  "puserdac_write_mode_address (palette_upload vs d) = puserdac_write_mode_address d + word_of_nat (length vs)"
  by (induction vs arbitrary: d) (simp_all add: palette_step)

lemma palette_upload_spec:
  assumes "unat (puserdac_write_mode_address d) + length vs < 2 ^ 16" "length vs \<le> 768"
  shows "(\<forall>k < length vs. puserdac_palette (palette_upload vs d)
            ((unat (puserdac_write_mode_address d) + k) mod 768) = ucast (vs ! k)) \<and>
      (\<forall>i. (\<forall>k < length vs. i \<noteq> (unat (puserdac_write_mode_address d) + k) mod 768) \<longrightarrow>
            puserdac_palette (palette_upload vs d) i = puserdac_palette d i)"
  using assms
proof (induction vs rule: rev_induct)
  case (snoc v vs)
  let ?a = "unat (puserdac_write_mode_address d)"
  have "unat (puserdac_write_mode_address (palette_upload vs d)) = ?a + length vs"
    using snoc.prems by (simp add: palette_upload_address unat_word_ariths unat_of_nat)
  then have "puserdac_palette (palette_upload (vs @ [v]) d) =
      (puserdac_palette (palette_upload vs d))((?a + length vs) mod 768 := ucast v)"
    by (simp add: palette_step)
  moreover have "(?a + k) mod 768 \<noteq> (?a + length vs) mod 768" if "k < length vs" for k
    using mod_window_neq [OF that, of 768] snoc.prems(2) by simp
  ultimately show ?case
    using snoc by (auto simp: nth_append less_Suc_eq)
qed simp

text \<open>C29: Setting the palette address to colour \<open>c\<close> and streaming up to 768 component bytes
  stores byte \<open>k\<close> at component \<open>3c + k\<close>, wrapping at the end of the 256 colours, and changes
  nothing else of the palette.\<close>

theorem palette_entries:
  assumes "length vs \<le> 768"
  shows "let d' = palette_upload vs (prmdio_write d NV_USER_DAC_WRITE_MODE_ADDRESS c);
             pos = (\<lambda>k. (3 * (unat c mod 256) + k) mod 768)
    in (\<forall>k < length vs. puserdac_palette d' (pos k) = ucast (vs ! k)) \<and>
       (\<forall>i. (\<forall>k < length vs. i \<noteq> pos k) \<longrightarrow> puserdac_palette d' i = puserdac_palette d i)"
proof -
  let ?d = "prmdio_write d NV_USER_DAC_WRITE_MODE_ADDRESS c"
  have "c AND 0xff = take_bit 8 c" by (simp add: take_bit_eq_mask mask_eq_exp_minus_1)
  then have "unat (c AND 0xff) = unat c mod 256"
    by (simp add: take_bit_eq_mod unat_mod_distrib)
  then have a: "unat (puserdac_write_mode_address ?d) = 3 * (unat c mod 256)" "puserdac_palette ?d = puserdac_palette d"
    by (simp_all add: prmdio_write_def nv_addr unsigned_ucast_eq unat_word_ariths take_bit_eq_mod)
  show ?thesis
    using palette_upload_spec [of ?d vs] assms unfolding a Let_def by simp
qed

theorem palette_entries_witness:
  "puserdac_palette (palette_upload [1, 2, 3, 4] (prmdio_write nv2a_state_zero NV_USER_DAC_WRITE_MODE_ADDRESS 255)) 0 = 4"
  using spec [OF conjunct1 [OF palette_entries [of "[1, 2, 3, 4]" nv2a_state_zero 255, unfolded Let_def]], of 3]
  by simp

end
