(* ===== verification/PGRAPH_Core.thy ===== *)
theory PGRAPH_Core
  imports NV2A_Blocks
begin

unbundle bit_operations_syntax

text \<open>
  The graphics engine's front end (\<open>hw/xbox/nv2a/pgraph/pgraph.c\<close> and \<open>rdi.c\<close>): its registers
  with their dirty map, its MMIO callbacks, the context switch trap, and \<open>pgraph_method\<close>, which
  binds objects to subchannels and dispatches a method on the class of the bound object.  The
  host renderer's image blit and the table of the Kelvin class's handlers are arguments of the
  dispatcher.  Unlocking around an interrupt is left out: the model is of one thread of control.
\<close>

section \<open>Registers\<close>

text \<open>
  \<open>pgraph_reg_r\<close> and \<open>pgraph_reg_w\<close> assert a multiple of 4.  Every offset the code names is one, so
  the assertion is modelled where the guest chooses the offset.
\<close>

definition pgraph_reg_r :: "pgraph_state \<Rightarrow> hwaddr \<Rightarrow> u32" where
  "pgraph_reg_r pg r = pg_regs pg r"

definition pgraph_reg_w :: "pgraph_state \<Rightarrow> hwaddr \<Rightarrow> u32 \<Rightarrow> pgraph_state" where
  "pgraph_reg_w pg r v =
     pg\<lparr>pg_regs_dirty := (if pg_regs pg r \<noteq> v then (pg_regs_dirty pg)(r div 4 := True) else pg_regs_dirty pg),
        pg_regs := (pg_regs pg)(r := v)\<rparr>"

definition PG_GET_MASK :: "pgraph_state \<Rightarrow> hwaddr \<Rightarrow> u32 \<Rightarrow> u32" where
  "PG_GET_MASK pg r m = GET_MASK (pgraph_reg_r pg r) m"

definition PG_SET_MASK :: "pgraph_state \<Rightarrow> hwaddr \<Rightarrow> u32 \<Rightarrow> u32 \<Rightarrow> pgraph_state" where
  "PG_SET_MASK pg r m v = pgraph_reg_w pg r (SET_MASK (pgraph_reg_r pg r) m v)"

lemma pgraph_reg_w_r [simp]: "pgraph_reg_r (pgraph_reg_w pg r v) r' = (if r' = r then v else pgraph_reg_r pg r')"
  by (simp add: pgraph_reg_r_def pgraph_reg_w_def)

lemma pgraph_reg_w_frame [simp]:
  "pg_pending_interrupts (pgraph_reg_w pg r v) = pg_pending_interrupts pg"
  "pg_enabled_interrupts (pgraph_reg_w pg r v) = pg_enabled_interrupts pg"
  "pg_waiting_for_nop (pgraph_reg_w pg r v) = pg_waiting_for_nop pg"
  "pg_waiting_for_flip (pgraph_reg_w pg r v) = pg_waiting_for_flip pg"
  "pg_waiting_for_context_switch (pgraph_reg_w pg r v) = pg_waiting_for_context_switch pg"
  by (simp_all add: pgraph_reg_w_def)

lemma PG_SET_MASK_frame [simp]:
  "pg_pending_interrupts (PG_SET_MASK pg r m v) = pg_pending_interrupts pg"
  "pg_enabled_interrupts (PG_SET_MASK pg r m v) = pg_enabled_interrupts pg"
  "pg_waiting_for_nop (PG_SET_MASK pg r m v) = pg_waiting_for_nop pg"
  "pg_waiting_for_flip (PG_SET_MASK pg r m v) = pg_waiting_for_flip pg"
  "pg_waiting_for_context_switch (PG_SET_MASK pg r m v) = pg_waiting_for_context_switch pg"
  "pgraph_reg_r (PG_SET_MASK pg r m v) r' = (if r' = r then SET_MASK (pgraph_reg_r pg r) m v else pgraph_reg_r pg r')"
  by (simp_all add: PG_SET_MASK_def)

text \<open>A register whose dirty bit is clear holds what it held when the map was cleared.\<close>

definition dirty_sound :: "(hwaddr \<Rightarrow> u32) \<Rightarrow> pgraph_state \<Rightarrow> bool" where
  "dirty_sound base pg \<longleftrightarrow> (\<forall>r. \<not> pg_regs_dirty pg (r div 4) \<longrightarrow> pg_regs pg r = base r)"

lemma dirty_sound_reg_w: "dirty_sound base pg \<Longrightarrow> dirty_sound base (pgraph_reg_w pg r v)"
  by (auto simp: dirty_sound_def pgraph_reg_w_def)

lemma dirty_sound_set_mask: "dirty_sound base pg \<Longrightarrow> dirty_sound base (PG_SET_MASK pg r m v)"
  by (simp add: PG_SET_MASK_def dirty_sound_reg_w)

section \<open>Vertex shader constants through the RDI port\<close>

definition pgraph_rdi_read :: "pgraph_state \<Rightarrow> u32 \<Rightarrow> u32 \<Rightarrow> u32 res" where
  "pgraph_rdi_read pg select address =
    (if select = RDI_INDEX_VTX_CONSTANTS0 \<or> select = RDI_INDEX_VTX_CONSTANTS1 then
       check (address div 4 < NV2A_VERTEXSHADER_CONSTANTS)
         (AssertFail ''(address / 4) < NV2A_VERTEXSHADER_CONSTANTS'')
         (Inr (pg_vsh_constants pg (unat (address div 4)) (unat (3 - address mod 4))))
     else Inl (AssertFail ''Unknown rdi read select''))"

text \<open>The write of a constant stops at an assertion that marks it untested.\<close>

definition pgraph_rdi_write :: "pgraph_state \<Rightarrow> u32 \<Rightarrow> u32 \<Rightarrow> u32 \<Rightarrow> pgraph_state res" where
  "pgraph_rdi_write pg select address val =
    (if select = RDI_INDEX_VTX_CONSTANTS0 \<or> select = RDI_INDEX_VTX_CONSTANTS1
     then Inl (AssertFail ''Untested vertex constants select'')
     else Inr pg)"

text \<open>The RDI address steps after each access and must not overflow its field.\<close>

definition rdi_step :: "pgraph_state \<Rightarrow> u32 \<Rightarrow> pgraph_state res" where
  "rdi_step pg address =
     check (address < GET_MASK NV_PGRAPH_RDI_INDEX_ADDRESS NV_PGRAPH_RDI_INDEX_ADDRESS)
       (AssertFail ''address < GET_MASK(NV_PGRAPH_RDI_INDEX_ADDRESS, NV_PGRAPH_RDI_INDEX_ADDRESS)'')
       (Inr (PG_SET_MASK pg NV_PGRAPH_RDI_INDEX NV_PGRAPH_RDI_INDEX_ADDRESS (address + 1)))"

section \<open>MMIO callbacks\<close>

definition pgraph_read :: "nv2a_state \<Rightarrow> hwaddr \<Rightarrow> (u64 \<times> nv2a_state) res" where
  "pgraph_read d addr =
    (let pg = pgraph d in
     if addr = NV_PGRAPH_INTR then Inr (ucast (pg_pending_interrupts pg), d)
     else if addr = NV_PGRAPH_INTR_EN then Inr (ucast (pg_enabled_interrupts pg), d)
     else if addr = NV_PGRAPH_RDI_DATA then
       (let select = PG_GET_MASK pg NV_PGRAPH_RDI_INDEX NV_PGRAPH_RDI_INDEX_SELECT;
            address = PG_GET_MASK pg NV_PGRAPH_RDI_INDEX NV_PGRAPH_RDI_INDEX_ADDRESS
        in bind_res (pgraph_rdi_read pg select address) (\<lambda>r.
           bind_res (rdi_step pg address) (\<lambda>pg'. Inr (ucast r, d\<lparr>pgraph := pg'\<rparr>))))
     else check (addr mod 4 = 0) (AssertFail ''r % 4 == 0'') (Inr (ucast (pgraph_reg_r pg addr), d)))"

definition pgraph_ack :: "pgraph_state \<Rightarrow> u64 \<Rightarrow> pgraph_state" where
  "pgraph_ack pg val =
    (let pending = pg_pending_interrupts pg AND NOT (ucast val) in
     pg\<lparr>pg_pending_interrupts := pending,
        pg_waiting_for_nop := (pending AND NV_PGRAPH_INTR_ERROR \<noteq> 0 \<and> pg_waiting_for_nop pg),
        pg_waiting_for_context_switch :=
          (pending AND NV_PGRAPH_INTR_CONTEXT_SWITCH \<noteq> 0 \<and> pg_waiting_for_context_switch pg)\<rparr>)"

definition pgraph_write :: "nv2a_state \<Rightarrow> hwaddr \<Rightarrow> u64 \<Rightarrow> nv2a_state res" where
  "pgraph_write d addr val =
    (let pg = pgraph d in
     if addr = NV_PGRAPH_INTR then Inr (pfifo_kick (d\<lparr>pgraph := pgraph_ack pg val\<rparr>))
     else if addr = NV_PGRAPH_INTR_EN then Inr (d\<lparr>pgraph := pg\<lparr>pg_enabled_interrupts := ucast val\<rparr>\<rparr>)
     else if addr = NV_PGRAPH_INCREMENT then
       (if val AND ucast NV_PGRAPH_INCREMENT_READ_3D \<noteq> 0 then
          (let modulo = PG_GET_MASK pg NV_PGRAPH_SURFACE NV_PGRAPH_SURFACE_MODULO_3D;
               rd = PG_GET_MASK pg NV_PGRAPH_SURFACE NV_PGRAPH_SURFACE_READ_3D
           in check (modulo \<noteq> 0) DivByZero
                (Inr (pfifo_kick (d\<lparr>pgraph :=
                  PG_SET_MASK pg NV_PGRAPH_SURFACE NV_PGRAPH_SURFACE_READ_3D ((rd + 1) mod modulo)\<rparr>))))
        else Inr d)
     else if addr = NV_PGRAPH_RDI_DATA then
       (let select = PG_GET_MASK pg NV_PGRAPH_RDI_INDEX NV_PGRAPH_RDI_INDEX_SELECT;
            address = PG_GET_MASK pg NV_PGRAPH_RDI_INDEX NV_PGRAPH_RDI_INDEX_ADDRESS
        in bind_res (pgraph_rdi_write pg select address (ucast val)) (\<lambda>pg'.
           bind_res (rdi_step pg' address) (\<lambda>pg''. Inr (d\<lparr>pgraph := pg''\<rparr>))))
     else if addr = NV_PGRAPH_CHANNEL_CTX_TRIGGER then
       (let context_address = ucast (push_bit 4
              (PG_GET_MASK pg NV_PGRAPH_CHANNEL_CTX_POINTER NV_PGRAPH_CHANNEL_CTX_POINTER_INST)) :: hwaddr
        in if val AND ucast NV_PGRAPH_CHANNEL_CTX_TRIGGER_READ_IN \<noteq> 0 then
             check (context_address < ramin_size) (AssertFail ''context_address < memory_region_size(&d->ramin)'')
               (Inr (d\<lparr>pgraph := pgraph_reg_w pg NV_PGRAPH_CTX_USER (ldl_le_p (ramin d) context_address)\<rparr>))
           else Inr d)
     else check (addr mod 4 = 0) (AssertFail ''r % 4 == 0'')
       (let d' = d\<lparr>pgraph := pgraph_reg_w pg addr (ucast val)\<rparr>
        in Inr (if addr = NV_PGRAPH_FIFO then pfifo_kick d' else d')))"

section \<open>Context switch trap\<close>

definition pgraph_context_switch :: "nv2a_state \<Rightarrow> u32 \<Rightarrow> nv2a_state res" where
  "pgraph_context_switch d channel_id =
    (let pg = pgraph d;
         channel_valid = pgraph_reg_r pg NV_PGRAPH_CTX_CONTROL AND NV_PGRAPH_CTX_CONTROL_CHID \<noteq> 0;
         pgraph_channel_id = PG_GET_MASK pg NV_PGRAPH_CTX_USER NV_PGRAPH_CTX_USER_CHID
     in if channel_valid \<and> pgraph_channel_id = channel_id then Inr d
        else let pg1 = PG_SET_MASK pg NV_PGRAPH_TRAPPED_ADDR NV_PGRAPH_TRAPPED_ADDR_CHID channel_id
             in check (PG_GET_MASK pg1 NV_PGRAPH_DEBUG_3 NV_PGRAPH_DEBUG_3_HW_CONTEXT_SWITCH = 0)
                  (AssertFail ''!PG_GET_MASK(NV_PGRAPH_DEBUG_3, NV_PGRAPH_DEBUG_3_HW_CONTEXT_SWITCH)'')
                  (Inr (nv2a_update_irq (d\<lparr>pgraph := pg1\<lparr>pg_waiting_for_context_switch := True,
                     pg_pending_interrupts := pg_pending_interrupts pg1 OR NV_PGRAPH_INTR_CONTEXT_SWITCH\<rparr>\<rparr>))))"

section \<open>Methods\<close>

text \<open>
  A handler takes subchannel, method, parameter, the words at the parameter, how many of them
  belong to the command, and whether the method address increases.  It returns how many words it
  consumed.  \<open>pgraph_method_inc\<close> and \<open>pgraph_method_non_inc\<close> lift a handler of one word to runs.
\<close>

type_synonym one_word_handler = "nv2a_state \<Rightarrow> u32 \<Rightarrow> u32 \<Rightarrow> u32 \<Rightarrow> nv2a_state res"

type_synonym kelvin_handler =
  "nv2a_state \<Rightarrow> u32 \<Rightarrow> u32 \<Rightarrow> u32 \<Rightarrow> (nat \<Rightarrow> u32) \<Rightarrow> nat \<Rightarrow> bool \<Rightarrow> (nat \<times> nv2a_state) res"

definition method_plain :: "one_word_handler \<Rightarrow> kelvin_handler" where
  "method_plain h d subchannel method parameter parameters num_words_available inc =
     bind_res (h d subchannel method parameter) (\<lambda>d'. Inr (1, d'))"

fun run_inc :: "one_word_handler \<Rightarrow> u32 \<Rightarrow> u32 list \<Rightarrow> u32 \<Rightarrow> nv2a_state \<Rightarrow> nv2a_state res" where
  "run_inc h subchannel [] method d = Inr d"
| "run_inc h subchannel (w # ws) method d =
     bind_res (h d subchannel method w) (run_inc h subchannel ws (method + 4))"

definition pgraph_method_inc :: "one_word_handler \<Rightarrow> u32 \<Rightarrow> kelvin_handler" where
  "pgraph_method_inc h range_end d subchannel method parameter parameters num_words_available inc =
    (if \<not> inc then bind_res (h d subchannel method parameter) (\<lambda>d'. Inr (1, d'))
     else let count = min num_words_available (unat ((range_end - method) div 4))
          in bind_res (run_inc h subchannel (map parameters [0..<count]) method d) (\<lambda>d'. Inr (count, d')))"

fun run_non_inc :: "one_word_handler \<Rightarrow> u32 \<Rightarrow> u32 \<Rightarrow> u32 list \<Rightarrow> nv2a_state \<Rightarrow> nv2a_state res" where
  "run_non_inc h subchannel method [] d = Inr d"
| "run_non_inc h subchannel method (w # ws) d =
     bind_res (h d subchannel method w) (run_non_inc h subchannel method ws)"

definition pgraph_method_non_inc :: "one_word_handler \<Rightarrow> kelvin_handler" where
  "pgraph_method_non_inc h d subchannel method parameter parameters num_words_available inc =
    (if inc then bind_res (h d subchannel method parameter) (\<lambda>d'. Inr (1, d'))
     else bind_res (run_non_inc h subchannel method (map parameters [0..<num_words_available]) d)
            (\<lambda>d'. Inr (num_words_available, d')))"

text \<open>What the dispatcher calls: the host renderer and the Kelvin handler table.\<close>

record method_env =
  op_image_blit :: "nv2a_state \<Rightarrow> nv2a_state"
  pgraph_kelvin_methods :: "nat \<Rightarrow> kelvin_handler option"

definition set_object :: "nv2a_state \<Rightarrow> u32 \<Rightarrow> u32 \<Rightarrow> nv2a_state res" where
  "set_object d subchannel parameter =
    (let obj = ucast parameter :: hwaddr; off = ucast (subchannel * 4) :: hwaddr in
     check (obj < ramin_size) (AssertFail ''parameter < memory_region_size(&d->ramin)'')
     (check (obj + 16 \<le> ramin_size) OutOfBounds
       (let pg1 = pgraph_reg_w (pgraph d) (NV_PGRAPH_CTX_CACHE1 + off) (ldl_le_p (ramin d) obj);
            pg2 = pgraph_reg_w pg1 (NV_PGRAPH_CTX_CACHE2 + off) (ldl_le_p (ramin d) (obj + 4));
            pg3 = pgraph_reg_w pg2 (NV_PGRAPH_CTX_CACHE3 + off) (ldl_le_p (ramin d) (obj + 8));
            pg4 = pgraph_reg_w pg3 (NV_PGRAPH_CTX_CACHE4 + off) (ldl_le_p (ramin d) (obj + 12));
            pg5 = pgraph_reg_w pg4 (NV_PGRAPH_CTX_CACHE5 + off) parameter
        in Inr (d\<lparr>pgraph := pg5\<rparr>))))"

definition switch_context :: "pgraph_state \<Rightarrow> u32 \<Rightarrow> pgraph_state" where
  "switch_context pg subchannel =
    (let off = ucast (subchannel * 4) :: hwaddr;
         pg1 = pgraph_reg_w pg NV_PGRAPH_CTX_SWITCH1 (pgraph_reg_r pg (NV_PGRAPH_CTX_CACHE1 + off));
         pg2 = pgraph_reg_w pg1 NV_PGRAPH_CTX_SWITCH2 (pgraph_reg_r pg1 (NV_PGRAPH_CTX_CACHE2 + off));
         pg3 = pgraph_reg_w pg2 NV_PGRAPH_CTX_SWITCH3 (pgraph_reg_r pg2 (NV_PGRAPH_CTX_CACHE3 + off));
         pg4 = pgraph_reg_w pg3 NV_PGRAPH_CTX_SWITCH4 (pgraph_reg_r pg3 (NV_PGRAPH_CTX_CACHE4 + off))
     in pgraph_reg_w pg4 NV_PGRAPH_CTX_SWITCH5 (pgraph_reg_r pg4 (NV_PGRAPH_CTX_CACHE5 + off)))"

definition beta_method :: "pgraph_state \<Rightarrow> u32 \<Rightarrow> u32 \<Rightarrow> pgraph_state" where
  "beta_method pg method parameter =
    (let beta = pg_beta pg in
     if method = NV012_SET_OBJECT then pg\<lparr>pg_beta := beta\<lparr>beta_object_instance := ucast parameter\<rparr>\<rparr>
     else if method = NV012_SET_BETA then
       pg\<lparr>pg_beta := beta\<lparr>beta_beta :=
          (if parameter AND 0x80000000 \<noteq> 0 then 0 else parameter AND 0x7f800000)\<rparr>\<rparr>
     else pg)"

definition pattern_method :: "pgraph_state \<Rightarrow> u32 \<Rightarrow> u32 \<Rightarrow> pgraph_state" where
  "pattern_method pg method parameter =
    (if method = NV044_SET_MONOCHROME_COLOR0 then pgraph_reg_w pg NV_PGRAPH_PATT_COLOR0 parameter else pg)"

definition surfaces_2d_method :: "pgraph_state \<Rightarrow> u32 \<Rightarrow> u32 \<Rightarrow> pgraph_state" where
  "surfaces_2d_method pg method parameter =
    (let cs = pg_context_surfaces_2d pg; upd = (\<lambda>cs'. pg\<lparr>pg_context_surfaces_2d := cs'\<rparr>) in
     if method = NV062_SET_OBJECT then upd (cs\<lparr>cs2d_object_instance := ucast parameter\<rparr>)
     else if method = NV062_SET_CONTEXT_DMA_IMAGE_SOURCE then upd (cs\<lparr>cs2d_dma_image_source := ucast parameter\<rparr>)
     else if method = NV062_SET_CONTEXT_DMA_IMAGE_DESTIN then upd (cs\<lparr>cs2d_dma_image_dest := ucast parameter\<rparr>)
     else if method = NV062_SET_COLOR_FORMAT then upd (cs\<lparr>cs2d_color_format := parameter\<rparr>)
     else if method = NV062_SET_PITCH then
       upd (cs\<lparr>cs2d_source_pitch := parameter AND 0xFFFF, cs2d_dest_pitch := drop_bit 16 parameter\<rparr>)
     else if method = NV062_SET_OFFSET_SOURCE then upd (cs\<lparr>cs2d_source_offset := ucast (parameter AND 0x07FFFFFF)\<rparr>)
     else if method = NV062_SET_OFFSET_DESTIN then upd (cs\<lparr>cs2d_dest_offset := ucast (parameter AND 0x07FFFFFF)\<rparr>)
     else pg)"

definition image_blit_method :: "method_env \<Rightarrow> nv2a_state \<Rightarrow> u32 \<Rightarrow> u32 \<Rightarrow> nv2a_state" where
  "image_blit_method env d method parameter =
    (let pg = pgraph d; b = pg_image_blit pg; upd = (\<lambda>b'. d\<lparr>pgraph := pg\<lparr>pg_image_blit := b'\<rparr>\<rparr>);
         lo = parameter AND 0xFFFF; hi = drop_bit 16 parameter in
     if method = NV09F_SET_OBJECT then upd (b\<lparr>blit_object_instance := ucast parameter\<rparr>)
     else if method = NV09F_SET_CONTEXT_SURFACES then upd (b\<lparr>blit_context_surfaces := ucast parameter\<rparr>)
     else if method = NV09F_SET_OPERATION then upd (b\<lparr>blit_operation := parameter\<rparr>)
     else if method = NV09F_CONTROL_POINT_IN then upd (b\<lparr>blit_in_x := lo, blit_in_y := hi\<rparr>)
     else if method = NV09F_CONTROL_POINT_OUT then upd (b\<lparr>blit_out_x := lo, blit_out_y := hi\<rparr>)
     else if method = NV09F_SIZE then
       (let d' = upd (b\<lparr>blit_width := lo, blit_height := hi\<rparr>)
        in if lo \<noteq> 0 \<and> hi \<noteq> 0 then op_image_blit env d' else d')
     else d)"

text \<open>
  A repeated BEGIN, DRAW_ARRAYS, END is squashed: the words after the current DRAW_ARRAYS
  parameter are an END, a BEGIN of the same primitive and a DRAW_ARRAYS header again.
\<close>

definition DRAW_ARRAYS_MAX :: u32 where "DRAW_ARRAYS_MAX = 1250"

definition squash :: "pgraph_state \<Rightarrow> u32 \<Rightarrow> (nat \<Rightarrow> u32) \<Rightarrow> nat \<Rightarrow> bool" where
  "squash pg method parameters max_lookahead_words \<longleftrightarrow>
     method = NV097_DRAW_ARRAYS \<and> max_lookahead_words \<ge> 7 \<and>
     pg_inline_elements_length pg = 0 \<and> pg_draw_arrays_length pg < DRAW_ARRAYS_MAX - 1 \<and>
     parameters 1 AND 0x31fff = NV097_SET_BEGIN_END \<and> parameters 2 = NV097_SET_BEGIN_END_OP_END \<and>
     parameters 3 AND 0x31fff = NV097_SET_BEGIN_END \<and> parameters 4 = pg_primitive_mode pg \<and>
     parameters 5 AND 0x31fff = NV097_DRAW_ARRAYS"

definition kelvin_method ::
  "method_env \<Rightarrow> nv2a_state \<Rightarrow> u32 \<Rightarrow> u32 \<Rightarrow> u32 \<Rightarrow> (nat \<Rightarrow> u32) \<Rightarrow> nat \<Rightarrow> nat \<Rightarrow> bool \<Rightarrow> (nat \<times> nv2a_state) res" where
  "kelvin_method env d subchannel method parameter parameters num_words_available max_lookahead_words inc =
    (case pgraph_kelvin_methods env (unat (drop_bit 2 method)) of
       None \<Rightarrow> Inr (1, d)
     | Some handler \<Rightarrow>
         bind_res (handler d subchannel method parameter parameters num_words_available inc) (\<lambda>(n, d').
           Inr (if squash (pgraph d') method parameters max_lookahead_words
                then (n + 4, d'\<lparr>pgraph := (pgraph d')\<lparr>pg_draw_arrays_prevent_connect := True\<rparr>\<rparr>)
                else (n, d'))))"

definition pgraph_method ::
  "method_env \<Rightarrow> nv2a_state \<Rightarrow> u32 \<Rightarrow> u32 \<Rightarrow> u32 \<Rightarrow> (nat \<Rightarrow> u32) \<Rightarrow> nat \<Rightarrow> nat \<Rightarrow> bool \<Rightarrow> (nat \<times> nv2a_state) res" where
  "pgraph_method env d subchannel method parameter parameters num_words_available max_lookahead_words inc =
    check (PG_GET_MASK (pgraph d) NV_PGRAPH_CTX_CONTROL NV_PGRAPH_CTX_CONTROL_CHID \<noteq> 0) (AssertFail ''channel_valid'')
    (check (subchannel < 8) (AssertFail ''subchannel < 8'')
    (bind_res (if method = NV_SET_OBJECT then set_object d subchannel parameter else Inr d) (\<lambda>d1.
      let pg = switch_context (pgraph d1) subchannel;
          d2 = d1\<lparr>pgraph := pg\<rparr>;
          graphics_class = PG_GET_MASK pg NV_PGRAPH_CTX_SWITCH1 NV_PGRAPH_CTX_SWITCH1_GRCLASS;
          put = (\<lambda>pg'. Inr (1, d2\<lparr>pgraph := pg'\<rparr>))
      in check (subchannel \<noteq> 0 \<longrightarrow> graphics_class \<noteq> 0x97) (AssertFail ''graphics_class != 0x97'')
        (if graphics_class = NV_BETA then put (beta_method pg method parameter)
         else if graphics_class = NV_CONTEXT_PATTERN then put (pattern_method pg method parameter)
         else if graphics_class = NV_CONTEXT_SURFACES_2D then put (surfaces_2d_method pg method parameter)
         else if graphics_class = NV_IMAGE_BLIT then Inr (1, image_blit_method env d2 method parameter)
         else if graphics_class = NV_KELVIN_PRIMITIVE then
           kelvin_method env d2 subchannel method parameter parameters num_words_available max_lookahead_words inc
         else Inr (1, d2)))))"

section \<open>Handlers of the Kelvin class\<close>

text \<open>
  A few of the handlers, one of them for a range of methods.  The others are arguments; what a table of handlers looks
  like does not depend on them.
\<close>

abbreviation (input) NV097_SET_FLIP_READ :: u32 where "NV097_SET_FLIP_READ \<equiv> 0x120"
abbreviation (input) NV097_SET_FLIP_WRITE :: u32 where "NV097_SET_FLIP_WRITE \<equiv> 0x124"
abbreviation (input) NV097_SET_FLIP_MODULO :: u32 where "NV097_SET_FLIP_MODULO \<equiv> 0x128"
abbreviation (input) NV097_SET_COMBINER_ALPHA_ICW :: u32 where "NV097_SET_COMBINER_ALPHA_ICW \<equiv> 0x260"
abbreviation (input) NV_PGRAPH_COMBINEALPHAI0 :: hwaddr where "NV_PGRAPH_COMBINEALPHAI0 \<equiv> 0x18C0"

definition SET_FLIP_READ :: one_word_handler where
  "SET_FLIP_READ d subchannel method parameter =
     Inr (d\<lparr>pgraph := PG_SET_MASK (pgraph d) NV_PGRAPH_SURFACE NV_PGRAPH_SURFACE_READ_3D parameter\<rparr>)"

definition SET_FLIP_WRITE :: one_word_handler where
  "SET_FLIP_WRITE d subchannel method parameter =
     Inr (d\<lparr>pgraph := PG_SET_MASK (pgraph d) NV_PGRAPH_SURFACE NV_PGRAPH_SURFACE_WRITE_3D parameter\<rparr>)"

definition SET_FLIP_MODULO :: one_word_handler where
  "SET_FLIP_MODULO d subchannel method parameter =
     Inr (d\<lparr>pgraph := PG_SET_MASK (pgraph d) NV_PGRAPH_SURFACE NV_PGRAPH_SURFACE_MODULO_3D parameter\<rparr>)"

definition SET_COMBINER_ALPHA_ICW :: one_word_handler where
  "SET_COMBINER_ALPHA_ICW d subchannel method parameter =
    (let slot = (method - NV097_SET_COMBINER_ALPHA_ICW) div 4
     in Inr (d\<lparr>pgraph := pgraph_reg_w (pgraph d) (NV_PGRAPH_COMBINEALPHAI0 + ucast (slot * 4)) parameter\<rparr>))"

text \<open>The entries of the table for them: a slot for each method of a range, which ends where the range does.\<close>

definition kelvin_flip_combiner :: "nat \<Rightarrow> kelvin_handler option" where
  "kelvin_flip_combiner i =
    (if i = unat (NV097_SET_FLIP_READ div 4) then Some (method_plain SET_FLIP_READ)
     else if i = unat (NV097_SET_FLIP_WRITE div 4) then Some (method_plain SET_FLIP_WRITE)
     else if i = unat (NV097_SET_FLIP_MODULO div 4) then Some (method_plain SET_FLIP_MODULO)
     else if unat (NV097_SET_COMBINER_ALPHA_ICW div 4) \<le> i \<and> i < unat (NV097_SET_COMBINER_ALPHA_ICW div 4) + 8
     then Some (pgraph_method_inc SET_COMBINER_ALPHA_ICW (NV097_SET_COMBINER_ALPHA_ICW + 4 * 8))
     else None)"

end
