(* ===== verification/PFIFO.thy ===== *)
theory PFIFO
  imports PGRAPH_Core
begin

unbundle bit_operations_syntax

text \<open>
  The command FIFO (\<open>hw/xbox/nv2a/pfifo.c\<close>): its MMIO callbacks, the hash table of objects in
  instance memory, the puller, which hands a method to the graphics engine, and the pusher, which
  fetches and decodes the push buffer.  One call of the pusher is a loop that the guest can keep
  going for ever, so it is a partial function; other threads do not run during a step.
\<close>

section \<open>MMIO callbacks\<close>

definition pfifo_read :: "nv2a_state \<Rightarrow> hwaddr \<Rightarrow> u64" where
  "pfifo_read d addr =
    (if addr = NV_PFIFO_INTR_0 then ucast (pfifo_pending_interrupts d)
     else if addr = NV_PFIFO_INTR_EN_0 then ucast (pfifo_enabled_interrupts d)
     else if addr = NV_PFIFO_RUNOUT_STATUS then ucast NV_PFIFO_RUNOUT_STATUS_LOW_MARK
     else ucast (pfifo_regs d addr))"

definition pfifo_reg_w :: "nv2a_state \<Rightarrow> hwaddr \<Rightarrow> u32 \<Rightarrow> nv2a_state" where
  "pfifo_reg_w d r v = d\<lparr>pfifo_regs := (pfifo_regs d)(r := v)\<rparr>"

definition pfifo_write :: "nv2a_state \<Rightarrow> hwaddr \<Rightarrow> u64 \<Rightarrow> nv2a_state" where
  "pfifo_write d addr val =
    pfifo_kick
     (if addr = NV_PFIFO_INTR_0 then
        nv2a_update_irq (d\<lparr>pfifo_pending_interrupts := pfifo_pending_interrupts d AND NOT (ucast val)\<rparr>)
      else if addr = NV_PFIFO_INTR_EN_0 then
        nv2a_update_irq (d\<lparr>pfifo_enabled_interrupts := ucast val\<rparr>)
      else pfifo_reg_w d addr (ucast val))"

section \<open>The object hash table\<close>

datatype FIFOEngine = ENGINE_SOFTWARE | ENGINE_GRAPHICS | ENGINE_DVD | ENGINE_OTHER

definition engine_of :: "u32 \<Rightarrow> FIFOEngine" where
  "engine_of v = (if v = 0 then ENGINE_SOFTWARE else if v = 1 then ENGINE_GRAPHICS
     else if v = 2 then ENGINE_DVD else ENGINE_OTHER)"

record RAMHTEntry =
  ht_handle :: u32
  ht_instance :: hwaddr
  ht_engine :: u32
  ht_channel_id :: u32
  ht_valid :: bool

definition ramht_size :: "nv2a_state \<Rightarrow> u32" where
  "ramht_size d = push_bit (unat (GET_MASK (pfifo_regs d NV_PFIFO_RAMHT) NV_PFIFO_RAMHT_SIZE) + 12) 1"

text \<open>The fold of the handle; \<open>bits\<close> is at least 11, so the loop ends.\<close>

function hash_loop :: "nat \<Rightarrow> u32 \<Rightarrow> u32 \<Rightarrow> u32" where
  "hash_loop bits handle hash =
    (if handle = 0 \<or> bits = 0 then hash
     else hash_loop bits (drop_bit bits handle) (hash XOR (handle AND mask bits)))"
  by pat_completeness auto
termination
proof (relation "measure (\<lambda>(b, h, _). unat h)")
  fix bits :: nat and handle hash :: u32
  assume "\<not> (handle = 0 \<or> bits = 0)"
  then show "((bits, drop_bit bits handle, hash XOR handle AND mask bits), bits, handle, hash)
      \<in> measure (\<lambda>(b, h, _). unat h)"
    by (simp add: unat_drop_bit_less)
qed simp

declare hash_loop.simps [simp del]

definition ramht_hash :: "nv2a_state \<Rightarrow> u32 \<Rightarrow> u32" where
  "ramht_hash d handle =
    (let bits = ctz32 (ramht_size d) - 1;
         hash = hash_loop bits handle 0;
         channel_id = GET_MASK (pfifo_regs d NV_PFIFO_CACHE1_PUSH1) NV_PFIFO_CACHE1_PUSH1_CHID
     in hash XOR push_bit (bits - 4) channel_id)"

definition ramht_lookup :: "nv2a_state \<Rightarrow> u32 \<Rightarrow> RAMHTEntry res" where
  "ramht_lookup d handle =
    (let hash = ramht_hash d handle;
         ramht_address = ucast (push_bit 12
            (GET_MASK (pfifo_regs d NV_PFIFO_RAMHT) NV_PFIFO_RAMHT_BASE_ADDRESS)) :: hwaddr;
         a = ramht_address + ucast (hash * 8)
     in check (hash * 8 < ramht_size d) (AssertFail ''hash * 8 < ramht_size'')
       (check (a < ramin_size) (AssertFail ''ramht_address + hash * 8 < memory_region_size(&d->ramin)'')
         (let entry_handle = ldl_le_p (ramin d) a; entry_context = ldl_le_p (ramin d) (a + 4)
          in Inr \<lparr>ht_handle = entry_handle,
                  ht_instance = ucast (push_bit 4 (entry_context AND NV_RAMHT_INSTANCE)),
                  ht_engine = drop_bit 16 (entry_context AND NV_RAMHT_ENGINE),
                  ht_channel_id = drop_bit 24 (entry_context AND NV_RAMHT_CHID),
                  ht_valid = (entry_context AND NV_RAMHT_STATUS \<noteq> 0)\<rparr>)))"

section \<open>The puller\<close>

definition can_fifo_access :: "nv2a_state \<Rightarrow> bool" where
  "can_fifo_access d \<longleftrightarrow> pg_regs (pgraph d) NV_PGRAPH_FIFO AND NV_PGRAPH_FIFO_ACCESS \<noteq> 0"

definition is_flip_stall_complete :: "nv2a_state \<Rightarrow> bool" where
  "is_flip_stall_complete d \<longleftrightarrow>
    (let s = pgraph_reg_r (pgraph d) NV_PGRAPH_SURFACE
     in GET_MASK s NV_PGRAPH_SURFACE_READ_3D \<noteq> GET_MASK s NV_PGRAPH_SURFACE_WRITE_3D)"

definition pfifo_stall_for_flip :: "nv2a_state \<Rightarrow> bool \<times> nv2a_state" where
  "pfifo_stall_for_flip d =
    (if pg_waiting_for_flip (pgraph d) then
       (if \<not> is_flip_stall_complete d then (True, d)
        else (False, d\<lparr>pgraph := (pgraph d)\<lparr>pg_waiting_for_flip := False\<rparr>\<rparr>))
     else (False, d))"

definition pfifo_puller_should_stall :: "nv2a_state \<Rightarrow> bool \<times> nv2a_state" where
  "pfifo_puller_should_stall d =
    (let (b, d') = pfifo_stall_for_flip d
     in (b \<or> pg_waiting_for_nop (pgraph d') \<or> pg_waiting_for_context_switch (pgraph d') \<or> \<not> can_fifo_access d', d'))"

text \<open>The object method and the other methods of \<open>pfifo_run_puller\<close>; \<open>-1\<close> is no progress.\<close>

definition puller_bind ::
  "method_env \<Rightarrow> nv2a_state \<Rightarrow> u32 \<Rightarrow> u32 \<Rightarrow> (nat \<Rightarrow> u32) \<Rightarrow> nat \<Rightarrow> nat \<Rightarrow> bool \<Rightarrow> (int \<times> nv2a_state) res" where
  "puller_bind env d subchannel parameter parameters num_words_available max_lookahead_words inc =
    bind_res (ramht_lookup d parameter) (\<lambda>entry.
    check (ht_valid entry) (AssertFail ''entry.valid'')
    (check (engine_of (ht_engine entry) = ENGINE_GRAPHICS) (AssertFail ''entry.engine == ENGINE_GRAPHICS'')
    (check (subchannel < 8) (AssertFail ''subchannel < 8'')
      (let d1 = pfifo_reg_w d NV_PFIFO_CACHE1_ENGINE
             (SET_MASK (pfifo_regs d NV_PFIFO_CACHE1_ENGINE) (push_bit (unat (4 * subchannel)) 3) (ht_engine entry));
           d2 = pfifo_reg_w d1 NV_PFIFO_CACHE1_PULL1
             (SET_MASK (pfifo_regs d1 NV_PFIFO_CACHE1_PULL1) NV_PFIFO_CACHE1_PULL1_ENGINE (ht_engine entry))
       in if can_fifo_access d2 then
            bind_res (pgraph_context_switch d2 (ht_channel_id entry)) (\<lambda>d3.
              if \<not> pg_waiting_for_context_switch (pgraph d3) then
                bind_res (pgraph_method env d3 subchannel 0 (ucast (ht_instance entry)) parameters
                            num_words_available max_lookahead_words inc) (\<lambda>(n, d4). Inr (int n, d4))
              else Inr (-1, d3))
          else Inr (-1, d2)))))"

definition puller_method ::
  "method_env \<Rightarrow> nv2a_state \<Rightarrow> u32 \<Rightarrow> u32 \<Rightarrow> u32 \<Rightarrow> (nat \<Rightarrow> u32) \<Rightarrow> nat \<Rightarrow> nat \<Rightarrow> bool \<Rightarrow> (int \<times> nv2a_state) res" where
  "puller_method env d subchannel method parameter parameters num_words_available max_lookahead_words inc =
    bind_res (if method \<ge> 0x180 \<and> method < 0x200 then
                bind_res (ramht_lookup d parameter) (\<lambda>entry.
                  check (ht_valid entry) (AssertFail ''entry.valid'') (Inr (ucast (ht_instance entry))))
              else Inr parameter) (\<lambda>parameter'.
      let engine = GET_MASK (pfifo_regs d NV_PFIFO_CACHE1_ENGINE) (push_bit (unat (4 * subchannel)) 3)
      in check (engine_of engine = ENGINE_GRAPHICS) (AssertFail ''engine == ENGINE_GRAPHICS'')
        (let d1 = pfifo_reg_w d NV_PFIFO_CACHE1_PULL1
               (SET_MASK (pfifo_regs d NV_PFIFO_CACHE1_PULL1) NV_PFIFO_CACHE1_PULL1_ENGINE engine)
         in if can_fifo_access d1 then
              bind_res (pgraph_method env d1 subchannel method parameter' parameters
                          num_words_available max_lookahead_words inc) (\<lambda>(n, d2). Inr (int n, d2))
            else Inr (-1, d1)))"

definition pfifo_run_puller ::
  "method_env \<Rightarrow> nv2a_state \<Rightarrow> u32 \<Rightarrow> u32 \<Rightarrow> (nat \<Rightarrow> u32) \<Rightarrow> nat \<Rightarrow> nat \<Rightarrow> (int \<times> nv2a_state) res" where
  "pfifo_run_puller env d0 method_entry parameter parameters num_words_available max_lookahead_words =
    (let (stall, d) = pfifo_puller_should_stall d0 in
     if stall then Inr (-1, d)
     else if GET_MASK (pfifo_regs d NV_PFIFO_CACHE1_PULL0) NV_PFIFO_CACHE1_PULL0_ACCESS = 0
        \<or> pfifo_regs d NV_PFIFO_CACHE1_STATUS AND NV_PFIFO_CACHE1_STATUS_LOW_MARK \<noteq> 0 then Inr (-1, d)
     else
       let method = method_entry AND 0x1FFC;
           subchannel = GET_MASK method_entry NV_PFIFO_CACHE1_METHOD_SUBCHANNEL;
           inc = (GET_MASK method_entry NV_PFIFO_CACHE1_METHOD_TYPE = 0)
       in bind_res
            (if method = 0 then
               puller_bind env d subchannel parameter parameters num_words_available max_lookahead_words inc
             else if method \<ge> 0x100 then
               puller_method env d subchannel method parameter parameters num_words_available max_lookahead_words inc
             else Inl (AssertFail ''Unrecognized pfifo puller method''))
            (\<lambda>(num_proc, d'). Inr (num_proc,
               if num_proc > 0 then pfifo_reg_w d' NV_PFIFO_CACHE1_STATUS
                 (pfifo_regs d' NV_PFIFO_CACHE1_STATUS OR NV_PFIFO_CACHE1_STATUS_LOW_MARK)
               else d')))"

section \<open>The pusher\<close>

definition pfifo_pusher_should_stall :: "nv2a_state \<Rightarrow> bool" where
  "pfifo_pusher_should_stall d \<longleftrightarrow> \<not> can_fifo_access d \<or> pg_waiting_for_nop (pgraph d)"

text \<open>How an iteration of the loop leaves: out of the loop, or on to the next word.\<close>

datatype 'a iter = Break 'a | Next 'a

definition dma_field :: "nv2a_state \<Rightarrow> u32 \<Rightarrow> u32" where
  "dma_field d m = GET_MASK (pfifo_regs d NV_PFIFO_CACHE1_DMA_STATE) m"

definition set_dma_field :: "nv2a_state \<Rightarrow> u32 \<Rightarrow> u32 \<Rightarrow> nv2a_state" where
  "set_dma_field d m v =
     pfifo_reg_w d NV_PFIFO_CACHE1_DMA_STATE (SET_MASK (pfifo_regs d NV_PFIFO_CACHE1_DMA_STATE) m v)"

definition set_methods :: "nv2a_state \<Rightarrow> u32 \<Rightarrow> u32 \<Rightarrow> nv2a_state" where
  "set_methods d word type =
    (let d1 = set_dma_field d NV_PFIFO_CACHE1_DMA_STATE_METHOD (drop_bit 2 (word AND 0x1fff));
         d2 = set_dma_field d1 NV_PFIFO_CACHE1_DMA_STATE_SUBCHANNEL (drop_bit 13 word AND 7);
         d3 = set_dma_field d2 NV_PFIFO_CACHE1_DMA_STATE_METHOD_COUNT (drop_bit 18 word AND 0x7ff);
         d4 = set_dma_field d3 NV_PFIFO_CACHE1_DMA_STATE_METHOD_TYPE type
     in pfifo_reg_w d4 NV_PFIFO_CACHE1_DMA_DCOUNT 0)"

text \<open>The end of an iteration: store GET, leave on an error.\<close>

definition pusher_next :: "nv2a_state \<Rightarrow> u32 \<Rightarrow> nv2a_state iter" where
  "pusher_next d dma_get_v =
    (let d' = pfifo_reg_w d NV_PFIFO_CACHE1_DMA_GET dma_get_v
     in if dma_field d' NV_PFIFO_CACHE1_DMA_STATE_ERROR \<noteq> 0 then Break d' else Next d')"

text \<open>The first word of a command; \<open>dma_get_v\<close> is already past it.\<close>

definition pusher_command :: "nv2a_state \<Rightarrow> u32 \<Rightarrow> u32 \<Rightarrow> nv2a_state iter res" where
  "pusher_command d0 word dma_get_v =
    (let subroutine = pfifo_regs d0 NV_PFIFO_CACHE1_DMA_SUBROUTINE;
         subroutine_state = GET_MASK subroutine NV_PFIFO_CACHE1_DMA_SUBROUTINE_STATE;
         d = pfifo_reg_w d0 NV_PFIFO_CACHE1_DMA_RSVD_SHADOW word
     in if word AND 0xe0000003 = 0x20000000 then
          Inr (pusher_next (pfifo_reg_w d NV_PFIFO_CACHE1_DMA_GET_JMP_SHADOW dma_get_v) (word AND 0x1fffffff))
        else if word AND 3 = 1 then
          Inr (pusher_next (pfifo_reg_w d NV_PFIFO_CACHE1_DMA_GET_JMP_SHADOW dma_get_v) (word AND 0xfffffffc))
        else if word AND 3 = 2 then
          (if subroutine_state \<noteq> 0 then
             Inr (Break (set_dma_field d NV_PFIFO_CACHE1_DMA_STATE_ERROR NV_PFIFO_CACHE1_DMA_STATE_ERROR_CALL))
           else
             Inr (pusher_next
               (pfifo_reg_w d NV_PFIFO_CACHE1_DMA_SUBROUTINE (SET_MASK dma_get_v NV_PFIFO_CACHE1_DMA_SUBROUTINE_STATE 1))
               (word AND 0xfffffffc)))
        else if word = 0x00020000 then
          (if subroutine_state = 0 then
             Inr (pusher_next
               (set_dma_field d NV_PFIFO_CACHE1_DMA_STATE_ERROR NV_PFIFO_CACHE1_DMA_STATE_ERROR_RETURN) dma_get_v)
           else
             Inr (pusher_next
               (pfifo_reg_w d NV_PFIFO_CACHE1_DMA_SUBROUTINE (SET_MASK subroutine NV_PFIFO_CACHE1_DMA_SUBROUTINE_STATE 0))
               (subroutine AND 0xfffffffc)))
        else if word AND 0xe0030003 = 0 then
          Inr (pusher_next (set_methods d word NV_PFIFO_CACHE1_DMA_STATE_METHOD_TYPE_INC) dma_get_v)
        else if word AND 0xe0030003 = 0x40000000 then
          Inr (pusher_next (set_methods d word NV_PFIFO_CACHE1_DMA_STATE_METHOD_TYPE_NON_INC) dma_get_v)
        else Inl (AssertFail ''Reserved pb command - invalid GPU command. Check logs for more info''))"

text \<open>A data word of the command in progress.\<close>

definition method_entry :: "nv2a_state \<Rightarrow> u32" where
  "method_entry d =
    SET_MASK
      (SET_MASK
        (SET_MASK 0 NV_PFIFO_CACHE1_METHOD_ADDRESS
          (drop_bit 2 (push_bit 2 (dma_field d NV_PFIFO_CACHE1_DMA_STATE_METHOD))))
        NV_PFIFO_CACHE1_METHOD_TYPE (dma_field d NV_PFIFO_CACHE1_DMA_STATE_METHOD_TYPE))
      NV_PFIFO_CACHE1_METHOD_SUBCHANNEL (dma_field d NV_PFIFO_CACHE1_DMA_STATE_SUBCHANNEL)"

text \<open>
  The fields of the command are read before the puller runs; the puller only writes the engine,
  pull and status registers, and its effect on the rest is the engine's.
\<close>

definition pusher_data ::
  "method_env \<Rightarrow> nv2a_state \<Rightarrow> u32 \<Rightarrow> u32 \<Rightarrow> (nat \<Rightarrow> u32) \<Rightarrow> nat \<Rightarrow> nv2a_state iter res" where
  "pusher_data env d0 word dma_get_v parameters num_words_available =
    (let method_type = dma_field d0 NV_PFIFO_CACHE1_DMA_STATE_METHOD_TYPE;
         method = push_bit 2 (dma_field d0 NV_PFIFO_CACHE1_DMA_STATE_METHOD);
         method_count = dma_field d0 NV_PFIFO_CACHE1_DMA_STATE_METHOD_COUNT;
         d1 = pfifo_reg_w d0 NV_PFIFO_CACHE1_DMA_DATA_SHADOW word
     in check (method AND 3 = 0) (AssertFail ''(method & 3) == 0'')
       (let d2 = pfifo_reg_w d1 NV_PFIFO_CACHE1_STATUS
                   (pfifo_regs d1 NV_PFIFO_CACHE1_STATUS AND NOT NV_PFIFO_CACHE1_STATUS_LOW_MARK)
        in bind_res (pfifo_run_puller env d2 (method_entry d0) word parameters
                       (min (unat method_count) num_words_available) num_words_available) (\<lambda>(n, d3).
             if n < 0 then Inr (Break d3)
             else
               let get = dma_get_v + word_of_int ((n - 1) * 4);
                   d4 = (if method_type = NV_PFIFO_CACHE1_DMA_STATE_METHOD_TYPE_INC
                         then set_dma_field d3 NV_PFIFO_CACHE1_DMA_STATE_METHOD
                                (word_of_int ((uint method + 4 * n) div 4))
                         else d3);
                   d5 = set_dma_field d4 NV_PFIFO_CACHE1_DMA_STATE_METHOD_COUNT
                          (word_of_int (uint method_count - min (uint method_count) n));
                   d6 = pfifo_reg_w d5 NV_PFIFO_CACHE1_DMA_DCOUNT
                          (pfifo_regs d5 NV_PFIFO_CACHE1_DMA_DCOUNT + word_of_int n)
               in Inr (pusher_next d6 get))))"

text \<open>One iteration: \<open>dma\<close> is the offset of the push buffer in video memory, \<open>dma_len\<close> its length.\<close>

definition pusher_step :: "method_env \<Rightarrow> hwaddr \<Rightarrow> hwaddr \<Rightarrow> nv2a_state \<Rightarrow> nv2a_state iter res" where
  "pusher_step env dma dma_len d =
    (let dma_get_v = pfifo_regs d NV_PFIFO_CACHE1_DMA_GET;
         dma_put_v = pfifo_regs d NV_PFIFO_CACHE1_DMA_PUT;
         a = dma + ucast dma_get_v
     in if pfifo_pusher_should_stall d \<or> dma_get_v = dma_put_v then Inr (Break d)
        else if ucast dma_get_v \<ge> dma_len then Inl (AssertFail ''Dma value is out of range in PFIFO pusher'')
        else check ((dma_put_v - dma_get_v) mod 4 = 0) (AssertFail ''num_words_available % 4 == 0'')
          (check (a + 4 \<le> vram_size d) OutOfBounds
            (let num_words_available = unat ((dma_put_v - dma_get_v) div 4);
                 word = ldl_le_p (vram d) a
             in if dma_field d NV_PFIFO_CACHE1_DMA_STATE_METHOD_COUNT \<noteq> 0
                then pusher_data env d word (dma_get_v + 4)
                       (\<lambda>i. ldl_le_p (vram d) (a + 4 * word_of_nat i)) num_words_available
                else pusher_command d word (dma_get_v + 4))))"

partial_function (option) pusher_loop ::
  "method_env \<Rightarrow> hwaddr \<Rightarrow> hwaddr \<Rightarrow> nv2a_state \<Rightarrow> nv2a_state res option" where
  "pusher_loop env dma dma_len d =
    (case pusher_step env dma dma_len d of
       Inl f \<Rightarrow> Some (Inl f)
     | Inr (Break d') \<Rightarrow> Some (Inr d')
     | Inr (Next d') \<Rightarrow> pusher_loop env dma dma_len d')"

definition pusher_enabled :: "nv2a_state \<Rightarrow> bool" where
  "pusher_enabled d \<longleftrightarrow>
     GET_MASK (pfifo_regs d NV_PFIFO_CACHE1_PUSH0) NV_PFIFO_CACHE1_PUSH0_ACCESS \<noteq> 0 \<and>
     GET_MASK (pfifo_regs d NV_PFIFO_CACHE1_DMA_PUSH) NV_PFIFO_CACHE1_DMA_PUSH_ACCESS \<noteq> 0 \<and>
     GET_MASK (pfifo_regs d NV_PFIFO_CACHE1_DMA_PUSH) NV_PFIFO_CACHE1_DMA_PUSH_STATUS = 0"

definition pusher_mapping :: "nv2a_state \<Rightarrow> (hwaddr \<times> hwaddr) res" where
  "pusher_mapping d =
    (let push1 = pfifo_regs d NV_PFIFO_CACHE1_PUSH1;
         channel_id = GET_MASK push1 NV_PFIFO_CACHE1_PUSH1_CHID;
         dma_instance = ucast (push_bit 4
           (GET_MASK (pfifo_regs d NV_PFIFO_CACHE1_DMA_INSTANCE) NV_PFIFO_CACHE1_DMA_INSTANCE_ADDRESS))
     in check (pfifo_regs d NV_PFIFO_MODE AND push_bit (unat channel_id) 1 \<noteq> 0)
          (AssertFail ''channel_modes & (1 << channel_id)'')
        (check (GET_MASK push1 NV_PFIFO_CACHE1_PUSH1_MODE = NV_PFIFO_CACHE1_PUSH1_MODE_DMA)
          (AssertFail ''GET_MASK(*push1, NV_PFIFO_CACHE1_PUSH1_MODE) == NV_PFIFO_CACHE1_PUSH1_MODE_DMA'')
        (check (dma_field d NV_PFIFO_CACHE1_DMA_STATE_ERROR = NV_PFIFO_CACHE1_DMA_STATE_ERROR_NONE)
          (AssertFail ''GET_MASK(*dma_state, NV_PFIFO_CACHE1_DMA_STATE_ERROR) == NV_PFIFO_CACHE1_DMA_STATE_ERROR_NONE'')
          (nv_dma_map d dma_instance))))"

definition pfifo_run_pusher :: "method_env \<Rightarrow> nv2a_state \<Rightarrow> nv2a_state res option" where
  "pfifo_run_pusher env d =
    (if \<not> pusher_enabled d then Some (Inr d)
     else case pusher_mapping d of
       Inl f \<Rightarrow> Some (Inl f)
     | Inr (dma, dma_len) \<Rightarrow>
         map_option (\<lambda>r. bind_res r (\<lambda>d'.
             if dma_field d' NV_PFIFO_CACHE1_DMA_STATE_ERROR \<noteq> 0
             then Inl (AssertFail ''Error reported in PFIFO dma state - check logs for more info'')
             else Inr d'))
           (pusher_loop env dma dma_len d))"

end
