(* ===== verification/PFIFO_Spec.thy ===== *)
theory PFIFO_Spec
  imports PFIFO
begin

unbundle bit_operations_syntax

text \<open>
  What the FIFO promises.  The pusher's decoding refines an abstract push buffer machine; the
  puller and the engine leave the pusher's registers alone, so a run of methods is accounted for
  word by word; a push buffer without jumps is always consumed; and the object hash is the
  exclusive or of the digits of the handle.
\<close>

section \<open>Register lemmas\<close>

lemma pfifo_reg_w_simps [simp]:
  "pfifo_regs (pfifo_reg_w d r v) r' = (if r' = r then v else pfifo_regs d r')"
  "pgraph (pfifo_reg_w d r v) = pgraph d"
  "vram (pfifo_reg_w d r v) = vram d"
  "vram_size (pfifo_reg_w d r v) = vram_size d"
  "ramin (pfifo_reg_w d r v) = ramin d"
  by (simp_all add: pfifo_reg_w_def)

lemma dma_field_reg_w [simp]:
  "r \<noteq> NV_PFIFO_CACHE1_DMA_STATE \<Longrightarrow> dma_field (pfifo_reg_w d r v) m = dma_field d m"
  by (simp add: dma_field_def)

lemma set_dma_field_regs [simp]:
  "r \<noteq> NV_PFIFO_CACHE1_DMA_STATE \<Longrightarrow> pfifo_regs (set_dma_field d m v) r = pfifo_regs d r"
  by (simp add: set_dma_field_def)

lemma set_dma_field_frame [simp]:
  "pgraph (set_dma_field d m v) = pgraph d" "vram (set_dma_field d m v) = vram d"
  "vram_size (set_dma_field d m v) = vram_size d" "ramin (set_dma_field d m v) = ramin d"
  by (simp_all add: set_dma_field_def)

lemma dma_field_set_same:
  "0 < n \<Longrightarrow> lo + n \<le> 32 \<Longrightarrow> m = field_mask lo n \<Longrightarrow> dma_field (set_dma_field d m v) m = take_bit n v"
  by (simp add: dma_field_def set_dma_field_def GET_SET_MASK_field)

lemma dma_field_set_other:
  "m AND m' = 0 \<Longrightarrow> dma_field (set_dma_field d m v) m' = dma_field d m'"
  by (simp add: dma_field_def set_dma_field_def GET_SET_MASK_other)

lemma dma_fields_set [simp]:
  "dma_field (set_dma_field d NV_PFIFO_CACHE1_DMA_STATE_METHOD v) NV_PFIFO_CACHE1_DMA_STATE_METHOD = take_bit 11 v"
  "dma_field (set_dma_field d NV_PFIFO_CACHE1_DMA_STATE_SUBCHANNEL v) NV_PFIFO_CACHE1_DMA_STATE_SUBCHANNEL = take_bit 3 v"
  "dma_field (set_dma_field d NV_PFIFO_CACHE1_DMA_STATE_METHOD_COUNT v) NV_PFIFO_CACHE1_DMA_STATE_METHOD_COUNT = take_bit 11 v"
  "dma_field (set_dma_field d NV_PFIFO_CACHE1_DMA_STATE_METHOD_TYPE v) NV_PFIFO_CACHE1_DMA_STATE_METHOD_TYPE = take_bit 1 v"
  "dma_field (set_dma_field d NV_PFIFO_CACHE1_DMA_STATE_ERROR v) NV_PFIFO_CACHE1_DMA_STATE_ERROR = take_bit 3 v"
  by (rule dma_field_set_same; simp add: nv_field)+

lemma dma_fields_frame [simp]:
  "dma_field (set_dma_field d NV_PFIFO_CACHE1_DMA_STATE_METHOD v) NV_PFIFO_CACHE1_DMA_STATE_SUBCHANNEL = dma_field d NV_PFIFO_CACHE1_DMA_STATE_SUBCHANNEL"
  "dma_field (set_dma_field d NV_PFIFO_CACHE1_DMA_STATE_METHOD v) NV_PFIFO_CACHE1_DMA_STATE_METHOD_COUNT = dma_field d NV_PFIFO_CACHE1_DMA_STATE_METHOD_COUNT"
  "dma_field (set_dma_field d NV_PFIFO_CACHE1_DMA_STATE_METHOD v) NV_PFIFO_CACHE1_DMA_STATE_METHOD_TYPE = dma_field d NV_PFIFO_CACHE1_DMA_STATE_METHOD_TYPE"
  "dma_field (set_dma_field d NV_PFIFO_CACHE1_DMA_STATE_METHOD v) NV_PFIFO_CACHE1_DMA_STATE_ERROR = dma_field d NV_PFIFO_CACHE1_DMA_STATE_ERROR"
  "dma_field (set_dma_field d NV_PFIFO_CACHE1_DMA_STATE_SUBCHANNEL v) NV_PFIFO_CACHE1_DMA_STATE_METHOD = dma_field d NV_PFIFO_CACHE1_DMA_STATE_METHOD"
  "dma_field (set_dma_field d NV_PFIFO_CACHE1_DMA_STATE_SUBCHANNEL v) NV_PFIFO_CACHE1_DMA_STATE_METHOD_COUNT = dma_field d NV_PFIFO_CACHE1_DMA_STATE_METHOD_COUNT"
  "dma_field (set_dma_field d NV_PFIFO_CACHE1_DMA_STATE_SUBCHANNEL v) NV_PFIFO_CACHE1_DMA_STATE_METHOD_TYPE = dma_field d NV_PFIFO_CACHE1_DMA_STATE_METHOD_TYPE"
  "dma_field (set_dma_field d NV_PFIFO_CACHE1_DMA_STATE_SUBCHANNEL v) NV_PFIFO_CACHE1_DMA_STATE_ERROR = dma_field d NV_PFIFO_CACHE1_DMA_STATE_ERROR"
  "dma_field (set_dma_field d NV_PFIFO_CACHE1_DMA_STATE_METHOD_COUNT v) NV_PFIFO_CACHE1_DMA_STATE_METHOD = dma_field d NV_PFIFO_CACHE1_DMA_STATE_METHOD"
  "dma_field (set_dma_field d NV_PFIFO_CACHE1_DMA_STATE_METHOD_COUNT v) NV_PFIFO_CACHE1_DMA_STATE_SUBCHANNEL = dma_field d NV_PFIFO_CACHE1_DMA_STATE_SUBCHANNEL"
  "dma_field (set_dma_field d NV_PFIFO_CACHE1_DMA_STATE_METHOD_COUNT v) NV_PFIFO_CACHE1_DMA_STATE_METHOD_TYPE = dma_field d NV_PFIFO_CACHE1_DMA_STATE_METHOD_TYPE"
  "dma_field (set_dma_field d NV_PFIFO_CACHE1_DMA_STATE_METHOD_COUNT v) NV_PFIFO_CACHE1_DMA_STATE_ERROR = dma_field d NV_PFIFO_CACHE1_DMA_STATE_ERROR"
  "dma_field (set_dma_field d NV_PFIFO_CACHE1_DMA_STATE_METHOD_TYPE v) NV_PFIFO_CACHE1_DMA_STATE_METHOD = dma_field d NV_PFIFO_CACHE1_DMA_STATE_METHOD"
  "dma_field (set_dma_field d NV_PFIFO_CACHE1_DMA_STATE_METHOD_TYPE v) NV_PFIFO_CACHE1_DMA_STATE_SUBCHANNEL = dma_field d NV_PFIFO_CACHE1_DMA_STATE_SUBCHANNEL"
  "dma_field (set_dma_field d NV_PFIFO_CACHE1_DMA_STATE_METHOD_TYPE v) NV_PFIFO_CACHE1_DMA_STATE_METHOD_COUNT = dma_field d NV_PFIFO_CACHE1_DMA_STATE_METHOD_COUNT"
  "dma_field (set_dma_field d NV_PFIFO_CACHE1_DMA_STATE_METHOD_TYPE v) NV_PFIFO_CACHE1_DMA_STATE_ERROR = dma_field d NV_PFIFO_CACHE1_DMA_STATE_ERROR"
  "dma_field (set_dma_field d NV_PFIFO_CACHE1_DMA_STATE_ERROR v) NV_PFIFO_CACHE1_DMA_STATE_METHOD = dma_field d NV_PFIFO_CACHE1_DMA_STATE_METHOD"
  "dma_field (set_dma_field d NV_PFIFO_CACHE1_DMA_STATE_ERROR v) NV_PFIFO_CACHE1_DMA_STATE_SUBCHANNEL = dma_field d NV_PFIFO_CACHE1_DMA_STATE_SUBCHANNEL"
  "dma_field (set_dma_field d NV_PFIFO_CACHE1_DMA_STATE_ERROR v) NV_PFIFO_CACHE1_DMA_STATE_METHOD_COUNT = dma_field d NV_PFIFO_CACHE1_DMA_STATE_METHOD_COUNT"
  "dma_field (set_dma_field d NV_PFIFO_CACHE1_DMA_STATE_ERROR v) NV_PFIFO_CACHE1_DMA_STATE_METHOD_TYPE = dma_field d NV_PFIFO_CACHE1_DMA_STATE_METHOD_TYPE"
  by (simp_all add: dma_field_set_other nv_mask)

section \<open>The abstract push buffer machine\<close>

text \<open>
  What a push buffer means: a program counter, at most one return address, and the method run
  the current command is in.  A word at a command position is a jump, a call, a return or the
  header of a run of methods; a nested call, a return from nowhere and any other word are errors.
\<close>

datatype pb_command = PB_Jump u32 | PB_Call u32 | PB_Return | PB_Methods bool u32 u32 u32 | PB_Reserved

definition pb_decode :: "u32 \<Rightarrow> pb_command" where
  "pb_decode w =
    (if take_bit 2 w = 0 \<and> drop_bit 29 w = 1 then PB_Jump (take_bit 29 w)
     else if take_bit 2 w = 1 then PB_Jump (w AND NOT (mask 2))
     else if take_bit 2 w = 2 then PB_Call (w AND NOT (mask 2))
     else if w = 0x20000 then PB_Return
     else if take_bit 2 w = 0 \<and> take_bit 2 (drop_bit 16 w) = 0 \<and> (drop_bit 29 w = 0 \<or> drop_bit 29 w = 2)
     then PB_Methods (drop_bit 29 w = 0) (take_bit 11 (drop_bit 2 w)) (take_bit 3 (drop_bit 13 w))
            (take_bit 11 (drop_bit 18 w))
     else PB_Reserved)"

record pb_machine =
  pb_pc :: u32
  pb_return :: "u32 option"
  pb_inc :: bool
  pb_method :: u32
  pb_subchannel :: u32
  pb_count :: u32

fun pb_step :: "pb_machine \<Rightarrow> pb_command \<Rightarrow> pb_machine option" where
  "pb_step s (PB_Jump t) = Some (s\<lparr>pb_pc := t\<rparr>)"
| "pb_step s (PB_Call t) =
     (case pb_return s of None \<Rightarrow> Some (s\<lparr>pb_pc := t, pb_return := Some (pb_pc s + 4)\<rparr>) | Some _ \<Rightarrow> None)"
| "pb_step s PB_Return =
     (case pb_return s of None \<Rightarrow> None | Some r \<Rightarrow> Some (s\<lparr>pb_pc := r, pb_return := None\<rparr>))"
| "pb_step s (PB_Methods i m c n) =
     Some (s\<lparr>pb_pc := pb_pc s + 4, pb_inc := i, pb_method := m, pb_subchannel := c, pb_count := n\<rparr>)"
| "pb_step s PB_Reserved = None"

definition pb_abs :: "nv2a_state \<Rightarrow> pb_machine" where
  "pb_abs d =
     \<lparr>pb_pc = pfifo_regs d NV_PFIFO_CACHE1_DMA_GET,
      pb_return = (let s = pfifo_regs d NV_PFIFO_CACHE1_DMA_SUBROUTINE
                   in if bit s 0 then Some (s AND NOT (mask 2)) else None),
      pb_inc = (dma_field d NV_PFIFO_CACHE1_DMA_STATE_METHOD_TYPE = 0),
      pb_method = dma_field d NV_PFIFO_CACHE1_DMA_STATE_METHOD,
      pb_subchannel = dma_field d NV_PFIFO_CACHE1_DMA_STATE_SUBCHANNEL,
      pb_count = dma_field d NV_PFIFO_CACHE1_DMA_STATE_METHOD_COUNT\<rparr>"

text \<open>The masks of the code, as tests of fields.\<close>

lemma and_consts:
  fixes w :: u32
  shows "w AND 3 = take_bit 2 w" "w AND 0x1fffffff = take_bit 29 w" "w AND 0xfffffffc = w AND NOT (mask 2)"
   "w AND 7 = take_bit 3 w" "w AND 0x7ff = take_bit 11 w" "w AND 0x1fff = take_bit 13 w"
proof -
  have "NOT (mask 2) = (0xfffffffc :: u32)" by (simp add: mask_numeral)
  then show "w AND 0xfffffffc = w AND NOT (mask 2)" by simp
qed (simp_all add: take_bit_eq_mask mask_numeral)

lemma drop29: "take_bit 3 (drop_bit 29 w) = drop_bit 29 (w :: u32)"
  by (rule bit_word_eqI) (auto simp: bit_simps dest: bit_imp_le_length)

lemma field_tests:
  fixes w :: u32
  shows "w AND 0xe0000000 = 0 \<longleftrightarrow> drop_bit 29 w = 0" "w AND 0xe0000000 = 0x20000000 \<longleftrightarrow> drop_bit 29 w = 1"
    "w AND 0xe0000000 = 0x40000000 \<longleftrightarrow> drop_bit 29 w = 2" "w AND 0x30000 = 0 \<longleftrightarrow> take_bit 2 (drop_bit 16 w) = 0"
proof -
  have m: "push_bit 29 (mask 3) = (0xe0000000 :: u32)" "push_bit 16 (mask 2) = (0x30000 :: u32)"
    "push_bit 29 0 = (0 :: u32)" "push_bit 29 1 = (0x20000000 :: u32)"
    "push_bit 29 2 = (0x40000000 :: u32)" "push_bit 16 0 = (0 :: u32)"
    "take_bit 3 0 = (0 :: u32)" "take_bit 3 1 = (1 :: u32)" "take_bit 3 2 = (2 :: u32)" "take_bit 2 0 = (0 :: u32)"
    by (simp_all add: mask_numeral)
  have k: "29 + 3 \<le> (32 :: nat)" "16 + 2 \<le> (32 :: nat)" by simp_all
  show "w AND 0xe0000000 = 0 \<longleftrightarrow> drop_bit 29 w = 0" "w AND 0xe0000000 = 0x20000000 \<longleftrightarrow> drop_bit 29 w = 1"
    "w AND 0xe0000000 = 0x40000000 \<longleftrightarrow> drop_bit 29 w = 2" "w AND 0x30000 = 0 \<longleftrightarrow> take_bit 2 (drop_bit 16 w) = 0"
    using and_field_test [OF k(1), of w 0] and_field_test [OF k(1), of w 1] and_field_test [OF k(1), of w 2]
      and_field_test [OF k(2), of w 0]
    by (simp_all only: m drop29)
qed

lemma old_jump_test: "(w :: u32) AND 0xe0000003 = 0x20000000 \<longleftrightarrow> take_bit 2 w = 0 \<and> drop_bit 29 w = 1"
proof -
  have c: "(3 OR 0xe0000000 :: u32) = 0xe0000003" "(0x20000000 :: u32) AND NOT (0xe0000003) = 0"
    "(0x20000000 :: u32) AND 3 = 0" "(0x20000000 :: u32) AND 0xe0000000 = 0x20000000" by simp_all
  show ?thesis
    using and_or_test [of "0x20000000" 3 "0xe0000000" w, unfolded c]
    by (simp only: field_tests and_consts(1))
qed

lemma methods_test:
  fixes w :: u32
  shows "w AND 0xe0030003 = 0 \<longleftrightarrow> take_bit 2 w = 0 \<and> take_bit 2 (drop_bit 16 w) = 0 \<and> drop_bit 29 w = 0"
    "w AND 0xe0030003 = 0x40000000 \<longleftrightarrow> take_bit 2 w = 0 \<and> take_bit 2 (drop_bit 16 w) = 0 \<and> drop_bit 29 w = 2"
proof -
  have c: "(3 OR 0xe0030000 :: u32) = 0xe0030003" "(0x30000 OR 0xe0000000 :: u32) = 0xe0030000"
    "(0x40000000 :: u32) AND 3 = 0" "(0x40000000 :: u32) AND 0xe0030000 = 0x40000000"
    "(0x40000000 :: u32) AND 0x30000 = 0" "(0x40000000 :: u32) AND 0xe0000000 = 0x40000000"
    "(0x40000000 :: u32) AND NOT 0xe0030003 = 0" "(0x40000000 :: u32) AND NOT 0xe0030000 = 0"
    "\<And>x. (0 :: u32) AND x = 0" by simp_all
  show "w AND 0xe0030003 = 0 \<longleftrightarrow> take_bit 2 w = 0 \<and> take_bit 2 (drop_bit 16 w) = 0 \<and> drop_bit 29 w = 0"
    "w AND 0xe0030003 = 0x40000000 \<longleftrightarrow> take_bit 2 w = 0 \<and> take_bit 2 (drop_bit 16 w) = 0 \<and> drop_bit 29 w = 2"
    using and_or_test [of 0 3 "0x30000 OR 0xe0000000" w, unfolded c] and_or_test [of 0 "0x30000" "0xe0000000" w, unfolded c]
      and_or_test [of "0x40000000" 3 "0x30000 OR 0xe0000000" w, unfolded c]
      and_or_test [of "0x40000000" "0x30000" "0xe0000000" w, unfolded c]
    by (simp_all only: field_tests and_consts(1) c)
qed

lemma subroutine_fields:
  "GET_MASK w NV_PFIFO_CACHE1_DMA_SUBROUTINE_STATE \<noteq> 0 \<longleftrightarrow> bit w 0"
  "bit (SET_MASK w NV_PFIFO_CACHE1_DMA_SUBROUTINE_STATE 1) 0"
  "\<not> bit (SET_MASK w NV_PFIFO_CACHE1_DMA_SUBROUTINE_STATE 0) 0"
  "SET_MASK w NV_PFIFO_CACHE1_DMA_SUBROUTINE_STATE v AND NOT (mask 2) = w AND NOT (mask 2)"
proof -
  have m: "NV_PFIFO_CACHE1_DMA_SUBROUTINE_STATE = field_mask 0 1" by (simp add: nv_field)
  show "GET_MASK w NV_PFIFO_CACHE1_DMA_SUBROUTINE_STATE \<noteq> 0 \<longleftrightarrow> bit w 0"
    by (simp add: m GET_MASK_field bit_0 odd_iff_mod_2_eq_one take_bit_Suc)
  show "bit (SET_MASK w NV_PFIFO_CACHE1_DMA_SUBROUTINE_STATE 1) 0"
    "\<not> bit (SET_MASK w NV_PFIFO_CACHE1_DMA_SUBROUTINE_STATE 0) 0"
    by (simp_all add: m SET_MASK_def bit_or_iff bit_and_iff bit_not_iff bit_field_mask)
  show "SET_MASK w NV_PFIFO_CACHE1_DMA_SUBROUTINE_STATE v AND NOT (mask 2) = w AND NOT (mask 2)"
    by (rule bit_word_eqI) (auto simp: m SET_MASK_def bit_simps field_mask_def)
qed

lemma pusher_next_ok:
  "dma_field d NV_PFIFO_CACHE1_DMA_STATE_ERROR = 0 \<Longrightarrow>
   pusher_next d g = Next (pfifo_reg_w d NV_PFIFO_CACHE1_DMA_GET g)"
  by (simp add: pusher_next_def Let_def nv_addr)

lemma set_methods_simps:
  "dma_field (set_methods d w t) NV_PFIFO_CACHE1_DMA_STATE_ERROR = dma_field d NV_PFIFO_CACHE1_DMA_STATE_ERROR"
  "dma_field (set_methods d w t) NV_PFIFO_CACHE1_DMA_STATE_METHOD = take_bit 11 (drop_bit 2 w)"
  "dma_field (set_methods d w t) NV_PFIFO_CACHE1_DMA_STATE_SUBCHANNEL = take_bit 3 (drop_bit 13 w)"
  "dma_field (set_methods d w t) NV_PFIFO_CACHE1_DMA_STATE_METHOD_COUNT = take_bit 11 (drop_bit 18 w)"
  "dma_field (set_methods d w t) NV_PFIFO_CACHE1_DMA_STATE_METHOD_TYPE = take_bit 1 t"
  "r \<noteq> NV_PFIFO_CACHE1_DMA_STATE \<Longrightarrow> r \<noteq> NV_PFIFO_CACHE1_DMA_DCOUNT \<Longrightarrow>
     pfifo_regs (set_methods d w t) r = pfifo_regs d r"
proof -
  have ne: "NV_PFIFO_CACHE1_DMA_DCOUNT \<noteq> NV_PFIFO_CACHE1_DMA_STATE" by (simp add: nv_addr)
  have m: "take_bit 11 (drop_bit 2 (take_bit 13 w)) = take_bit 11 (drop_bit 2 w)"
    by (rule bit_word_eqI) (auto simp: bit_simps)
  show "dma_field (set_methods d w t) NV_PFIFO_CACHE1_DMA_STATE_ERROR = dma_field d NV_PFIFO_CACHE1_DMA_STATE_ERROR"
    "dma_field (set_methods d w t) NV_PFIFO_CACHE1_DMA_STATE_METHOD = take_bit 11 (drop_bit 2 w)"
    "dma_field (set_methods d w t) NV_PFIFO_CACHE1_DMA_STATE_SUBCHANNEL = take_bit 3 (drop_bit 13 w)"
    "dma_field (set_methods d w t) NV_PFIFO_CACHE1_DMA_STATE_METHOD_COUNT = take_bit 11 (drop_bit 18 w)"
    "dma_field (set_methods d w t) NV_PFIFO_CACHE1_DMA_STATE_METHOD_TYPE = take_bit 1 t"
    unfolding set_methods_def Let_def and_consts
    by (simp_all only: dma_field_reg_w [OF ne] dma_fields_set dma_fields_frame take_bit_take_bit min.idem m)
  show "r \<noteq> NV_PFIFO_CACHE1_DMA_STATE \<Longrightarrow> r \<noteq> NV_PFIFO_CACHE1_DMA_DCOUNT \<Longrightarrow>
     pfifo_regs (set_methods d w t) r = pfifo_regs d r"
    by (simp add: set_methods_def Let_def)
qed

lemma pusher_command_cases:
  assumes "dma_field d NV_PFIFO_CACHE1_DMA_STATE_ERROR = 0"
  shows "pusher_command d w g =
    (let s = pfifo_regs d NV_PFIFO_CACHE1_DMA_SUBROUTINE; 
         e = pfifo_reg_w d NV_PFIFO_CACHE1_DMA_RSVD_SHADOW w;
         jump = (\<lambda>t. pfifo_reg_w (pfifo_reg_w e NV_PFIFO_CACHE1_DMA_GET_JMP_SHADOW g) NV_PFIFO_CACHE1_DMA_GET t);
         sub = (\<lambda>v t. pfifo_reg_w (pfifo_reg_w e NV_PFIFO_CACHE1_DMA_SUBROUTINE v) NV_PFIFO_CACHE1_DMA_GET t);
         meth = (\<lambda>ty. pfifo_reg_w (set_methods e w ty) NV_PFIFO_CACHE1_DMA_GET g)
     in case pb_decode w of
          PB_Jump t \<Rightarrow> Inr (Next (jump t))
        | PB_Call t \<Rightarrow> if bit s 0 then Inr (Break (set_dma_field e NV_PFIFO_CACHE1_DMA_STATE_ERROR NV_PFIFO_CACHE1_DMA_STATE_ERROR_CALL))
             else Inr (Next (sub (SET_MASK g NV_PFIFO_CACHE1_DMA_SUBROUTINE_STATE 1) t))
        | PB_Return \<Rightarrow> if bit s 0 then Inr (Next (sub (SET_MASK s NV_PFIFO_CACHE1_DMA_SUBROUTINE_STATE 0) (s AND NOT (mask 2))))
             else Inr (pusher_next (set_dma_field e NV_PFIFO_CACHE1_DMA_STATE_ERROR NV_PFIFO_CACHE1_DMA_STATE_ERROR_RETURN) g)
        | PB_Methods i _ _ _ \<Rightarrow> Inr (Next (meth (if i then NV_PFIFO_CACHE1_DMA_STATE_METHOD_TYPE_INC else NV_PFIFO_CACHE1_DMA_STATE_METHOD_TYPE_NON_INC)))
        | PB_Reserved \<Rightarrow> Inl (AssertFail ''Reserved pb command - invalid GPU command. Check logs for more info''))"
proof -
  have ne: "NV_PFIFO_CACHE1_DMA_RSVD_SHADOW \<noteq> NV_PFIFO_CACHE1_DMA_STATE" "NV_PFIFO_CACHE1_DMA_GET_JMP_SHADOW \<noteq> NV_PFIFO_CACHE1_DMA_STATE"
     "NV_PFIFO_CACHE1_DMA_SUBROUTINE \<noteq> NV_PFIFO_CACHE1_DMA_STATE"
     by (simp_all add: nv_addr)
  have sub: "(GET_MASK s NV_PFIFO_CACHE1_DMA_SUBROUTINE_STATE = 0) = (\<not> bit s 0)" for s
    using subroutine_fields(1) [of s] by blast
  show ?thesis
    unfolding pusher_command_def Let_def old_jump_test methods_test and_consts sub pb_decode_def
    by (simp add: pusher_next_ok assms ne set_methods_simps) blast
qed

lemma aligned_plus4: "(g :: u32) AND 3 = 0 \<Longrightarrow> (g + 4) AND NOT (mask 2) = g + 4"
proof (rule and_not_mask_id)
  assume "g AND 3 = 0"
  then have "take_bit 2 g = 0" by (simp only: and_consts)
  then have "unat g mod 4 = 0" using unat_take_bit_mod [of 2 g] by simp
  then have "unat (g + 4) mod 4 = 0" by (simp add: unat_word_ariths mod_mod_cancel)
  then have "unat (take_bit 2 (g + 4)) = 0" by (simp only: unat_take_bit_mod) simp
  then show "take_bit 2 (g + 4) = 0" by (simp only: unat_eq_zero)
qed

text \<open>C1: A command word of the push buffer does to the FIFO registers what it means to the
  abstract machine: from a state with no error and an aligned GET, the pusher goes on exactly when
  the machine steps, and the resulting registers abstract to the machine's next state; on a nested
  call, a return without a call and a reserved word it does not go on.\<close>

theorem pusher_command_refines:
  assumes err: "dma_field d NV_PFIFO_CACHE1_DMA_STATE_ERROR = 0"
    and al: "pfifo_regs d NV_PFIFO_CACHE1_DMA_GET AND 3 = 0"
  shows "case pb_step (pb_abs d) (pb_decode w) of
      Some s \<Rightarrow> \<exists>d'. pusher_command d w (pfifo_regs d NV_PFIFO_CACHE1_DMA_GET + 4) = Inr (Next d') \<and> pb_abs d' = s
    | None \<Rightarrow> (\<forall>d'. pusher_command d w (pfifo_regs d NV_PFIFO_CACHE1_DMA_GET + 4) \<noteq> Inr (Next d'))"
proof (cases "pb_decode w")
  case (PB_Jump t)
  then show ?thesis
    by (simp add: pusher_command_cases [OF err] Let_def pb_abs_def nv_addr)
next
  case (PB_Call t)
  then show ?thesis
    by (simp add: pusher_command_cases [OF err] Let_def pb_abs_def nv_addr subroutine_fields aligned_plus4 [OF al, unfolded nv_addr])
next
  case PB_Return
  then show ?thesis
    by (simp add: pusher_command_cases [OF err] Let_def pb_abs_def nv_addr subroutine_fields pusher_next_def nv_val)
next
  case (PB_Methods i m c n)
  then have "m = take_bit 11 (drop_bit 2 w)" "c = take_bit 3 (drop_bit 13 w)" "n = take_bit 11 (drop_bit 18 w)"
    by (auto simp: pb_decode_def split: if_splits)
  then show ?thesis
    using PB_Methods by (simp add: pusher_command_cases [OF err] Let_def pb_abs_def nv_addr set_methods_simps nv_val)
next
  case PB_Reserved
  then show ?thesis
    by (simp add: pusher_command_cases [OF err] Let_def)
qed

theorem pusher_command_refines_witness:
  "\<exists>d'. pusher_command nv2a_state_zero 0x40100 4 = Inr (Next d') \<and>
     pb_abs d' = \<lparr>pb_pc = 4, pb_return = None, pb_inc = True, pb_method = 0x40, pb_subchannel = 0, pb_count = 1\<rparr>"
proof -
  have d: "pb_decode 0x40100 = PB_Methods True 0x40 0 1" by (simp add: pb_decode_def)
  have a: "pb_abs nv2a_state_zero = \<lparr>pb_pc = 0, pb_return = None, pb_inc = True, pb_method = 0, pb_subchannel = 0, pb_count = 0\<rparr>"
    by (simp add: pb_abs_def dma_field_def)
  show ?thesis
    using pusher_command_refines [of nv2a_state_zero "0x40100"]
    by (simp add: d a dma_field_def)
qed

section \<open>Calls and returns\<close>

text \<open>C8: A call and its return round trip: from an aligned GET outside a subroutine, a call word goes
  to its target, and whenever the return word is decoded later with the subroutine register
  untouched, GET is the word after the call and no subroutine is active.\<close>

theorem call_return:
  assumes "dma_field d NV_PFIFO_CACHE1_DMA_STATE_ERROR = 0" "pfifo_regs d NV_PFIFO_CACHE1_DMA_GET AND 3 = 0"
    and "pb_return (pb_abs d) = None" "pb_decode w = PB_Call t"
  shows "\<exists>d1. pusher_command d w (pfifo_regs d NV_PFIFO_CACHE1_DMA_GET + 4) = Inr (Next d1) \<and>
     pfifo_regs d1 NV_PFIFO_CACHE1_DMA_GET = t \<and>
     (\<forall>d2 g. dma_field d2 NV_PFIFO_CACHE1_DMA_STATE_ERROR = 0 \<longrightarrow>
        pfifo_regs d2 NV_PFIFO_CACHE1_DMA_SUBROUTINE = pfifo_regs d1 NV_PFIFO_CACHE1_DMA_SUBROUTINE \<longrightarrow>
        (\<exists>d3. pusher_command d2 0x20000 g = Inr (Next d3) \<and>
           pfifo_regs d3 NV_PFIFO_CACHE1_DMA_GET = pfifo_regs d NV_PFIFO_CACHE1_DMA_GET + 4 \<and>
           pb_return (pb_abs d3) = None))"
proof -
  let ?g = "pfifo_regs d NV_PFIFO_CACHE1_DMA_GET + 4"
  have ret: "pb_decode 0x20000 = PB_Return" by (simp add: pb_decode_def)
  have nb: "\<not> bit (pfifo_regs d NV_PFIFO_CACHE1_DMA_SUBROUTINE) 0"
    using assms(3) by (simp add: pb_abs_def Let_def split: if_splits)
  obtain d1 where d1: "pusher_command d w ?g = Inr (Next d1)" "pfifo_regs d1 NV_PFIFO_CACHE1_DMA_GET = t"
    "pfifo_regs d1 NV_PFIFO_CACHE1_DMA_SUBROUTINE = SET_MASK ?g NV_PFIFO_CACHE1_DMA_SUBROUTINE_STATE 1"
    using nb by (simp add: pusher_command_cases [OF assms(1)] assms(4) Let_def nv_addr)
  have "\<exists>d3. pusher_command d2 0x20000 g = Inr (Next d3) \<and>
           pfifo_regs d3 NV_PFIFO_CACHE1_DMA_GET = ?g \<and> pb_return (pb_abs d3) = None"
    if e: "dma_field d2 NV_PFIFO_CACHE1_DMA_STATE_ERROR = 0"
      and s: "pfifo_regs d2 NV_PFIFO_CACHE1_DMA_SUBROUTINE = pfifo_regs d1 NV_PFIFO_CACHE1_DMA_SUBROUTINE" for d2 g
    unfolding pusher_command_cases [OF e] ret Let_def s d1(3)
    using subroutine_fields aligned_plus4 [OF assms(2)]
    by (simp add: pb_abs_def Let_def) (simp add: nv_addr subroutine_fields)
  with d1 show ?thesis by blast
qed

theorem call_return_witness:
  "\<exists>d1. pusher_command nv2a_state_zero 0x1002 4 = Inr (Next d1) \<and> pfifo_regs d1 NV_PFIFO_CACHE1_DMA_GET = 0x1000"
proof -
  have d: "pb_decode 0x1002 = PB_Call 0x1000" by (simp add: pb_decode_def mask_numeral)
  show ?thesis
    using call_return [of nv2a_state_zero "0x1002" "0x1000"] d
    by (auto simp: dma_field_def pb_abs_def)
qed

section \<open>The object hash\<close>

definition ramht_bits :: "nv2a_state \<Rightarrow> nat" where
  "ramht_bits d = 11 + unat (GET_MASK (pfifo_regs d NV_PFIFO_RAMHT) NV_PFIFO_RAMHT_SIZE)"

lemma ramht_bits_bound: "11 \<le> ramht_bits d" "ramht_bits d \<le> 14"
  using GET_MASK_field_less [of 2 16 "pfifo_regs d NV_PFIFO_RAMHT"] by (simp_all add: ramht_bits_def nv_field)

lemma ctz32_exp: "k < 32 \<Longrightarrow> ctz32 (push_bit k 1) = k"
  by (rule ctz32_eqI) (auto simp: bit_simps)

lemma ramht_size_bits: "ramht_size d = push_bit (Suc (ramht_bits d)) 1" "ctz32 (ramht_size d) - 1 = ramht_bits d"
proof -
  show s: "ramht_size d = push_bit (Suc (ramht_bits d)) 1"
    by (simp add: ramht_size_def ramht_bits_def add.commute)
  show "ctz32 (ramht_size d) - 1 = ramht_bits d"
    using ramht_bits_bound [of d] unfolding s by (subst ctz32_exp) auto
qed

lemma hash_loop_0 [simp]: "hash_loop b 0 acc = acc"
  by (simp add: hash_loop.simps)

lemma hash_loop_step:
  "0 < b \<Longrightarrow> hash_loop b h acc = hash_loop b (drop_bit b h) (acc XOR take_bit b h)"
  by (cases "h = 0") (simp_all add: hash_loop.simps [of b h] take_bit_eq_mask)

lemma hash_loop_digits:
  assumes "11 \<le> b"
  shows "hash_loop b h 0 = take_bit b h XOR take_bit b (drop_bit b h) XOR take_bit b (drop_bit (b + b) h)"
proof -
  have "drop_bit (b + b + b) h = 0"
    using assms by (intro bit_word_eqI) (auto simp: bit_simps dest: bit_imp_le_length)
  with assms show ?thesis
    by (subst hash_loop_step, simp, subst hash_loop_step, simp, subst hash_loop_step, simp)
      (simp add: ac_simps)
qed

text \<open>C9: The hash of an object handle is the exclusive or of its digits in base \<open>2 ^ bits\<close>, where
  the hash table has \<open>2 ^ (bits + 1)\<close> bytes, and of the channel shifted to the top of the hash; so
  the loop ends for every handle.\<close>

theorem ramht_hash_digits:
  "ramht_hash d h =
     take_bit (ramht_bits d) h XOR take_bit (ramht_bits d) (drop_bit (ramht_bits d) h)
     XOR take_bit (ramht_bits d) (drop_bit (2 * ramht_bits d) h)
     XOR push_bit (ramht_bits d - 4) (GET_MASK (pfifo_regs d NV_PFIFO_CACHE1_PUSH1) NV_PFIFO_CACHE1_PUSH1_CHID)"
  unfolding ramht_hash_def Let_def ramht_size_bits(2) hash_loop_digits [OF ramht_bits_bound(1)] mult_2
  by (simp only: xor.assoc)

text \<open>C10: The hash is two bits wider than the table has slots of eight bytes: on channel 0, for every
  table size, the handle \<open>2 ^ (bits - 2)\<close> fails the assertion of \<open>ramht_lookup\<close>.\<close>

theorem ramht_lookup_overflow:
  assumes "GET_MASK (pfifo_regs d NV_PFIFO_CACHE1_PUSH1) NV_PFIFO_CACHE1_PUSH1_CHID = 0"
  shows "ramht_lookup d (push_bit (ramht_bits d - 2) 1) = Inl (AssertFail ''hash * 8 < ramht_size'')"
proof -
  let ?b = "ramht_bits d"
  note b = ramht_bits_bound [of d]
  have "ramht_hash d (push_bit (?b - 2) 1) = push_bit (?b - 2) 1"
    unfolding ramht_hash_digits assms
    using b by (intro bit_word_eqI) (auto simp: bit_simps)
  moreover have "push_bit (?b - 2) 1 * 8 = (push_bit (Suc ?b) 1 :: u32)"
  proof -
    have "push_bit (?b - 2) (1 :: u32) * 8 = push_bit 3 (push_bit (?b - 2) 1)" by (simp add: push_bit_eq_mult)
    also have "\<dots> = push_bit (3 + (?b - 2)) 1" by (simp only: push_bit_push_bit)
    finally show ?thesis using b by simp
  qed
  ultimately show ?thesis by (simp add: ramht_lookup_def Let_def ramht_size_bits check_def)
qed

theorem ramht_lookup_overflow_witness:
  "ramht_lookup nv2a_state_zero (push_bit (ramht_bits nv2a_state_zero - 2) 1) =
     Inl (AssertFail ''hash * 8 < ramht_size'')"
  by (rule ramht_lookup_overflow) simp


section \<open>What the engine promises the FIFO\<close>

text \<open>
  \<open>engine_ok\<close> is what the FIFO relies on of the code behind it: the blit and the handlers leave the FIFO's registers alone
  (they may write video memory and every other part of the device), and a slot of the Kelvin table holds one of the
  three shapes its macros generate: a handler of one word, a handler of a range of increasing methods whose slot lies
  in its range, or a handler of a run of one method.  \<open>DRAW_ARRAYS\<close> is of the first shape.
\<close>

definition keeps_fifo :: "nv2a_state \<Rightarrow> nv2a_state \<Rightarrow> bool" where
  "keeps_fifo d d' \<longleftrightarrow> pfifo_regs d' = pfifo_regs d"

definition word_handler_ok :: "one_word_handler \<Rightarrow> bool" where
  "word_handler_ok f \<longleftrightarrow> (\<forall>d s m p d'. f d s m p = Inr d' \<longrightarrow> keeps_fifo d d')"

definition slot_ok :: "nat \<Rightarrow> kelvin_handler \<Rightarrow> bool" where
  "slot_ok i h \<longleftrightarrow> (\<exists>f. word_handler_ok f \<and>
     (h = method_plain f \<or>
      i \<noteq> unat (drop_bit 2 NV097_DRAW_ARRAYS) \<and>
        (h = pgraph_method_non_inc f \<or> (\<exists>e. h = pgraph_method_inc f e \<and> 4 * i + 4 \<le> unat e))))"

definition engine_ok :: "method_env \<Rightarrow> bool" where
  "engine_ok env \<longleftrightarrow>
     (\<forall>d. keeps_fifo d (op_image_blit env d)) \<and>
     (\<forall>i h. pgraph_kelvin_methods env i = Some h \<longrightarrow> slot_ok i h)"

lemma keeps_fifo_refl [simp]: "keeps_fifo d d"
  by (simp add: keeps_fifo_def)

lemma keeps_fifo_pgraph [simp]: "keeps_fifo d (d'\<lparr>pgraph := x\<rparr>) = keeps_fifo d d'"
  by (simp add: keeps_fifo_def)

lemma keeps_fifo_irq [simp]: "keeps_fifo d (nv2a_update_irq d') = keeps_fifo d d'"
  by (simp add: keeps_fifo_def)

lemma keeps_fifo_trans: "keeps_fifo d d' \<Longrightarrow> keeps_fifo d' d'' \<Longrightarrow> keeps_fifo d d''"
  by (simp add: keeps_fifo_def)

lemma run_inc_keeps: "word_handler_ok f \<Longrightarrow> run_inc f s ws m d = Inr d' \<Longrightarrow> keeps_fifo d d'"
  by (induction f s ws m d rule: run_inc.induct)
    (auto simp: bind_res_eq_Inr word_handler_ok_def, blast intro: keeps_fifo_trans)

lemma run_non_inc_keeps: "word_handler_ok f \<Longrightarrow> run_non_inc f s m ws d = Inr d' \<Longrightarrow> keeps_fifo d d'"
  by (induction f s m ws d rule: run_non_inc.induct)
    (auto simp: bind_res_eq_Inr word_handler_ok_def, blast intro: keeps_fifo_trans)

lemma range_words:
  assumes "unat (m :: u32) mod 4 = 0" "4 * unat (drop_bit 2 m) + 4 \<le> unat (e :: u32)"
  shows "1 \<le> unat ((e - m) div 4)"
proof -
  have "unat (drop_bit 2 m) = unat m div 4" by (simp add: drop_bit_eq_div unat_div_distrib)
  then have le: "unat m + 4 \<le> unat e" using assms by presburger
  then have "unat (e - m) = unat e - unat m" by (intro unat_sub) (simp add: word_le_nat_alt)
  then show ?thesis using le by (simp add: unat_div_distrib)
qed

lemma slot_ok_handler:
  assumes ok: "slot_ok (unat (drop_bit 2 m)) h" and m: "unat m mod 4 = 0" and n: "1 \<le> n"
    and r: "h d s m p ps n inc = Inr (c, d')"
  shows "keeps_fifo d d' \<and> 1 \<le> c \<and> c \<le> n \<and> (m = NV097_DRAW_ARRAYS \<longrightarrow> c = 1)"
proof -
  obtain f where f: "word_handler_ok f" and h: "h = method_plain f \<or> m \<noteq> NV097_DRAW_ARRAYS \<and>
      (h = pgraph_method_non_inc f \<or> (\<exists>e. h = pgraph_method_inc f e \<and> 4 * unat (drop_bit 2 m) + 4 \<le> unat e))"
    using ok unfolding slot_ok_def by blast
  have one: "f d s m p = Inr d1 \<Longrightarrow> keeps_fifo d d1" for d1 using f by (simp add: word_handler_ok_def)
  from h show ?thesis
  proof (elim disjE conjE exE)
    assume "h = method_plain f"
    then show ?thesis using r n one by (auto simp: method_plain_def bind_res_eq_Inr)
  next
    assume "m \<noteq> NV097_DRAW_ARRAYS" "h = pgraph_method_non_inc f"
    then show ?thesis using r n one run_non_inc_keeps [OF f]
      by (auto simp: pgraph_method_non_inc_def bind_res_eq_Inr split: if_splits)
  next
    fix e assume "m \<noteq> NV097_DRAW_ARRAYS" "h = pgraph_method_inc f e" "4 * unat (drop_bit 2 m) + 4 \<le> unat e"
    then show ?thesis using r n one run_inc_keeps [OF f] range_words [OF m]
      by (auto simp: pgraph_method_inc_def bind_res_eq_Inr Let_def split: if_splits)
  qed
qed

lemma squashD: "squash pg m ps look \<Longrightarrow> m = NV097_DRAW_ARRAYS \<and> 7 \<le> look"
  by (simp add: squash_def)

lemma kelvin_method_keeps:
  assumes "engine_ok env" "1 \<le> n" "n \<le> look" "unat m mod 4 = 0"
    and "kelvin_method env d s m p ps n look inc = Inr (c, d')"
  shows "keeps_fifo d d' \<and> 1 \<le> c \<and> c \<le> look"
proof (cases "pgraph_kelvin_methods env (unat (drop_bit 2 m))")
  case None
  then show ?thesis using assms by (simp add: kelvin_method_def)
next
  case (Some h)
  then obtain c1 d1 where h: "h d s m p ps n inc = Inr (c1, d1)"
    using assms(5) by (cases "h d s m p ps n inc") (auto simp: kelvin_method_def)
  have "slot_ok (unat (drop_bit 2 m)) h" using assms(1) Some by (simp add: engine_ok_def)
  note ok = slot_ok_handler [OF this assms(4,2) h]
  have "(c, d') = (if squash (pgraph d1) m ps look
       then (c1 + 4, d1\<lparr>pgraph := (pgraph d1)\<lparr>pg_draw_arrays_prevent_connect := True\<rparr>\<rparr>) else (c1, d1))"
    using assms(5) Some h by (simp add: kelvin_method_def del: pgraph_state.update_convs)
  then show ?thesis
    using ok assms(3) squashD [of "pgraph d1" m ps look]
    by (cases "squash (pgraph d1) m ps look") auto
qed

lemma image_blit_keeps: "engine_ok env \<Longrightarrow> keeps_fifo d (image_blit_method env d m p)"
  unfolding image_blit_method_def Let_def engine_ok_def
  by (auto intro: keeps_fifo_trans [where d' = "d\<lparr>pgraph := x\<rparr>" for x])

lemma set_object_keeps: "set_object d s p = Inr d' \<Longrightarrow> keeps_fifo d d'"
  by (auto simp: set_object_def Let_def)

lemma pgraph_method_keeps:
  assumes ok: "engine_ok env" "1 \<le> n" "n \<le> look" "unat m mod 4 = 0"
    and r: "pgraph_method env d s m p ps n look inc = Inr (c, d')"
  shows "keeps_fifo d d' \<and> 1 \<le> c \<and> c \<le> look"
proof -
  obtain d1 where d1: "(if m = NV_SET_OBJECT then set_object d s p else Inr d) = Inr d1"
    using r by (auto simp: pgraph_method_def bind_res_eq_Inr)
  then have k: "keeps_fifo d d1" by (auto split: if_splits intro: set_object_keeps)
  define d2 where "d2 = d1\<lparr>pgraph := switch_context (pgraph d1) s\<rparr>"
  have k2: "keeps_fifo d d2" using k by (simp add: d2_def)
  have "(\<exists>x. (c, d') = (1, d2\<lparr>pgraph := x\<rparr>)) \<or> (c, d') = (1, image_blit_method env d2 m p) \<or>
      kelvin_method env d2 s m p ps n look inc = Inr (c, d') \<or> (c, d') = (1, d2)"
    using r d1 unfolding pgraph_method_def d2_def by (auto simp: Let_def split: if_splits)
  then show ?thesis
    using k2 ok keeps_fifo_trans [OF k2 image_blit_keeps [OF ok(1)]]
      kelvin_method_keeps [OF ok, of d2 s p ps inc c d'] keeps_fifo_trans [OF k2]
    by auto
qed

text \<open>The registers the puller writes.\<close>

definition puller_keeps :: "nv2a_state \<Rightarrow> nv2a_state \<Rightarrow> bool" where
  "puller_keeps d d' \<longleftrightarrow> 
     (\<forall>r. r \<noteq> NV_PFIFO_CACHE1_ENGINE \<longrightarrow> r \<noteq> NV_PFIFO_CACHE1_PULL1 \<longrightarrow> r \<noteq> NV_PFIFO_CACHE1_STATUS \<longrightarrow>
        pfifo_regs d' r = pfifo_regs d r)"

lemma puller_keeps_refl [simp]: "puller_keeps d d"
  by (simp add: puller_keeps_def)

lemma puller_keeps_trans: "puller_keeps d d' \<Longrightarrow> puller_keeps d' d'' \<Longrightarrow> puller_keeps d d''"
  by (simp add: puller_keeps_def)

lemma puller_keeps_fifo: "keeps_fifo d d' \<Longrightarrow> puller_keeps d d'"
  by (simp add: puller_keeps_def keeps_fifo_def)

lemma puller_keeps_reg_w:
  "r = NV_PFIFO_CACHE1_ENGINE \<or> r = NV_PFIFO_CACHE1_PULL1 \<or> r = NV_PFIFO_CACHE1_STATUS \<Longrightarrow>
   puller_keeps d d' \<Longrightarrow> puller_keeps d (pfifo_reg_w d' r v)"
  by (auto simp: puller_keeps_def)

lemma context_switch_keeps: "pgraph_context_switch d c = Inr d' \<Longrightarrow> keeps_fifo d d'"
  by (auto simp: pgraph_context_switch_def Let_def split: if_splits)

lemma puller_stall_keeps: "pfifo_puller_should_stall d = (b, d') \<Longrightarrow> keeps_fifo d d'"
  by (auto simp: pfifo_puller_should_stall_def pfifo_stall_for_flip_def Let_def split: if_splits)

lemma zero_aligned: "unat (0 :: u32) mod 4 = 0"
  by simp

lemma method_bits_aligned: "unat (e AND 0x1FFC :: u32) mod 4 = 0"
proof -
  have "take_bit 2 (e AND 0x1FFC) = (0 :: u32)"
    by (simp only: take_bit_and) simp
  then have "unat (take_bit 2 (e AND 0x1FFC)) = 0" by (simp only: unsigned_0)
  then show ?thesis unfolding unat_take_bit_mod by simp
qed

lemma puller_bind_keeps:
  assumes ok: "engine_ok env" "1 \<le> n" "n \<le> look" and r: "puller_bind env d s p ps n look inc = Inr (c, d')"
  shows "puller_keeps d d' \<and> (c = -1 \<or> 1 \<le> c \<and> c \<le> int look)"
proof -
  obtain e where e: "ramht_lookup d p = Inr e"
    using r by (auto simp: puller_bind_def bind_res_eq_Inr)
  define d2 where "d2 = pfifo_reg_w (pfifo_reg_w d NV_PFIFO_CACHE1_ENGINE
      (SET_MASK (pfifo_regs d NV_PFIFO_CACHE1_ENGINE) (push_bit (unat (4 * s)) 3) (ht_engine e)))
      NV_PFIFO_CACHE1_PULL1
      (SET_MASK (pfifo_regs (pfifo_reg_w d NV_PFIFO_CACHE1_ENGINE
      (SET_MASK (pfifo_regs d NV_PFIFO_CACHE1_ENGINE) (push_bit (unat (4 * s)) 3) (ht_engine e))) NV_PFIFO_CACHE1_PULL1)
       NV_PFIFO_CACHE1_PULL1_ENGINE (ht_engine e))"
  have k: "puller_keeps d d2" unfolding d2_def by (intro puller_keeps_reg_w) simp_all
  have "(c, d') = (-1, d2) \<or> (\<exists>d3. pgraph_context_switch d2 (ht_channel_id e) = Inr d3 \<and>
     ((c, d') = (-1, d3) \<or> (\<exists>m. pgraph_method env d3 s 0 (ucast (ht_instance e)) ps n look inc = Inr (m, d') \<and> c = int m)))"
    using r unfolding puller_bind_def e Let_def bind_res_simps d2_def [symmetric]
    by (auto simp: bind_res_eq_Inr split: if_splits)
  then show ?thesis
    using k context_switch_keeps [of d2 "ht_channel_id e"] pgraph_method_keeps [OF ok zero_aligned]
    by (auto intro: puller_keeps_trans puller_keeps_fifo)
      (fastforce dest: pgraph_method_keeps [OF ok zero_aligned] intro: puller_keeps_trans puller_keeps_fifo)+
qed

lemma puller_method_keeps:
  assumes ok: "engine_ok env" "1 \<le> n" "n \<le> look" "unat m mod 4 = 0" and r: "puller_method env d s m p ps n look inc = Inr (c, d')"
  shows "puller_keeps d d' \<and> (c = -1 \<or> 1 \<le> c \<and> c \<le> int look)"
proof -
  obtain d1 p' where k: "puller_keeps d d1"
    and "(c, d') = (-1, d1) \<or> (\<exists>j. pgraph_method env d1 s m p' ps n look inc = Inr (j, d') \<and> c = int j)"
  proof -
    define d1 where "d1 = pfifo_reg_w d NV_PFIFO_CACHE1_PULL1
               (SET_MASK (pfifo_regs d NV_PFIFO_CACHE1_PULL1) NV_PFIFO_CACHE1_PULL1_ENGINE 
   (GET_MASK (pfifo_regs d NV_PFIFO_CACHE1_ENGINE) (push_bit (unat (4 * s)) 3)))"
    have "puller_keeps d d1" unfolding d1_def by (intro puller_keeps_reg_w) simp_all
    moreover have "\<exists>p'. (c, d') = (-1, d1) \<or> (\<exists>j. pgraph_method env d1 s m p' ps n look inc = Inr (j, d') \<and> c = int j)"
      using r unfolding puller_method_def Let_def d1_def [symmetric]
      by (auto simp: bind_res_eq_Inr split: if_splits)
    ultimately show ?thesis using that by blast
  qed
  then show ?thesis
    using pgraph_method_keeps [OF ok, of d1 s p' ps inc _ d'] by (auto intro: puller_keeps_trans puller_keeps_fifo)
qed

lemma run_puller_keeps:
  assumes ok: "engine_ok env" "1 \<le> n" "n \<le> look" and r: "pfifo_run_puller env d e p ps n look = Inr (c, d')"
  shows "puller_keeps d d' \<and> (c = -1 \<or> 1 \<le> c \<and> c \<le> int look)"
proof -
  obtain b d1 where st: "pfifo_puller_should_stall d = (b, d1)" by fastforce
  then have k: "puller_keeps d d1" by (intro puller_keeps_fifo puller_stall_keeps)
  let ?s = "GET_MASK e NV_PFIFO_CACHE1_METHOD_SUBCHANNEL"
  let ?inc = "GET_MASK e NV_PFIFO_CACHE1_METHOD_TYPE = 0"
  have "(c, d') = (-1, d1) \<or> (\<exists>d2. (puller_bind env d1 ?s p ps n look ?inc = Inr (c, d2)
        \<or> puller_method env d1 ?s (e AND 0x1FFC) p ps n look ?inc = Inr (c, d2))
      \<and> (d' = d2 \<or> (\<exists>v. d' = pfifo_reg_w d2 NV_PFIFO_CACHE1_STATUS v)))"
    using r unfolding pfifo_run_puller_def Let_def st prod.case
    by (auto simp: bind_res_eq_Inr split: if_splits)
  then show ?thesis
    using k puller_bind_keeps [OF ok] puller_method_keeps [OF ok method_bits_aligned]
    by (auto intro!: puller_keeps_reg_w intro: puller_keeps_trans; blast intro: puller_keeps_trans)
qed

lemma dma_field_less:
  "unat (dma_field d NV_PFIFO_CACHE1_DMA_STATE_METHOD) < 2 ^ 11"
  "unat (dma_field d NV_PFIFO_CACHE1_DMA_STATE_METHOD_COUNT) < 2 ^ 11"
  unfolding dma_field_def nv_field by (rule GET_MASK_field_less; simp)+

lemma method_advance:
  assumes "unat (mf :: u32) < 2 ^ 11"
  shows "word_of_int ((uint (push_bit 2 mf) + 4 * c) div 4) = mf + word_of_int c"
proof -
  have "int (unat mf) < 2 ^ 11" using assms by (simp only: of_nat_less_numeral_power_cancel_iff)
  then have "uint mf * uint (4 :: u32) < 2 ^ LENGTH(32)" by simp
  then have "uint (mf * 4) = uint mf * 4" by (simp only: uint_mult_lem) simp
  moreover have "push_bit 2 mf = mf * 4" by (simp add: push_bit_eq_mult)
  ultimately have "(uint (push_bit 2 mf) + 4 * c) div 4 = uint mf + c" by simp
  then show ?thesis by simp
qed

lemma count_down:
  assumes "unat (mc :: u32) < 2 ^ 11"
  shows "unat (take_bit 11 (word_of_int (uint mc - min (uint mc) (int n)) :: u32)) = unat mc - n"
proof -
  have u: "uint mc = int (unat mc)" by simp
  have "int a - min (int a) (int n) = int (a - n)" for a by auto
  then have "uint mc - min (uint mc) (int n) = int (unat mc - n)" by (simp only: u)
  then have "(word_of_int (uint mc - min (uint mc) (int n)) :: u32) = word_of_nat (unat mc - n)" by simp
  moreover have "unat (word_of_nat (unat mc - n) :: u32) = unat mc - n"
    using assms unfolding unat_of_nat by (intro mod_less) simp
  ultimately show ?thesis using assms by (simp add: unat_take_bit_mod)
qed

lemma pusher_next_Next:
  "pusher_next d g = Next d' \<Longrightarrow> d' = pfifo_reg_w d NV_PFIFO_CACHE1_DMA_GET g"
  by (auto simp: pusher_next_def Let_def split: if_splits)

lemma dma_regs_distinct:
  "NV_PFIFO_CACHE1_DMA_GET \<noteq> NV_PFIFO_CACHE1_DMA_STATE" "NV_PFIFO_CACHE1_DMA_PUT \<noteq> NV_PFIFO_CACHE1_DMA_STATE"
  "NV_PFIFO_CACHE1_DMA_DCOUNT \<noteq> NV_PFIFO_CACHE1_DMA_STATE" "NV_PFIFO_CACHE1_DMA_PUT \<noteq> NV_PFIFO_CACHE1_DMA_GET"
  "NV_PFIFO_CACHE1_DMA_GET \<noteq> NV_PFIFO_CACHE1_DMA_DCOUNT" "NV_PFIFO_CACHE1_DMA_PUT \<noteq> NV_PFIFO_CACHE1_DMA_DCOUNT"
  "NV_PFIFO_CACHE1_DMA_STATE \<noteq> NV_PFIFO_CACHE1_DMA_DATA_SHADOW" "NV_PFIFO_CACHE1_DMA_STATE \<noteq> NV_PFIFO_CACHE1_STATUS"
  "NV_PFIFO_CACHE1_DMA_GET \<noteq> NV_PFIFO_CACHE1_DMA_DATA_SHADOW" "NV_PFIFO_CACHE1_DMA_GET \<noteq> NV_PFIFO_CACHE1_STATUS"
  "NV_PFIFO_CACHE1_DMA_PUT \<noteq> NV_PFIFO_CACHE1_DMA_DATA_SHADOW" "NV_PFIFO_CACHE1_DMA_PUT \<noteq> NV_PFIFO_CACHE1_STATUS"
  "NV_PFIFO_CACHE1_DMA_DCOUNT \<noteq> NV_PFIFO_CACHE1_DMA_DATA_SHADOW" "NV_PFIFO_CACHE1_DMA_DCOUNT \<noteq> NV_PFIFO_CACHE1_STATUS"
  "NV_PFIFO_CACHE1_DMA_STATE \<noteq> NV_PFIFO_CACHE1_ENGINE" "NV_PFIFO_CACHE1_DMA_STATE \<noteq> NV_PFIFO_CACHE1_PULL1"
  "NV_PFIFO_CACHE1_DMA_GET \<noteq> NV_PFIFO_CACHE1_ENGINE" "NV_PFIFO_CACHE1_DMA_GET \<noteq> NV_PFIFO_CACHE1_PULL1"
  "NV_PFIFO_CACHE1_DMA_PUT \<noteq> NV_PFIFO_CACHE1_ENGINE" "NV_PFIFO_CACHE1_DMA_PUT \<noteq> NV_PFIFO_CACHE1_PULL1"
  "NV_PFIFO_CACHE1_DMA_DCOUNT \<noteq> NV_PFIFO_CACHE1_ENGINE" "NV_PFIFO_CACHE1_DMA_DCOUNT \<noteq> NV_PFIFO_CACHE1_PULL1"
  by (simp_all add: nv_addr)

lemma puller_keeps_dma:
  assumes "puller_keeps d d'"
  shows "pfifo_regs d' NV_PFIFO_CACHE1_DMA_STATE = pfifo_regs d NV_PFIFO_CACHE1_DMA_STATE"
    "pfifo_regs d' NV_PFIFO_CACHE1_DMA_GET = pfifo_regs d NV_PFIFO_CACHE1_DMA_GET"
    "pfifo_regs d' NV_PFIFO_CACHE1_DMA_PUT = pfifo_regs d NV_PFIFO_CACHE1_DMA_PUT"
    "pfifo_regs d' NV_PFIFO_CACHE1_DMA_DCOUNT = pfifo_regs d NV_PFIFO_CACHE1_DMA_DCOUNT"
  using assms dma_regs_distinct unfolding puller_keeps_def by blast+

text \<open>What a data word does when the iteration goes on: \<open>n\<close> words are taken.\<close>

lemma pusher_data_Next:
  assumes ok: "engine_ok env" "1 \<le> avail" "dma_field d NV_PFIFO_CACHE1_DMA_STATE_METHOD_COUNT \<noteq> 0"
    and r: "pusher_data env d w g ps avail = Inr (Next d')"
  obtains n where "1 \<le> n" "n \<le> avail"
    and "pfifo_regs d' NV_PFIFO_CACHE1_DMA_GET = g + word_of_int ((int n - 1) * 4)"
    and "pfifo_regs d' NV_PFIFO_CACHE1_DMA_PUT = pfifo_regs d NV_PFIFO_CACHE1_DMA_PUT"
    and "pfifo_regs d' NV_PFIFO_CACHE1_DMA_DCOUNT = pfifo_regs d NV_PFIFO_CACHE1_DMA_DCOUNT + word_of_nat n"
    and "unat (dma_field d' NV_PFIFO_CACHE1_DMA_STATE_METHOD_COUNT) =
      unat (dma_field d NV_PFIFO_CACHE1_DMA_STATE_METHOD_COUNT) - n"
    and "dma_field d' NV_PFIFO_CACHE1_DMA_STATE_METHOD =
      (if dma_field d NV_PFIFO_CACHE1_DMA_STATE_METHOD_TYPE = 0
       then take_bit 11 (dma_field d NV_PFIFO_CACHE1_DMA_STATE_METHOD + word_of_nat n)
       else dma_field d NV_PFIFO_CACHE1_DMA_STATE_METHOD)"
proof -
  let ?mc = "dma_field d NV_PFIFO_CACHE1_DMA_STATE_METHOD_COUNT"
  let ?m = "push_bit 2 (dma_field d NV_PFIFO_CACHE1_DMA_STATE_METHOD)"
  define d2 where "d2 = pfifo_reg_w (pfifo_reg_w d NV_PFIFO_CACHE1_DMA_DATA_SHADOW w) NV_PFIFO_CACHE1_STATUS
     (pfifo_regs (pfifo_reg_w d NV_PFIFO_CACHE1_DMA_DATA_SHADOW w) NV_PFIFO_CACHE1_STATUS AND NOT NV_PFIFO_CACHE1_STATUS_LOW_MARK)"
  obtain c d3 where pull: "pfifo_run_puller env d2 (method_entry d) w ps (min (unat ?mc) avail) avail = Inr (c, d3)"
    using r unfolding pusher_data_def Let_def d2_def [symmetric] by (auto simp: bind_res_eq_Inr)
  have "1 \<le> min (unat ?mc) avail" using ok(2,3) by (simp add: Suc_le_eq unat_gt_0)
  from run_puller_keeps [OF ok(1) this min.cobounded2 pull]
  have k: "puller_keeps d2 d3" and c: "c = -1 \<or> 1 \<le> c \<and> c \<le> int avail" by blast+
  define d4 where "d4 = (if dma_field d NV_PFIFO_CACHE1_DMA_STATE_METHOD_TYPE = NV_PFIFO_CACHE1_DMA_STATE_METHOD_TYPE_INC
       then set_dma_field d3 NV_PFIFO_CACHE1_DMA_STATE_METHOD (word_of_int ((uint ?m + 4 * c) div 4)) else d3)"
  define d5 where "d5 = set_dma_field d4 NV_PFIFO_CACHE1_DMA_STATE_METHOD_COUNT (word_of_int (uint ?mc - min (uint ?mc) c))"
  define d6 where "d6 = pfifo_reg_w d5 NV_PFIFO_CACHE1_DMA_DCOUNT (pfifo_regs d5 NV_PFIFO_CACHE1_DMA_DCOUNT + word_of_int c)"
  have "c \<ge> 0" and nx: "pusher_next d6 (g + word_of_int ((c - 1) * 4)) = Next d'"
    using r pull unfolding pusher_data_def Let_def d2_def [symmetric] d6_def d5_def d4_def
    by (auto split: if_splits)
  with c obtain n where n: "c = int n" "1 \<le> n" "n \<le> avail" by (cases c) auto
  have d': "d' = pfifo_reg_w d6 NV_PFIFO_CACHE1_DMA_GET (g + word_of_int ((c - 1) * 4))"
    by (rule pusher_next_Next [OF nx])
  note regs = puller_keeps_dma [OF k]
  show ?thesis
  proof (rule that [OF n(2,3)])
    show "pfifo_regs d' NV_PFIFO_CACHE1_DMA_GET = g + word_of_int ((int n - 1) * 4)"
      by (simp add: d' n(1))
    show "pfifo_regs d' NV_PFIFO_CACHE1_DMA_PUT = pfifo_regs d NV_PFIFO_CACHE1_DMA_PUT"
      using regs(3) dma_regs_distinct by (simp add: d' d6_def d5_def d4_def d2_def)
    show "pfifo_regs d' NV_PFIFO_CACHE1_DMA_DCOUNT = pfifo_regs d NV_PFIFO_CACHE1_DMA_DCOUNT + word_of_nat n"
      using regs(4) dma_regs_distinct by (simp add: d' d6_def d5_def d4_def d2_def n(1))
    have f: "dma_field d3 m = dma_field d m" for m
      using regs(1) dma_regs_distinct by (simp add: dma_field_def d2_def)
    have "dma_field d' NV_PFIFO_CACHE1_DMA_STATE_METHOD_COUNT = take_bit 11 (word_of_int (uint ?mc - min (uint ?mc) (int n)))"
      unfolding d' d6_def d5_def n(1) using dma_regs_distinct by (simp only: dma_field_reg_w dma_fields_set not_False_eq_True)
    then show "unat (dma_field d' NV_PFIFO_CACHE1_DMA_STATE_METHOD_COUNT) = unat ?mc - n"
      by (simp only: count_down [OF dma_field_less(2)])
    show "dma_field d' NV_PFIFO_CACHE1_DMA_STATE_METHOD =
        (if dma_field d NV_PFIFO_CACHE1_DMA_STATE_METHOD_TYPE = 0
         then take_bit 11 (dma_field d NV_PFIFO_CACHE1_DMA_STATE_METHOD + word_of_nat n)
         else dma_field d NV_PFIFO_CACHE1_DMA_STATE_METHOD)"
      unfolding d' d6_def d5_def d4_def n(1) method_advance [OF dma_field_less(1)]
      using dma_regs_distinct by (simp add: f nv_val)
  qed
qed

section \<open>When the pusher returns\<close>

definition words_left :: "nv2a_state \<Rightarrow> nat" where
  "words_left d = unat ((pfifo_regs d NV_PFIFO_CACHE1_DMA_PUT - pfifo_regs d NV_PFIFO_CACHE1_DMA_GET) div 4)"

text \<open>The word at GET starts a command that moves GET: a jump, a call or a return.\<close>

definition moves_get :: "pb_command \<Rightarrow> bool" where
  "moves_get c \<longleftrightarrow> (case c of PB_Methods _ _ _ _ \<Rightarrow> False | PB_Reserved \<Rightarrow> False | _ \<Rightarrow> True)"

definition takes_jump :: "hwaddr \<Rightarrow> nv2a_state \<Rightarrow> bool" where
  "takes_jump dma d \<longleftrightarrow> dma_field d NV_PFIFO_CACHE1_DMA_STATE_METHOD_COUNT = 0 \<and>
     moves_get (pb_decode (ldl_le_p (vram d) (dma + ucast (pfifo_regs d NV_PFIFO_CACHE1_DMA_GET))))"

lemma words_advance:
  fixes p g :: u32
  assumes "(p - g) mod 4 = 0" "1 \<le> n" "n \<le> unat ((p - g) div 4)"
  shows "unat ((p - (g + 4 + word_of_int ((int n - 1) * 4))) div 4) = unat ((p - g) div 4) - n"
proof -
  have e: "p - (g + 4 + word_of_int ((int n - 1) * 4)) = (p - g) - word_of_nat (4 * n)" by (simp add: algebra_simps)
  have q: "unat ((p - g) div 4) = unat (p - g) div 4" by (simp add: unat_div_distrib)
  have le: "4 * n \<le> unat (p - g)" using assms(3) unfolding q by simp
  then have "unat (word_of_nat (4 * n) :: u32) = 4 * n"
    unfolding unat_of_nat by (intro mod_less) (rule le_less_trans [OF _ unsigned_less])
  then have "unat ((p - g) - word_of_nat (4 * n)) = unat (p - g) - 4 * n"
    using le by (simp add: unat_sub word_le_nat_alt)
  then show ?thesis unfolding e q by (simp only: unat_div_distrib) simp
qed

lemma pusher_command_straight:
  assumes "\<not> moves_get (pb_decode w)"
    and "pusher_command d w g = Inr (Next d')"
  shows "\<exists>ty. d' = pfifo_reg_w (set_methods (pfifo_reg_w d NV_PFIFO_CACHE1_DMA_RSVD_SHADOW w) w ty) NV_PFIFO_CACHE1_DMA_GET g"
proof -
  have "\<exists>ty. pusher_command d w g = Inr (pusher_next (set_methods (pfifo_reg_w d NV_PFIFO_CACHE1_DMA_RSVD_SHADOW w) w ty) g)
     \<or> (\<exists>f. pusher_command d w g = Inl f)"
    using assms(1) unfolding pusher_command_def Let_def old_jump_test methods_test and_consts pb_decode_def moves_get_def
    by (auto split: if_splits)
  then show ?thesis using assms(2) by (auto dest: pusher_next_Next [OF sym])
qed

lemma nonzero_mult4:
  assumes "(x :: u32) \<noteq> 0" "x mod 4 = 0"
  shows "1 \<le> unat (x div 4)"
proof -
  have "unat x mod 4 = 0" using arg_cong [OF assms(2), of unat] by (simp add: unat_mod_distrib)
  moreover have "unat x \<noteq> 0" using assms(1) by (simp add: unat_eq_zero)
  ultimately show ?thesis by (simp add: unat_div_distrib) presburger
qed

lemma pusher_step_progress:
  assumes ok: "engine_ok env" "\<not> takes_jump dma d" and r: "pusher_step env dma len d = Inr (Next d')"
  shows "words_left d' < words_left d"
proof -
  let ?g = "pfifo_regs d NV_PFIFO_CACHE1_DMA_GET" and ?p = "pfifo_regs d NV_PFIFO_CACHE1_DMA_PUT"
  let ?w = "ldl_le_p (vram d) (dma + ucast ?g)" and ?av = "unat ((?p - ?g) div 4)"
  have ne: "?g \<noteq> ?p" and m4: "(?p - ?g) mod 4 = 0"
    and c: "if dma_field d NV_PFIFO_CACHE1_DMA_STATE_METHOD_COUNT \<noteq> 0
      then pusher_data env d ?w (?g + 4) (\<lambda>i. ldl_le_p (vram d) (dma + ucast ?g + 4 * word_of_nat i)) ?av = Inr (Next d')
      else pusher_command d ?w (?g + 4) = Inr (Next d')"
    using r unfolding pusher_step_def Let_def by (auto split: if_splits)
  have av: "1 \<le> ?av" using nonzero_mult4 [OF _ m4] ne by simp
  show ?thesis
  proof (cases "dma_field d NV_PFIFO_CACHE1_DMA_STATE_METHOD_COUNT = 0")
    case False
    with c have "pusher_data env d ?w (?g + 4) (\<lambda>i. ldl_le_p (vram d) (dma + ucast ?g + 4 * word_of_nat i)) ?av = Inr (Next d')" by simp
    then obtain n where "1 \<le> n" "n \<le> ?av" "pfifo_regs d' NV_PFIFO_CACHE1_DMA_GET = ?g + 4 + word_of_int ((int n - 1) * 4)"
      "pfifo_regs d' NV_PFIFO_CACHE1_DMA_PUT = ?p"
      by (rule pusher_data_Next [OF ok(1) av False])
    then show ?thesis
      using words_advance [OF m4] av by (simp add: words_left_def)
  next
    case True
    with c ok(2) obtain ty where
      "d' = pfifo_reg_w (set_methods (pfifo_reg_w d NV_PFIFO_CACHE1_DMA_RSVD_SHADOW ?w) ?w ty) NV_PFIFO_CACHE1_DMA_GET (?g + 4)"
      using pusher_command_straight [of ?w d "?g + 4" d'] True unfolding takes_jump_def by auto
    then have "pfifo_regs d' NV_PFIFO_CACHE1_DMA_GET = ?g + 4" "pfifo_regs d' NV_PFIFO_CACHE1_DMA_PUT = ?p"
      by (simp_all add: set_methods_def Let_def) (simp_all add: nv_addr)
    then show ?thesis
      using words_advance [OF m4, of 1] av by (simp add: words_left_def)
  qed
qed

text \<open>The state after a number of iterations, if the loop gets that far.\<close>

fun pusher_after :: "method_env \<Rightarrow> hwaddr \<Rightarrow> hwaddr \<Rightarrow> nat \<Rightarrow> nv2a_state \<Rightarrow> nv2a_state option" where
  "pusher_after env dma len 0 d = Some d"
| "pusher_after env dma len (Suc k) d =
     (case pusher_step env dma len d of Inr (Next d') \<Rightarrow> pusher_after env dma len k d' | _ \<Rightarrow> None)"

lemma pusher_after_add:
  "pusher_after env dma len (j + k) d =
     (case pusher_after env dma len j d of None \<Rightarrow> None | Some d' \<Rightarrow> pusher_after env dma len k d')"
  by (induction j arbitrary: d) (auto split: sum.splits iter.splits)

lemma pusher_after_None:
  "pusher_after env dma len n d = None \<Longrightarrow> n \<le> k \<Longrightarrow> pusher_after env dma len k d = None"
  using pusher_after_add [of env dma len n "k - n" d] by simp

lemma pusher_loop_after:
  "pusher_after env dma len k d = Some d' \<Longrightarrow> pusher_loop env dma len d = pusher_loop env dma len d'"
proof (induction k arbitrary: d)
  case (Suc k)
  then show ?case by (subst pusher_loop.simps) (auto split: sum.splits iter.splits)
qed simp

lemma pusher_loop_ended:
  "pusher_after env dma len k d = None \<Longrightarrow> \<exists>r. pusher_loop env dma len d = Some r"
proof (induction k arbitrary: d)
  case (Suc k)
  then show ?case by (subst pusher_loop.simps) (auto split: sum.splits iter.splits)
qed simp

lemma pusher_loop_ends:
  assumes "pusher_loop env dma len d = Some r"
  shows "\<exists>k. pusher_after env dma len k d = None"
proof (rule pusher_loop.raw_induct [OF _ assms, where P = "\<lambda>env dma len d r. \<exists>k. pusher_after env dma len k d = None"])
  fix loop env dma len d r
  assume ih: "\<And>env dma len d r. loop env dma len d = Some r \<Longrightarrow> \<exists>k. pusher_after env dma len k d = None"
    and step: "(case pusher_step env dma len d of Inl f \<Rightarrow> Some (Inl f) | Inr (Break d') \<Rightarrow> Some (Inr d')
      | Inr (Next d') \<Rightarrow> loop env dma len d') = Some r"
  show "\<exists>k. pusher_after env dma len k d = None"
  proof (cases "\<exists>d'. pusher_step env dma len d = Inr (Next d')")
    case True
    then obtain d' where s: "pusher_step env dma len d = Inr (Next d')" by blast
    with step obtain k where "pusher_after env dma len k d' = None" using ih by fastforce
    with s have "pusher_after env dma len (Suc k) d = None" by simp
    then show ?thesis by blast
  next
    case False
    then have "pusher_after env dma len (Suc 0) d = None" by (auto split: sum.splits iter.splits)
    then show ?thesis by blast
  qed
qed

lemma pusher_loop_returns:
  assumes "engine_ok env" "\<And>k d'. pusher_after env dma len k d = Some d' \<Longrightarrow> \<not> takes_jump dma d'"
  shows "\<exists>r. pusher_loop env dma len d = Some r"
  using assms(2)
proof (induction "words_left d" arbitrary: d rule: less_induct)
  case less
  have j: "\<not> takes_jump dma d" by (rule less.prems [of 0]) simp
  show ?case
  proof (cases "\<exists>d'. pusher_step env dma len d = Inr (Next d')")
    case True
    then obtain d' where s: "pusher_step env dma len d = Inr (Next d')" by blast
    have "words_left d' < words_left d" by (rule pusher_step_progress [OF assms(1) j s])
    moreover have "\<not> takes_jump dma d''" if "pusher_after env dma len k d' = Some d''" for k d''
      using less.prems [of "Suc k"] s that by simp
    ultimately show ?thesis using less.hyps [of d'] s by (subst pusher_loop.simps) auto
  next
    case False
    then show ?thesis using pusher_loop_ended [of env dma len "Suc 0"] by (auto split: sum.splits iter.splits)
  qed
qed

lemma pusher_loop_returns_iff:
  assumes "engine_ok env"
  shows "(\<exists>r. pusher_loop env dma len d = Some r) \<longleftrightarrow>
     (\<exists>n. \<forall>k\<ge>n. \<forall>d'. pusher_after env dma len k d = Some d' \<longrightarrow> \<not> takes_jump dma d')" (is "?L \<longleftrightarrow> ?R")
proof
  assume ?L
  then obtain n where "pusher_after env dma len n d = None" using pusher_loop_ends by blast
  then show ?R using pusher_after_None by (intro exI [of _ n]) fastforce
next
  assume ?R
  then obtain n where n: "\<And>k d'. n \<le> k \<Longrightarrow> pusher_after env dma len k d = Some d' \<Longrightarrow> \<not> takes_jump dma d'" by blast
  show ?L
  proof (cases "pusher_after env dma len n d")
    case None
    then show ?thesis by (rule pusher_loop_ended)
  next
    case (Some d1)
    then have "\<not> takes_jump dma d'" if "pusher_after env dma len k d1 = Some d'" for k d'
      using n [of "n + k" d'] that by (simp add: pusher_after_add)
    then have "\<exists>r. pusher_loop env dma len d1 = Some r" by (rule pusher_loop_returns [OF assms])
    then show ?thesis by (simp add: pusher_loop_after [OF Some])
  qed
qed

section \<open>Two push buffers\<close>

text \<open>
  A run of three combiner words, two of which would be jumps as commands, and a buffer that jumps to itself; the engine
  has the handlers of the flip and the alpha combiner methods.
\<close>

definition kelvin_env :: method_env where
  "kelvin_env = \<lparr>op_image_blit = id, pgraph_kelvin_methods = kelvin_flip_combiner\<rparr>"

lemma slot_ok_plain: "word_handler_ok f \<Longrightarrow> slot_ok i (method_plain f)"
  unfolding slot_ok_def by blast

lemma slot_ok_inc:
  "word_handler_ok f \<Longrightarrow> i \<noteq> unat (drop_bit 2 NV097_DRAW_ARRAYS) \<Longrightarrow> 4 * i + 4 \<le> unat e \<Longrightarrow> slot_ok i (pgraph_method_inc f e)"
  unfolding slot_ok_def by blast

lemma engine_ok_kelvin: "engine_ok kelvin_env"
proof -
  have "word_handler_ok SET_FLIP_READ" "word_handler_ok SET_FLIP_WRITE" "word_handler_ok SET_FLIP_MODULO"
    "word_handler_ok SET_COMBINER_ALPHA_ICW"
    by (auto simp: word_handler_ok_def SET_FLIP_READ_def SET_FLIP_WRITE_def SET_FLIP_MODULO_def
        SET_COMBINER_ALPHA_ICW_def Let_def)
  then have "slot_ok i h" if "kelvin_flip_combiner i = Some h" for i h
    using that unfolding kelvin_flip_combiner_def by (auto simp: nv_val split: if_splits intro!: slot_ok_plain slot_ok_inc)
  then show ?thesis by (simp add: engine_ok_def kelvin_env_def)
qed

definition run_example :: nv2a_state where
  "run_example = nv2a_state_zero\<lparr>vram_size := 0x4000000,
     ramin := (\<lambda>_. 0)(5 := 0x10),
     vram := (\<lambda>_. 0)(0 := 0x60, 1 := 0x02, 2 := 0x0C, 4 := 5, 8 := 6, 12 := 7),
     pfifo_regs := (\<lambda>_. 0)(NV_PFIFO_CACHE1_PUSH0 := 1, NV_PFIFO_CACHE1_DMA_PUSH := 1, NV_PFIFO_MODE := 1,
       NV_PFIFO_CACHE1_PUSH1 := 0x100, NV_PFIFO_CACHE1_DMA_GET := 4, NV_PFIFO_CACHE1_DMA_PUT := 16,
       NV_PFIFO_CACHE1_DMA_STATE := 0xC0260, NV_PFIFO_CACHE1_PULL0 := 1, NV_PFIFO_CACHE1_ENGINE := 1),
     pgraph := pgraph_state_zero\<lparr>pg_regs := (\<lambda>_. 0)(NV_PGRAPH_FIFO := 1,
       NV_PGRAPH_CTX_CONTROL := NV_PGRAPH_CTX_CONTROL_CHID, NV_PGRAPH_CTX_CACHE1 := NV_KELVIN_PRIMITIVE)\<rparr>\<rparr>"

lemma run_example_fields:
  "pusher_enabled run_example" "pusher_mapping run_example = Inr (0, 0x1000)" "method_entry run_example = 0x260"
  "dma_field run_example NV_PFIFO_CACHE1_DMA_STATE_METHOD_COUNT = 3"
  by code_simp+

lemma run_example_regs:
  "pfifo_regs run_example NV_PFIFO_CACHE1_DMA_GET = 4" "pfifo_regs run_example NV_PFIFO_CACHE1_DMA_PUT = 16"
  by (simp_all add: run_example_def nv_addr)

lemma switch_context_class:
  "pgraph_reg_r (switch_context pg s) NV_PGRAPH_CTX_SWITCH1 = pgraph_reg_r pg (NV_PGRAPH_CTX_CACHE1 + ucast (s * 4))"
  by (simp add: switch_context_def Let_def nv_addr)

lemma upt_3: "[0..<3] = [0, 1, 2 :: nat]"
  by code_simp

lemma combiner_run:
  "pgraph_method_inc SET_COMBINER_ALPHA_ICW 0x280 d 0 0x260 p ps 3 True =
     Inr (3, d\<lparr>pgraph := pgraph_reg_w (pgraph_reg_w (pgraph_reg_w (pgraph d) 0x18C0 (ps 0)) 0x18C4 (ps 1)) 0x18C8 (ps 2)\<rparr>)"
  by (simp add: pgraph_method_inc_def Let_def SET_COMBINER_ALPHA_ICW_def upt_3)

lemma run_example_engine:
  assumes "pgraph d = pgraph run_example"
  shows "pgraph_method kelvin_env d 0 0x260 p ps 3 3 True =
    Inr (3, d\<lparr>pgraph := pgraph_reg_w (pgraph_reg_w (pgraph_reg_w (switch_context (pgraph d) 0) 0x18C0 (ps 0)) 0x18C4 (ps 1))
       0x18C8 (ps 2)\<rparr>)"
proof -
  have p: "pg_regs (pgraph d) = (\<lambda>_. 0)(NV_PGRAPH_FIFO := 1, NV_PGRAPH_CTX_CONTROL := NV_PGRAPH_CTX_CONTROL_CHID,
      NV_PGRAPH_CTX_CACHE1 := NV_KELVIN_PRIMITIVE)"
    by (simp add: assms run_example_def)
  have 1: "PG_GET_MASK (pgraph d) NV_PGRAPH_CTX_CONTROL NV_PGRAPH_CTX_CONTROL_CHID = 1"
    unfolding PG_GET_MASK_def pgraph_reg_r_def p by (simp add: nv_addr nv_mask GET_MASK_def ctz32_def upt_rec)
  have 2: "PG_GET_MASK (switch_context (pgraph d) 0) NV_PGRAPH_CTX_SWITCH1 NV_PGRAPH_CTX_SWITCH1_GRCLASS = NV_KELVIN_PRIMITIVE"
    unfolding PG_GET_MASK_def switch_context_class unfolding pgraph_reg_r_def p
    by (simp add: nv_addr nv_field GET_MASK_field nv_val)
  have 3: "kelvin_flip_combiner 152 = Some (pgraph_method_inc SET_COMBINER_ALPHA_ICW 0x280)"
    by (simp add: kelvin_flip_combiner_def)
  have 4: "\<not> squash pg 0x260 ps 3" for pg by (simp add: squash_def)
  have "kelvin_method kelvin_env d2 0 0x260 p ps 3 3 True =
    Inr (3, d2\<lparr>pgraph := pgraph_reg_w (pgraph_reg_w (pgraph_reg_w (pgraph d2) 0x18C0 (ps 0)) 0x18C4 (ps 1)) 0x18C8 (ps 2)\<rparr>)" for d2
    unfolding kelvin_method_def using 3 4 by (simp add: kelvin_env_def combiner_run)
  then show ?thesis
    unfolding pgraph_method_def Let_def 1 using 2 by (simp add: nv_val)
qed

lemma run_example_puller:
  assumes a: "pgraph d = pgraph run_example" "pfifo_regs d NV_PFIFO_CACHE1_ENGINE = 1"
  shows "\<exists>d2. puller_method kelvin_env d 0 0x260 p ps 3 3 True = Inr (3, d2) \<and> pgraph_reg_r (pgraph d2) 0x18C8 = ps 2"
proof -
  have m: "3 = field_mask 0 2" by (simp add: field_mask_def mask_numeral)
  have acc: "can_fifo_access (pfifo_reg_w d r v)" for r v
    using a by (simp add: can_fifo_access_def run_example_def nv_addr nv_mask)
  have "GET_MASK 1 3 = 1" unfolding m by (subst GET_MASK_field) simp_all
  then show ?thesis
    using a by (simp add: puller_method_def Let_def acc run_example_engine engine_of_def)
qed

lemma method_aligned: "push_bit 2 (x :: u32) AND 3 = 0"
  unfolding and_consts by (rule bit_word_eqI) (auto simp: bit_simps)

lemma run_example_runs:
  "\<exists>d'. pusher_data kelvin_env run_example p 8 ps 3 = Inr (Next d') \<and> pgraph_reg_r (pgraph d') 0x18C8 = ps 2 \<and>
     pfifo_regs d' NV_PFIFO_CACHE1_DMA_GET = 16"
proof -
  let ?d = "pfifo_reg_w (pfifo_reg_w run_example NV_PFIFO_CACHE1_DMA_DATA_SHADOW p) NV_PFIFO_CACHE1_STATUS
     (pfifo_regs (pfifo_reg_w run_example NV_PFIFO_CACHE1_DMA_DATA_SHADOW p) NV_PFIFO_CACHE1_STATUS AND NOT NV_PFIFO_CACHE1_STATUS_LOW_MARK)"
  have st: "pfifo_puller_should_stall ?d = (False, ?d)"
    by (simp add: pfifo_puller_should_stall_def pfifo_stall_for_flip_def can_fifo_access_def run_example_def nv_addr nv_mask)
  have m: "method_entry run_example AND 0x1FFC = 0x260" "GET_MASK (method_entry run_example) NV_PFIFO_CACHE1_METHOD_SUBCHANNEL = 0"
     "GET_MASK (method_entry run_example) NV_PFIFO_CACHE1_METHOD_TYPE = 0"
     unfolding run_example_fields(3) by (simp_all add: nv_field GET_MASK_field)
  have e1: "pfifo_regs ?d NV_PFIFO_CACHE1_ENGINE = 1" "pgraph ?d = pgraph run_example" by (simp_all add: run_example_def nv_addr)
  obtain d2 where d2: "puller_method kelvin_env ?d 0 0x260 p ps 3 3 True = Inr (3, d2)" "pgraph_reg_r (pgraph d2) 0x18C8 = ps 2"
    using run_example_puller [of ?d p ps] e1 by auto
  define d3 where "d3 = pfifo_reg_w d2 NV_PFIFO_CACHE1_STATUS
                 (pfifo_regs d2 NV_PFIFO_CACHE1_STATUS OR NV_PFIFO_CACHE1_STATUS_LOW_MARK)"
  have pull: "pfifo_run_puller kelvin_env ?d (method_entry run_example) p ps 3 3 = Inr (3, d3)"
    unfolding pfifo_run_puller_def st m Let_def prod.case d3_def
    using d2 by (simp add: run_example_def nv_addr nv_field GET_MASK_field)
  have "puller_keeps ?d d3"
    using run_puller_keeps [OF engine_ok_kelvin _ _ pull] by simp
  then have "pfifo_regs d3 NV_PFIFO_CACHE1_DMA_STATE = pfifo_regs run_example NV_PFIFO_CACHE1_DMA_STATE"
    using dma_regs_distinct by (simp add: puller_keeps_def)
  then have "dma_field d3 NV_PFIFO_CACHE1_DMA_STATE_ERROR = 0"
    by (simp add: dma_field_def run_example_def nv_field GET_MASK_field)
  moreover have "min (unat (3 :: u32)) 3 = 3" "pgraph_reg_r (pgraph d3) 0x18C8 = ps 2" using d2(2) by (simp_all add: d3_def)
  ultimately show ?thesis
    unfolding pusher_data_def Let_def run_example_fields(4) using dma_regs_distinct
    by (simp only: method_aligned check_simps pull bind_res_simps prod.case) (simp add: pusher_next_ok nv_val)
qed

lemma run_example_step:
  "\<exists>d'. pusher_step kelvin_env 0 0x1000 run_example = Inr (Next d') \<and> pgraph_reg_r (pgraph d') 0x18C8 = 7 \<and>
     pfifo_regs d' NV_PFIFO_CACHE1_DMA_GET = 16 \<and> pfifo_regs d' NV_PFIFO_CACHE1_DMA_PUT = 16"
proof -
  define ps where "ps = (\<lambda>i. ldl_le_p (vram run_example) (4 + 4 * word_of_nat i))"
  obtain d' where d': "pusher_data kelvin_env run_example 5 8 ps 3 = Inr (Next d')" "pgraph_reg_r (pgraph d') 0x18C8 = ps 2"
      "pfifo_regs d' NV_PFIFO_CACHE1_DMA_GET = 16"
    using run_example_runs by blast
  have st: "\<not> pfifo_pusher_should_stall run_example"
    by (simp add: pfifo_pusher_should_stall_def can_fifo_access_def run_example_def nv_addr nv_mask)
  have w: "ldl_le_p (vram run_example) 4 = 5" "ps 2 = 7"
    by (simp_all add: ps_def ldl_le_p_def le32_def run_example_def)
  have sz: "vram_size run_example = 0x4000000" by (simp add: run_example_def)
  have s: "pusher_step kelvin_env 0 0x1000 run_example = Inr (Next d')"
    using d'(1) st w(1) sz unfolding pusher_step_def Let_def run_example_regs run_example_fields(4) ps_def by simp
  have "pfifo_regs d' NV_PFIFO_CACHE1_DMA_PUT = 16"
    by (rule pusher_data_Next [OF engine_ok_kelvin _ _ d'(1)]) (simp_all add: run_example_fields run_example_regs)
  then show ?thesis using s d'(2,3) w(2) by simp
qed

definition loop_example :: nv2a_state where
  "loop_example = run_example\<lparr>vram := (\<lambda>_. 0)(0 := 1),
     pfifo_regs := (pfifo_regs run_example)(NV_PFIFO_CACHE1_DMA_GET := 0, NV_PFIFO_CACHE1_DMA_STATE := 0)\<rparr>"

definition at_loop :: "nv2a_state \<Rightarrow> bool" where
  "at_loop d \<longleftrightarrow> vram d = vram loop_example \<and> vram_size d = vram_size loop_example \<and> pgraph d = pgraph loop_example \<and>
     pfifo_regs d NV_PFIFO_CACHE1_DMA_GET = 0 \<and> pfifo_regs d NV_PFIFO_CACHE1_DMA_PUT = 16 \<and>
     pfifo_regs d NV_PFIFO_CACHE1_DMA_STATE = 0"

lemma at_loop_start: "at_loop loop_example"
  by (simp add: at_loop_def loop_example_def run_example_def nv_addr)

lemma at_loop_jumps: "at_loop d \<Longrightarrow> takes_jump 0 d"
  by (simp add: at_loop_def takes_jump_def dma_field_def loop_example_def ldl_le_p_def le32_def pb_decode_def moves_get_def)

lemma at_loop_step: "at_loop d \<Longrightarrow> \<exists>d'. pusher_step env 0 0x1000 d = Inr (Next d') \<and> at_loop d'"
  by (simp add: at_loop_def pusher_step_def pfifo_pusher_should_stall_def can_fifo_access_def loop_example_def run_example_def
     Let_def dma_field_def ldl_le_p_def le32_def pusher_command_def pusher_next_def nv_addr nv_mask)

lemma at_loop_after: "at_loop d \<Longrightarrow> \<exists>d'. pusher_after env 0 0x1000 k d = Some d' \<and> at_loop d'"
proof (induction k arbitrary: d)
  case (Suc k)
  then show ?case using at_loop_step [of d env] by fastforce
qed simp

lemma loop_example_fields: "pusher_enabled loop_example" "pusher_mapping loop_example = Inr (0, 0x1000)"
  by code_simp+

text \<open>C3: The pusher returns exactly when it takes finitely many jumps: for an enabled pusher with its push
  buffer mapped, and an engine that leaves the FIFO's registers alone and whose method table holds handlers of the
  shapes its macros generate, a call of \<open>pfifo_run_pusher\<close> ends (normally or at an assertion) if and only if from some
  iteration on no word it executes is a jump, a call or a return.  The engine may change the push buffer meanwhile.\<close>

theorem pfifo_run_pusher_returns:
  assumes "pusher_enabled d" "pusher_mapping d = Inr (dma, len)" "engine_ok env"
  shows "(\<exists>r. pfifo_run_pusher env d = Some r) \<longleftrightarrow>
     (\<exists>n. \<forall>k\<ge>n. \<forall>d'. pusher_after env dma len k d = Some d' \<longrightarrow> \<not> takes_jump dma d')"
  using pusher_loop_returns_iff [OF assms(3), of dma len d] assms(1,2) by (simp add: pfifo_run_pusher_def)

theorem pfifo_run_pusher_returns_witness:
  "(\<exists>r. pfifo_run_pusher kelvin_env run_example = Some r) \<and> pfifo_run_pusher kelvin_env loop_example = None"
proof
  obtain d' where s: "pusher_step kelvin_env 0 0x1000 run_example = Inr (Next d')" 
    and g: "pfifo_regs d' NV_PFIFO_CACHE1_DMA_GET = 16" "pfifo_regs d' NV_PFIFO_CACHE1_DMA_PUT = 16"
    using run_example_step by blast
  have "pusher_after kelvin_env 0 0x1000 (Suc (Suc 0)) run_example = None"
    by (simp add: s) (simp add: pusher_step_def g)
  then have "pusher_after kelvin_env 0 0x1000 k run_example = None" if "Suc (Suc 0) \<le> k" for k
    using that by (rule pusher_after_None)
  then have "\<forall>k\<ge>Suc (Suc 0). \<forall>d'. pusher_after kelvin_env 0 0x1000 k run_example = Some d' \<longrightarrow> \<not> takes_jump 0 d'"
    by (simp del: pusher_after.simps)
  then show "\<exists>r. pfifo_run_pusher kelvin_env run_example = Some r"
    using pfifo_run_pusher_returns [OF run_example_fields(1,2) engine_ok_kelvin] by blast
next
  have "\<exists>k\<ge>n. \<exists>d'. pusher_after kelvin_env 0 0x1000 k loop_example = Some d' \<and> takes_jump 0 d'" for n
    using at_loop_after [OF at_loop_start, of kelvin_env n] at_loop_jumps by blast
  then show "pfifo_run_pusher kelvin_env loop_example = None"
    using pfifo_run_pusher_returns [OF loop_example_fields engine_ok_kelvin] by fastforce
qed




end
