(* ===== verification/NV2A_MMIO.thy ===== *)
theory NV2A_MMIO
  imports PFIFO
begin

unbundle bit_operations_syntax

text \<open>
  The MMIO window of the GPU: the block table of \<open>hw/xbox/nv2a/nv2a.c\<close> and the instance memory in the same
  window, the dispatch of an access, and what every sequence of accesses keeps: the consistency of the
  interrupt line.  The VGA core behind the aliased ports is an argument.
\<close>

section \<open>The VGA aliases\<close>

record vga_core =
  vga_ioport_read :: "vga_state \<Rightarrow> u32 \<Rightarrow> u32 \<times> vga_state"
  vga_ioport_write :: "vga_state \<Rightarrow> u32 \<Rightarrow> u32 \<Rightarrow> vga_state"

definition VGA_ATT_W :: hwaddr where "VGA_ATT_W = 0x3c0"

definition VGA_AR_ENABLE_DISPLAY :: u64 where "VGA_AR_ENABLE_DISPLAY = 0x20"

definition prmvio_read :: "vga_core \<Rightarrow> nv2a_state \<Rightarrow> hwaddr \<Rightarrow> u64 \<times> nv2a_state" where
  "prmvio_read core d addr =
    (let (r, v) = vga_ioport_read core (vga d) (ucast addr) in (ucast r, d\<lparr>vga := v\<rparr>))"

definition prmvio_write :: "vga_core \<Rightarrow> nv2a_state \<Rightarrow> hwaddr \<Rightarrow> u64 \<Rightarrow> nv2a_state" where
  "prmvio_write core d addr val = d\<lparr>vga := vga_ioport_write core (vga d) (ucast addr) (ucast val)\<rparr>"

definition prmcio_read :: "vga_core \<Rightarrow> nv2a_state \<Rightarrow> hwaddr \<Rightarrow> u64 \<times> nv2a_state" where
  "prmcio_read core d addr =
    (let (r, v) = vga_ioport_read core (vga d) (ucast addr) in (ucast r, d\<lparr>vga := v\<rparr>))"

definition prmcio_write :: "vga_core \<Rightarrow> nv2a_state \<Rightarrow> hwaddr \<Rightarrow> u64 \<Rightarrow> nv2a_state" where
  "prmcio_write core d addr val =
    (let val' = (if addr = VGA_ATT_W \<and> vga_ar_flip_flop (vga d) = 0 then val OR VGA_AR_ENABLE_DISPLAY else val)
     in d\<lparr>vga := vga_ioport_write core (vga d) (ucast addr) (ucast val')\<rparr>)"

section \<open>The block table\<close>

datatype nv2a_block = NV_PMC | NV_PBUS | NV_PFIFO | NV_PRMA | NV_PVIDEO | NV_PTIMER | NV_PCOUNTER
  | NV_PVPE | NV_PTV | NV_PRMFB | NV_PRMVIO | NV_PFB | NV_PSTRAPS | NV_PGRAPH | NV_PCRTC | NV_PRMCIO
  | NV_PRAMDAC | NV_PRMDIO | NV_USER

definition blocktable :: "(nv2a_block \<times> hwaddr \<times> hwaddr) list" where
  "blocktable =
    [(NV_PMC, 0x000000, 0x001000), (NV_PBUS, 0x001000, 0x001000), (NV_PFIFO, 0x002000, 0x002000),
     (NV_PRMA, 0x007000, 0x001000), (NV_PVIDEO, 0x008000, 0x001000), (NV_PTIMER, 0x009000, 0x001000),
     (NV_PCOUNTER, 0x00a000, 0x001000), (NV_PVPE, 0x00b000, 0x001000), (NV_PTV, 0x00d000, 0x001000),
     (NV_PRMFB, 0x0a0000, 0x020000), (NV_PRMVIO, 0x0c0000, 0x001000), (NV_PFB, 0x100000, 0x001000),
     (NV_PSTRAPS, 0x101000, 0x001000), (NV_PGRAPH, 0x400000, 0x002000), (NV_PCRTC, 0x600000, 0x001000),
     (NV_PRMCIO, 0x601000, 0x001000), (NV_PRAMDAC, 0x680000, 0x001000), (NV_PRMDIO, 0x681000, 0x001000),
     (NV_USER, 0x800000, 0x800000)]"

definition in_block :: "hwaddr \<Rightarrow> nv2a_block \<times> hwaddr \<times> hwaddr \<Rightarrow> bool" where
  "in_block a e = (case e of (_, off, sz) \<Rightarrow> off \<le> a \<and> a < off + sz)"

text \<open>
  The regions are registered with the memory core, which hands an access to the region it falls in.  They do not
  overlap (\<open>blocktable_sorted\<close>), so a search of the table finds that region, with the offset in it.
\<close>

definition block_of :: "hwaddr \<Rightarrow> (nv2a_block \<times> hwaddr) option" where
  "block_of a = map_option (\<lambda>(b, off, _). (b, a - off)) (find (in_block a) blocktable)"

text \<open>The instance memory is a RAM region of the window: little-endian accesses of one to eight bytes.\<close>

abbreviation (input) RAMIN_OFFSET :: hwaddr where "RAMIN_OFFSET \<equiv> 0x700000"

definition in_ramin :: "hwaddr \<Rightarrow> bool" where
  "in_ramin a \<longleftrightarrow> RAMIN_OFFSET \<le> a \<and> a < RAMIN_OFFSET + ramin_size"

definition ram_write :: "(hwaddr \<Rightarrow> u8) \<Rightarrow> hwaddr \<Rightarrow> u64 \<Rightarrow> nat \<Rightarrow> hwaddr \<Rightarrow> u8" where
  "ram_write m a val sz = (\<lambda>x. if unat (x - a) < sz then ucast (drop_bit (8 * unat (x - a)) val) else m x)"

fun ram_read :: "(hwaddr \<Rightarrow> u8) \<Rightarrow> hwaddr \<Rightarrow> nat \<Rightarrow> u64" where
  "ram_read m a 0 = 0"
| "ram_read m a (Suc n) = ucast (m a) OR push_bit 8 (ram_read m (a + 1) n)"

section \<open>Dispatch\<close>

definition mmio_write :: "vga_core \<Rightarrow> nv2a_state \<Rightarrow> hwaddr \<Rightarrow> u64 \<Rightarrow> u32 \<Rightarrow> nv2a_state res" where
  "mmio_write core d addr val sz =
    (case block_of addr of
       None \<Rightarrow>
         Inr (if in_ramin addr then d\<lparr>ramin := ram_write (ramin d) (addr - RAMIN_OFFSET) val (unat sz)\<rparr> else d)
     | Some (b, a) \<Rightarrow>
        (case b of
           NV_PMC \<Rightarrow> Inr (pmc_write d a val)
         | NV_PBUS \<Rightarrow> Inr (pbus_write d a val)
         | NV_PFIFO \<Rightarrow> Inr (pfifo_write d a val)
         | NV_PVIDEO \<Rightarrow> Inr (pvideo_write d a val)
         | NV_PTIMER \<Rightarrow> Inr (ptimer_write d a val)
         | NV_PRMVIO \<Rightarrow> Inr (prmvio_write core d a val)
         | NV_PFB \<Rightarrow> Inr (pfb_write d a val)
         | NV_PGRAPH \<Rightarrow> pgraph_write d a val
         | NV_PCRTC \<Rightarrow> Inr (pcrtc_write d a val)
         | NV_PRMCIO \<Rightarrow> Inr (prmcio_write core d a val)
         | NV_PRAMDAC \<Rightarrow> Inr (pramdac_write d a val)
         | NV_PRMDIO \<Rightarrow> Inr (prmdio_write d a val)
         | NV_USER \<Rightarrow> user_write d a val
         | _ \<Rightarrow> Inr d))"

definition mmio_read :: "vga_core \<Rightarrow> u64 \<Rightarrow> nv2a_state \<Rightarrow> hwaddr \<Rightarrow> u32 \<Rightarrow> (u64 \<times> nv2a_state) res" where
  "mmio_read core now d addr sz =
    (case block_of addr of
       None \<Rightarrow> Inr (if in_ramin addr then ram_read (ramin d) (addr - RAMIN_OFFSET) (unat sz) else 0, d)
     | Some (b, a) \<Rightarrow>
        (case b of
           NV_PMC \<Rightarrow> Inr (pmc_read d a, d)
         | NV_PBUS \<Rightarrow> Inr (pbus_read d a, d)
         | NV_PFIFO \<Rightarrow> Inr (pfifo_read d a, d)
         | NV_PVIDEO \<Rightarrow> Inr (pvideo_read d a, d)
         | NV_PTIMER \<Rightarrow> bind_res (ptimer_read now d a) (\<lambda>r. Inr (r, d))
         | NV_PRMVIO \<Rightarrow> Inr (prmvio_read core d a)
         | NV_PFB \<Rightarrow> Inr (pfb_read d a, d)
         | NV_PGRAPH \<Rightarrow> pgraph_read d a
         | NV_PCRTC \<Rightarrow> Inr (pcrtc_read d a)
         | NV_PRMCIO \<Rightarrow> Inr (prmcio_read core d a)
         | NV_PRAMDAC \<Rightarrow> bind_res (pramdac_read d a sz) (\<lambda>r. Inr (r, d))
         | NV_PRMDIO \<Rightarrow> Inr (prmdio_read d a, d)
         | NV_USER \<Rightarrow> bind_res (user_read d a) (\<lambda>r. Inr (r, d))
         | _ \<Rightarrow> Inr (0, d)))"

interpretation pfifo: intr_block pfifo_pending_interrupts pfifo_enabled_interrupts
  "\<lambda>d. pfifo_write d NV_PFIFO_INTR_0" "\<lambda>d. pfifo_write d NV_PFIFO_INTR_EN_0"
  by unfold_locales (simp_all add: pfifo_write_def pfifo_kick_def nv_addr)

section \<open>Regions do not overlap\<close>

definition entry_less :: "nv2a_block \<times> hwaddr \<times> hwaddr \<Rightarrow> nv2a_block \<times> hwaddr \<times> hwaddr \<Rightarrow> bool" where
  "entry_less e f = (case e of (_, off, sz) \<Rightarrow> case f of (_, off', _) \<Rightarrow> off + sz \<le> off')"

lemma blocktable_sorted: "sorted_wrt entry_less blocktable"
  by (simp add: blocktable_def entry_less_def)

lemma ramin_no_block: "in_ramin a \<Longrightarrow> block_of a = None"
proof -
  assume "in_ramin a"
  then have "\<forall>e \<in> set blocktable. \<not> in_block a e"
    by (auto simp: blocktable_def in_block_def in_ramin_def ramin_size_def word_le_nat_alt word_less_nat_alt)
  then show ?thesis by (simp add: block_of_def find_None_iff)
qed

section \<open>The interrupt state under accesses\<close>

text \<open>The registers whose write aggregates the interrupts anew.\<close>

fun refresh_reg :: "nv2a_block \<Rightarrow> hwaddr \<Rightarrow> bool" where
  "refresh_reg NV_PMC a \<longleftrightarrow> a = NV_PMC_INTR_0 \<or> a = NV_PMC_INTR_EN_0"
| "refresh_reg NV_PFIFO a \<longleftrightarrow> a = NV_PFIFO_INTR_0 \<or> a = NV_PFIFO_INTR_EN_0"
| "refresh_reg NV_PTIMER a \<longleftrightarrow> a = NV_PTIMER_INTR_0 \<or> a = NV_PTIMER_INTR_EN_0"
| "refresh_reg NV_PCRTC a \<longleftrightarrow> a = NV_PCRTC_INTR_0 \<or> a = NV_PCRTC_INTR_EN_0"
| "refresh_reg _ a \<longleftrightarrow> False"

text \<open>The interrupt registers of PGRAPH, whose write does not.\<close>

fun pg_irq_reg :: "nv2a_block \<Rightarrow> hwaddr \<Rightarrow> bool" where
  "pg_irq_reg NV_PGRAPH a \<longleftrightarrow> a = NV_PGRAPH_INTR \<or> a = NV_PGRAPH_INTR_EN"
| "pg_irq_reg _ a \<longleftrightarrow> False"

lemma pg_irq_regD: "pg_irq_reg b a \<Longrightarrow> b = NV_PGRAPH"
  by (cases b) simp_all

lemma irq_inv_kick [simp]: "irq_inv (pfifo_kick d) = irq_inv d"
  by (simp add: pfifo_kick_def irq_inv_def)

lemma pfifo_write_irq:
  "a = NV_PFIFO_INTR_0 \<or> a = NV_PFIFO_INTR_EN_0 \<Longrightarrow> irq_inv (pfifo_write d a v)"
  "\<not> (a = NV_PFIFO_INTR_0 \<or> a = NV_PFIFO_INTR_EN_0) \<Longrightarrow> irq_same d (pfifo_write d a v)"
  "\<not> (a = NV_PFIFO_INTR_0 \<or> a = NV_PFIFO_INTR_EN_0) \<Longrightarrow> pg_irq_same d (pfifo_write d a v)"
  by (auto simp: pfifo_write_def) (simp_all add: pfifo_kick_def pfifo_reg_w_def irq_same_def pg_irq_same_def)

lemma quiet_vga:
  "irq_same d (prmvio_write core d a v)" "pg_irq_same d (prmvio_write core d a v)"
  "irq_same d (prmcio_write core d a v)" "pg_irq_same d (prmcio_write core d a v)"
  "irq_same d (snd (prmvio_read core d a))" "pg_irq_same d (snd (prmvio_read core d a))"
  "irq_same d (snd (prmcio_read core d a))" "pg_irq_same d (snd (prmcio_read core d a))"
  by (simp_all add: irq_same_def pg_irq_same_def prmvio_write_def prmcio_write_def prmvio_read_def prmcio_read_def split_beta)

lemma pgraph_write_irq:
  assumes "pgraph_write d a v = Inr d'"
  shows "irq_same d d'" "\<not> (a = NV_PGRAPH_INTR \<or> a = NV_PGRAPH_INTR_EN) \<Longrightarrow> pg_irq_same d d'"
    "pg_pending_interrupts (pgraph d') = (if a = NV_PGRAPH_INTR then pg_pending_interrupts (pgraph d) AND NOT (ucast v)
       else pg_pending_interrupts (pgraph d))"
  using assms
  by (auto simp: pgraph_write_def Let_def pfifo_kick_def pgraph_ack_def pgraph_rdi_write_def rdi_step_def bind_res_eq_Inr
      irq_same_def pg_irq_same_def nv_addr split: if_splits)

lemma pgraph_read_irq: "pgraph_read d a = Inr (r, d') \<Longrightarrow> irq_same d d' \<and> pg_irq_same d d'"
  by (auto simp: pgraph_read_def Let_def bind_res_eq_Inr rdi_step_def irq_same_def pg_irq_same_def split: if_splits)


lemma mmio_write_irq:
  assumes "mmio_write core d addr val sz = Inr d'"
  shows "case block_of addr of Some (b, a) \<Rightarrow>
      if refresh_reg b a then irq_inv d' else irq_same d d' \<and> (pg_irq_reg b a \<or> pg_irq_same d d')
    | None \<Rightarrow> irq_same d d' \<and> pg_irq_same d d'"
proof (cases "block_of addr")
  case None
  then show ?thesis using assms by (cases "in_ramin addr") (auto simp: mmio_write_def irq_same_def pg_irq_same_def)
next
  case (Some p)
  obtain b a where p: "p = (b, a)" by fastforce
  show ?thesis
    using assms Some p
    by (cases b) (auto simp: mmio_write_def pmc_write_irq ptimer_write_irq pcrtc_write_irq pfifo_write_irq quiet_writes quiet_vga
      intro: user_write_irq pgraph_write_irq)
qed

lemma mmio_read_irq:
  assumes "mmio_read core now d addr sz = Inr (r, d')"
  shows "irq_same d d' \<and> pg_irq_same d d'"
proof (cases "block_of addr")
  case None
  then show ?thesis using assms by (auto simp: mmio_read_def)
next
  case (Some p)
  obtain b a where p: "p = (b, a)" by fastforce
  show ?thesis
    using assms Some p pgraph_read_irq [of d a r d'] quiet_writes(11,12) [of d a] quiet_vga(5-8) [of d core a]
    by (cases b) (auto simp: mmio_read_def bind_res_eq_Inr)
qed

section \<open>Runs of the device\<close>

text \<open>
  Accesses of the guest, the vertical blank and the context switch trap of the FIFO thread.  A run collects its
  events, the last one first.
\<close>

datatype nv2a_event = Mmio_W hwaddr u64 u32 | Mmio_R u64 hwaddr u32 | Vblank | Context_switch u32

inductive nv2a_run :: "vga_core \<Rightarrow> nv2a_state \<Rightarrow> nv2a_event list \<Rightarrow> nv2a_state \<Rightarrow> bool" for core d where
  start: "nv2a_run core d [] d"
| access_write: "nv2a_run core d evs d1 \<Longrightarrow> mmio_write core d1 addr val sz = Inr d2 \<Longrightarrow>
    nv2a_run core d (Mmio_W addr val sz # evs) d2"
| access_read: "nv2a_run core d evs d1 \<Longrightarrow> mmio_read core now d1 addr sz = Inr (r, d2) \<Longrightarrow>
    nv2a_run core d (Mmio_R now addr sz # evs) d2"
| vblank: "nv2a_run core d evs d1 \<Longrightarrow> nv2a_run core d (Vblank # evs) (nv2a_vga_gfx_update d1)"
| context_switch: "nv2a_run core d evs d1 \<Longrightarrow> pgraph_context_switch d1 c = Inr d2 \<Longrightarrow>
    nv2a_run core d (Context_switch c # evs) d2"

inductive_cases nv2a_run_NilE: "nv2a_run core d [] d'"
inductive_cases nv2a_run_WriteE: "nv2a_run core d (Mmio_W addr val sz # evs) d'"
inductive_cases nv2a_run_ReadE: "nv2a_run core d (Mmio_R now addr sz # evs) d'"

fun refreshes :: "nv2a_event \<Rightarrow> bool" where
  "refreshes (Mmio_W addr val sz) \<longleftrightarrow> (case block_of addr of Some (b, a) \<Rightarrow> refresh_reg b a | None \<Rightarrow> False)"
| "refreshes Vblank \<longleftrightarrow> True"
| "refreshes _ \<longleftrightarrow> False"





lemma mmio_write_quiet:
  assumes "mmio_write core d addr val sz = Inr d'" "\<not> refreshes (Mmio_W addr val sz)"
  shows "irq_same d d' \<and> (pg_pending_interrupts (pgraph d) = 0 \<longrightarrow> pg_pending_interrupts (pgraph d') = 0)"
proof (cases "\<exists>a. block_of addr = Some (NV_PGRAPH, a)")
  case True
  then obtain a where "pgraph_write d a val = Inr d'" using assms(1) by (auto simp: mmio_write_def)
  then show ?thesis using pgraph_write_irq by simp
next
  case False
  then have "\<not> (case block_of addr of Some (b, a) \<Rightarrow> pg_irq_reg b a | None \<Rightarrow> False)"
    by (auto split: option.split dest: pg_irq_regD)
  then show ?thesis using mmio_write_irq [OF assms(1)] assms(2)
    by (auto simp: pg_irq_same_def split: option.splits)
qed

lemma quiet_run:
  assumes "nv2a_run core d evs d'" "\<forall>ev \<in> set evs. \<not> refreshes ev \<and> (\<forall>c. ev \<noteq> Context_switch c)"
  shows "irq_same d d' \<and> (pg_pending_interrupts (pgraph d) = 0 \<longrightarrow> pg_pending_interrupts (pgraph d') = 0)"
  using assms
proof (induction rule: nv2a_run.induct)
  case (access_write evs d1 addr val sz d2)
  then show ?case using mmio_write_quiet [OF access_write.hyps(2)] by (auto simp: irq_same_def)
next
  case (access_read evs d1 now addr sz r d2)
  then show ?case using mmio_read_irq [OF access_read.hyps(2)] by (auto simp: irq_same_def pg_irq_same_def)
qed auto

lemma and_cleared: "(((p AND w) AND m) AND n) AND NOT p = (0 :: u32)"
  by (rule bit_word_eqI) (auto simp: bit_simps)

text \<open>C31: Acknowledging PGRAPH's interrupts does not lower the line.  When PGRAPH alone holds it up and the guest clears all its
  pending interrupts, the line is still up, with no unit pending, after any further accesses that do not write an
  interrupt register of PMC, PFIFO, PTIMER or PCRTC and before the next vertical blank or trap.  A write of the PMC
  status register then lowers it.\<close>

theorem pgraph_ack_leaves_line:
  assumes "irq_inv d" "irq_asserted d" "pmc_pending_interrupts d = NV_PMC_INTR_0_PGRAPH"
    and "pg_pending_interrupts (pgraph d) AND NOT (ucast v) = 0" "mmio_write core d 0x400100 v 4 = Inr d1"
    and "nv2a_run core d1 evs d2" "\<forall>ev \<in> set evs. \<not> refreshes ev \<and> (\<forall>c. ev \<noteq> Context_switch c)"
  shows "irq_asserted d2 \<and> pfifo_pending_interrupts d2 AND pfifo_enabled_interrupts d2 = 0 \<and>
    pcrtc_pending_interrupts d2 AND pcrtc_enabled_interrupts d2 = 0 \<and> pg_pending_interrupts (pgraph d2) = 0 \<and>
    \<not> irq_asserted (pmc_write d2 NV_PMC_INTR_0 w)"
proof -
  have ack: "pgraph_write d NV_PGRAPH_INTR v = Inr d1"
    using assms(5) by (simp add: mmio_write_def block_of_def blocktable_def in_block_def nv_addr)
  then have "irq_same d d1" "pg_pending_interrupts (pgraph d1) = 0" using pgraph_write_irq [OF ack] assms(4) by simp_all
  with quiet_run [OF assms(6,7)] have s: "irq_same d d2" "pg_pending_interrupts (pgraph d2) = 0"
    by (auto simp: irq_same_def)
  then have q: "pfifo_pending_interrupts d2 AND pfifo_enabled_interrupts d2 = 0" "pcrtc_pending_interrupts d2 AND pcrtc_enabled_interrupts d2 = 0"
    using assms(1,3) by (simp_all add: irq_inv_def irq_same_def nv_mask bit_numeral_simps)
  have "pmc_pending_interrupts d2 = NV_PMC_INTR_0_PGRAPH" using s(1) assms(3) by (simp add: irq_same_def)
  then have "\<not> irq_asserted (pmc_write d2 NV_PMC_INTR_0 w)"
    using q s(2) by (simp add: pmc_write_def nv2a_update_irq_def set_pending_def Let_def and_cleared)
  then show ?thesis using s q assms(2) by (simp add: irq_same_def)
qed

text \<open>PGRAPH holds the line up.\<close>

definition pg_pending_state :: nv2a_state where
  "pg_pending_state = nv2a_state_zero\<lparr>pmc_pending_interrupts := NV_PMC_INTR_0_PGRAPH, pmc_enabled_interrupts := 1, irq_asserted := True,
     pgraph := pgraph_state_zero\<lparr>pg_pending_interrupts := 1, pg_enabled_interrupts := 1\<rparr>\<rparr>"

theorem pgraph_ack_leaves_line_witness:
  "\<exists>d1 d2. mmio_write undefined pg_pending_state 0x400100 1 4 = Inr d1 \<and>
    nv2a_run undefined d1 [Mmio_R 0 0x100 4] d2 \<and> irq_asserted d2 \<and> \<not> irq_asserted (pmc_write d2 NV_PMC_INTR_0 0)"
proof -
  obtain d1 where w: "mmio_write undefined pg_pending_state 0x400100 1 4 = Inr d1"
    by (simp add: mmio_write_def block_of_def blocktable_def in_block_def pgraph_write_def nv_addr)
  have "mmio_read undefined 0 d1 0x100 4 = Inr (pmc_read d1 0x100, d1)"
    by (simp add: mmio_read_def block_of_def blocktable_def in_block_def)
  then have r: "nv2a_run undefined d1 [Mmio_R 0 0x100 4] d1" by (rule nv2a_run.access_read [OF nv2a_run.start])
  have inv: "irq_inv pg_pending_state" "irq_asserted pg_pending_state" "pmc_pending_interrupts pg_pending_state = NV_PMC_INTR_0_PGRAPH"
      "pg_pending_interrupts (pgraph pg_pending_state) AND NOT (ucast (1 :: u64)) = 0"
    by (simp_all add: pg_pending_state_def irq_inv_def nv_mask)
  have "\<forall>ev \<in> set [Mmio_R 0 0x100 4]. \<not> refreshes ev \<and> (\<forall>c. ev \<noteq> Context_switch c)" by simp
  then show ?thesis using pgraph_ack_leaves_line [OF inv w r, of 0] w r by blast
qed

section \<open>Instance memory\<close>

lemma ram_write_other: "\<not> unat (x - a) < n \<Longrightarrow> ram_write m a v n x = m x"
  by (simp add: ram_write_def)

lemma ldl_ram_write: "ldl_le_p (ram_write m a v 4) a = ucast v"
proof -
  have b: "ucast (drop_bit (8 * i) v) = byte_of (ucast v) i" if "i < 4" for i
    using that by (intro bit_word_eqI) (auto simp: byte_of_def bit_simps)
  have "ldl_le_p (ram_write m a v 4) a = le32 (byte_of (ucast v) 0) (byte_of (ucast v) 1) (byte_of (ucast v) 2) (byte_of (ucast v) 3)"
    using b [of 0] b [of 1] b [of 2] b [of 3] by (simp add: ldl_le_p_def ram_write_def)
  then show ?thesis by (simp only: le32_bytes)
qed

lemma ldl_ram_write_other:
  assumes "unat (b - a) + 4 \<le> 2 ^ 64" "4 \<le> unat (b - a)"
  shows "ldl_le_p (ram_write m a v 4) b = ldl_le_p m b"
proof -
  have "unat (b + of_nat i - a) = unat (b - a) + i" if "i < 4" for i :: nat
  proof -
    have e: "b + of_nat i - a = (b - a) + of_nat i" by simp
    have "unat (b - a) + unat (of_nat i :: hwaddr) < 2 ^ 64" using assms(1) that by (simp add: unat_of_nat)
    then show ?thesis unfolding e using that by (simp add: unat_add_lem [THEN iffD1] unat_of_nat)
  qed
  from this [of 0] this [of 1] this [of 2] this [of 3]
  show ?thesis using assms(2) by (simp add: ldl_le_p_def ram_write_def)
qed

lemma mmio_write_ramin:
  assumes "unat a + 4 \<le> 0x100000"
  shows "mmio_write core d (RAMIN_OFFSET + a) v 4 = Inr (d\<lparr>ramin := ram_write (ramin d) a v 4\<rparr>)"
proof -
  have "unat (RAMIN_OFFSET + a) = 0x700000 + unat a" using assms by (simp add: unat_word_ariths)
  then have "in_ramin (RAMIN_OFFSET + a)" using assms by (simp add: in_ramin_def ramin_size_def word_le_nat_alt word_less_nat_alt)
  then show ?thesis by (simp add: mmio_write_def ramin_no_block)
qed

lemma dma_flags_fields:
  assumes "cl < 0x1000" "tg < 4"
  shows "GET_MASK (cl OR push_bit 16 tg OR push_bit 20 (adr AND 0xFFF)) NV_DMA_CLASS = cl"
    "GET_MASK (cl OR push_bit 16 tg OR push_bit 20 (adr AND 0xFFF)) NV_DMA_TARGET = tg"
    "((adr AND 0xFFFFF000) AND NV_DMA_ADDRESS) OR GET_MASK (cl OR push_bit 16 tg OR push_bit 20 (adr AND 0xFFF)) NV_DMA_ADJUST = adr"
proof -
  have m: "(0xFFF :: u32) = mask 12" "(0xFFFFF000 :: u32) = field_mask 12 20" by (simp_all add: mask_eq_exp_minus_1 field_mask_def)
  have "take_bit 12 cl = cl" "take_bit 2 tg = tg"
    using assms by (simp_all add: word_unat_eq_iff unat_take_bit_mod word_less_nat_alt)
  then have c: "\<not> bit cl n" if "12 \<le> n" for n using that by (metis bit_take_bit_iff not_le)
  have t: "\<not> bit tg n" if "2 \<le> n" for n using that \<open>take_bit 2 tg = tg\<close> by (metis bit_take_bit_iff not_le)
  show "GET_MASK (cl OR push_bit 16 tg OR push_bit 20 (adr AND 0xFFF)) NV_DMA_CLASS = cl"
    unfolding nv_field m by (rule bit_word_eqI) (auto simp: GET_MASK_field bit_simps c)
  show "GET_MASK (cl OR push_bit 16 tg OR push_bit 20 (adr AND 0xFFF)) NV_DMA_TARGET = tg"
    unfolding nv_field m by (rule bit_word_eqI) (auto simp: GET_MASK_field bit_simps c t)
  show "((adr AND 0xFFFFF000) AND NV_DMA_ADDRESS) OR GET_MASK (cl OR push_bit 16 tg OR push_bit 20 (adr AND 0xFFF)) NV_DMA_ADJUST = adr"
    unfolding nv_field m by (rule bit_word_eqI) (auto simp: GET_MASK_field bit_simps bit_field_mask c t)
qed

text \<open>C25: A DMA object the guest stores in the instance memory, three words through the MMIO window, is the object the device
  loads from there: class, target, address (its low twelve bits in the flags, the rest in the frame word) and limit; no
  other byte of the instance memory changes.\<close>

theorem dma_object_round_trip:
  assumes "unat a + 12 \<le> unat ramin_size" "cl < 0x1000" "tg < 4"
  shows "\<exists>d'. fold_res (\<lambda>(o1, w) d. mmio_write core d (RAMIN_OFFSET + (a + o1)) (ucast w) 4)
      [(0, cl OR push_bit 16 tg OR push_bit 20 (adr AND 0xFFF)), (4, lim), (8, adr AND 0xFFFFF000)] d = Inr d' \<and>
    nv_dma_load d' a = Inr \<lparr>dma_class = cl, dma_target = tg, dma_address = ucast adr, dma_limit = ucast (lim :: u32)\<rparr> \<and>
    (\<forall>x. \<not> unat (x - a) < 12 \<longrightarrow> ramin d' x = ramin d x)"
proof -
  define f g where "f = (cl OR push_bit 16 tg OR push_bit 20 (adr AND 0xFFF))" and "g = adr AND 0xFFFFF000"
  note fields = dma_flags_fields [OF assms(2,3), of adr, folded f_def g_def]
  let ?m = "ram_write (ram_write (ram_write (ramin d) a (ucast f) 4) (a + 4) (ucast lim) 4) (a + 8) (ucast g) 4"
  have a: "unat a + 12 \<le> 0x100000" using assms(1) by (simp add: ramin_size_def)
  then have u: "unat (a + 4) = unat a + 4" "unat (a + 8) = unat a + 8" "unat (a + 12) = unat a + 12" by (simp_all add: unat_word_ariths)
  have w: "fold_res (\<lambda>(o1, w) d. mmio_write core d (RAMIN_OFFSET + (a + o1)) (ucast w) 4) [(0, f), (4, lim), (8, g)] d =
      Inr (d\<lparr>ramin := ?m\<rparr>)"
    using a u mmio_write_ramin [of a] mmio_write_ramin [of "a + 4"] mmio_write_ramin [of "a + 8"] by simp
  have d: "a - (a + 4) = -4" "a - (a + 8) = -8" "a + 4 - (a + 8) = -4" by simp_all
  have l: "ldl_le_p ?m a = f" "ldl_le_p ?m (a + 4) = lim" "ldl_le_p ?m (a + 8) = g"
    by (simp_all add: ldl_ram_write ldl_ram_write_other d)
  have "nv_dma_load (d\<lparr>ramin := ?m\<rparr>) a = Inr \<lparr>dma_class = cl, dma_target = tg, dma_address = ucast adr, dma_limit = ucast lim\<rparr>"
    using a u(3) fields by (simp add: nv_dma_load_def l ramin_size_def word_less_nat_alt word_le_nat_alt)
  moreover have "?m x = ramin d x" if "\<not> unat (x - a) < 12" for x
  proof -
    have s: "unat (x - (a + of_nat k)) = unat (x - a) - k" if "k \<le> 8" for k
    proof -
      have e: "x - (a + of_nat k) = (x - a) - of_nat k" by simp
      have "of_nat k \<le> x - a" using that \<open>\<not> unat (x - a) < 12\<close> by (simp add: word_le_nat_alt unat_of_nat)
      then show ?thesis unfolding e using that by (simp add: unat_sub unat_of_nat)
    qed
    show ?thesis using that s [of 4] s [of 8] by (simp add: ram_write_other)
  qed
  ultimately show ?thesis using w unfolding f_def [symmetric] g_def [symmetric] by (intro exI [of _ "d\<lparr>ramin := ?m\<rparr>"]) simp
qed

theorem dma_object_round_trip_witness:
  "\<exists>d'. fold_res (\<lambda>(o1, w) d. mmio_write undefined d (RAMIN_OFFSET + (0x20 + o1)) (ucast w) 4)
      [(0, 0x3D OR push_bit 16 3 OR push_bit 20 (0x12345678 AND 0xFFF) :: u32), (4, 0xFFFF), (8, 0x12345678 AND 0xFFFFF000)] nv2a_state_zero = Inr d' \<and>
    nv_dma_load d' 0x20 = Inr \<lparr>dma_class = 0x3D, dma_target = 3, dma_address = 0x12345678, dma_limit = 0xFFFF\<rparr>"
proof -
  have "unat (0x20 :: hwaddr) + 12 \<le> unat ramin_size" "(0x3D :: u32) < 0x1000" "(3 :: u32) < 4" by (simp_all add: ramin_size_def)
  from dma_object_round_trip [OF this, of undefined "0x12345678" "0xFFFF" nv2a_state_zero]
  show ?thesis by auto
qed

end
