(* ===== verification/Swizzle.thy ===== *)
theory Swizzle
  imports Xbox_Prelude
begin

unbundle bit_operations_syntax

text \<open>
  Swizzled textures (\<open>hw/xbox/nv2a/pgraph/swizzle.c\<close> and \<open>swizzle.h\<close>): the interleaving masks of the
  three dimensions, the walk that steps an offset through the bits of a mask, and the copies
  between the linear and the swizzled layout.  A buffer is a function from its byte offset.
  Offsets are computed in 32 bits and added to pointers, as in the source.
\<close>

section \<open>Interleaving masks\<close>

text \<open>
  The loop doubles \<open>b\<close> until no dimension is larger.  For a dimension above \<open>2 ^ 31\<close> it would go
  on for ever, so it is a partial function.
\<close>

partial_function (option) mask_loop ::
  "u32 \<Rightarrow> u32 \<Rightarrow> u32 \<Rightarrow> u32 \<Rightarrow> u32 \<Rightarrow> u32 \<Rightarrow> u32 \<Rightarrow> u32 \<Rightarrow> (u32 \<times> u32 \<times> u32 \<times> u32) option" where
  "mask_loop width height depth x y z b mask_bit =
    (let (x1, m1, d1) = (if b < width then (x OR mask_bit, push_bit 1 mask_bit, False) else (x, mask_bit, True));
         (y1, m2, d2) = (if b < height then (y OR m1, push_bit 1 m1, False) else (y, m1, d1));
         (z1, m3, d3) = (if b < depth then (z OR m2, push_bit 1 m2, False) else (z, m2, d2))
     in if \<not> d3 then mask_loop width height depth x1 y1 z1 (push_bit 1 b) m3 else Some (x1, y1, z1, m3))"

definition generate_swizzle_masks :: "u32 \<Rightarrow> u32 \<Rightarrow> u32 \<Rightarrow> (u32 \<times> u32 \<times> u32) res option" where
  "generate_swizzle_masks width height depth =
     map_option (\<lambda>(x, y, z, mask_bit).
         check (x XOR y XOR z = mask_bit - 1) (AssertFail ''(x ^ y ^ z) == (mask_bit - 1)'') (Inr (x, y, z)))
       (mask_loop width height depth 0 0 0 1 1)"

section \<open>Copies\<close>

text \<open>The increment that ripples through the bits outside the mask.\<close>

definition next_off :: "u32 \<Rightarrow> u32 \<Rightarrow> u32" where
  "next_off m off = (off - m) AND m"

definition memcpy :: "(nat \<Rightarrow> u8) \<Rightarrow> nat \<Rightarrow> (nat \<Rightarrow> u8) \<Rightarrow> nat \<Rightarrow> nat \<Rightarrow> nat \<Rightarrow> u8" where
  "memcpy dst d src s n = (\<lambda>i. if d \<le> i \<and> i < d + n then src (s + (i - d)) else dst i)"

text \<open>
  The three loops the two directions share.  \<open>copy\<close> is given the linear and the swizzled offset
  of a pixel; the last arguments of a loop are the iterations left, the counter and the offset.
\<close>

fun x_loop :: "(nat \<Rightarrow> nat \<Rightarrow> 'm \<Rightarrow> 'm) \<Rightarrow> u32 \<Rightarrow> u32 \<Rightarrow> nat \<Rightarrow> nat \<Rightarrow> nat \<Rightarrow> u32 \<Rightarrow> u32 \<Rightarrow> 'm \<Rightarrow> 'm" where
  "x_loop copy mask_x bpp lin swz 0 x off_x mem = mem"
| "x_loop copy mask_x bpp lin swz (Suc n) x off_x mem =
     x_loop copy mask_x bpp lin swz n (x + 1) (next_off mask_x off_x)
       (copy (lin + unat (x * bpp)) (swz + unat (off_x * bpp)) mem)"

fun y_loop :: "(nat \<Rightarrow> nat \<Rightarrow> 'm \<Rightarrow> 'm) \<Rightarrow> u32 \<Rightarrow> u32 \<Rightarrow> u32 \<Rightarrow> u32 \<Rightarrow> u32 \<Rightarrow> nat \<Rightarrow> u32 \<Rightarrow> nat \<Rightarrow> u32 \<Rightarrow> u32 \<Rightarrow> 'm \<Rightarrow> 'm" where
  "y_loop copy mask_x mask_y width row_pitch bpp lin off_z 0 y off_y mem = mem"
| "y_loop copy mask_x mask_y width row_pitch bpp lin off_z (Suc n) y off_y mem =
     y_loop copy mask_x mask_y width row_pitch bpp lin off_z n (y + 1) (next_off mask_y off_y)
       (x_loop copy mask_x bpp (lin + unat (y * row_pitch)) (unat ((off_y + off_z) * bpp)) (unat width) 0 0 mem)"

fun z_loop :: "(nat \<Rightarrow> nat \<Rightarrow> 'm \<Rightarrow> 'm) \<Rightarrow> u32 \<times> u32 \<times> u32 \<Rightarrow> u32 \<Rightarrow> u32 \<Rightarrow> u32 \<Rightarrow> u32 \<Rightarrow> u32 \<Rightarrow> nat \<Rightarrow> nat \<Rightarrow> u32 \<Rightarrow> 'm \<Rightarrow> 'm" where
  "z_loop copy (mask_x, mask_y, mask_z) width height row_pitch slice_pitch bpp 0 lin off_z mem = mem"
| "z_loop copy (mask_x, mask_y, mask_z) width height row_pitch slice_pitch bpp (Suc n) lin off_z mem =
     z_loop copy (mask_x, mask_y, mask_z) width height row_pitch slice_pitch bpp n
       (lin + unat slice_pitch) (next_off mask_z off_z)
       (y_loop copy mask_x mask_y width row_pitch bpp lin off_z (unat height) 0 0 mem)"

definition swizzle_box ::
  "(nat \<Rightarrow> u8) \<Rightarrow> u32 \<Rightarrow> u32 \<Rightarrow> u32 \<Rightarrow> (nat \<Rightarrow> u8) \<Rightarrow> u32 \<Rightarrow> u32 \<Rightarrow> u32 \<Rightarrow> (nat \<Rightarrow> u8) res option" where
  "swizzle_box src_buf width height depth dst_buf row_pitch slice_pitch bytes_per_pixel =
     map_option (\<lambda>r. bind_res r (\<lambda>masks. Inr
       (z_loop (\<lambda>lin swz mem. memcpy mem swz src_buf lin (unat bytes_per_pixel)) masks width height
          row_pitch slice_pitch bytes_per_pixel (unat depth) 0 0 dst_buf)))
       (generate_swizzle_masks width height depth)"

definition unswizzle_box ::
  "(nat \<Rightarrow> u8) \<Rightarrow> u32 \<Rightarrow> u32 \<Rightarrow> u32 \<Rightarrow> (nat \<Rightarrow> u8) \<Rightarrow> u32 \<Rightarrow> u32 \<Rightarrow> u32 \<Rightarrow> (nat \<Rightarrow> u8) res option" where
  "unswizzle_box src_buf width height depth dst_buf row_pitch slice_pitch bytes_per_pixel =
     map_option (\<lambda>r. bind_res r (\<lambda>masks. Inr
       (z_loop (\<lambda>lin swz mem. memcpy mem lin src_buf swz (unat bytes_per_pixel)) masks width height
          row_pitch slice_pitch bytes_per_pixel (unat depth) 0 0 dst_buf)))
       (generate_swizzle_masks width height depth)"

definition swizzle_rect ::
  "(nat \<Rightarrow> u8) \<Rightarrow> u32 \<Rightarrow> u32 \<Rightarrow> (nat \<Rightarrow> u8) \<Rightarrow> u32 \<Rightarrow> u32 \<Rightarrow> (nat \<Rightarrow> u8) res option" where
  "swizzle_rect src_buf width height dst_buf pitch bytes_per_pixel =
     swizzle_box src_buf width height 1 dst_buf pitch 0 bytes_per_pixel"

definition unswizzle_rect ::
  "(nat \<Rightarrow> u8) \<Rightarrow> u32 \<Rightarrow> u32 \<Rightarrow> (nat \<Rightarrow> u8) \<Rightarrow> u32 \<Rightarrow> u32 \<Rightarrow> (nat \<Rightarrow> u8) res option" where
  "unswizzle_rect src_buf width height dst_buf pitch bytes_per_pixel =
     unswizzle_box src_buf width height 1 dst_buf pitch 0 bytes_per_pixel"

section \<open>Depositing a counter in a mask\<close>

text \<open>A mask as its bits from the lowest; \<open>mask_of\<close> is its value and \<open>dep\<close> spreads a number over it.\<close>

definition mask_of :: "bool list \<Rightarrow> int" where
  "mask_of bs = horner_sum of_bool 2 bs"

fun dep :: "bool list \<Rightarrow> nat \<Rightarrow> int" where
  "dep [] n = 0"
| "dep (True # bs) n = of_bool (odd n) + 2 * dep bs (n div 2)"
| "dep (False # bs) n = 2 * dep bs n"

lemma mask_of_simps [simp]:
  "mask_of [] = 0" "mask_of (b # bs) = of_bool b + 2 * mask_of bs"
  by (simp_all add: mask_of_def)

lemma dep_0 [simp]: "dep bs 0 = 0"
  by (induction bs "0 :: nat" rule: dep.induct) simp_all

lemma dep_nonneg: "0 \<le> dep bs n"
  by (induction bs n rule: dep.induct) simp_all

lemma dep_less: "dep bs n < 2 ^ length bs"
  by (induction bs n rule: dep.induct) (auto split: if_splits)

lemma and_double: "(of_bool p + 2 * x) AND (of_bool q + 2 * y) = of_bool (p \<and> q) + 2 * (x AND y :: int)"
  by (subst and_int_rec) (cases p; cases q; simp)

lemma dep_subset: "dep bs n AND mask_of bs = dep bs n"
proof (induction bs n rule: dep.induct)
  case (2 bs n)
  then show ?case using and_double [of "odd n" "dep bs (n div 2)" True "mask_of bs"] by simp
next
  case (3 bs n)
  then show ?case using and_double [of False "dep bs n" False "mask_of bs"] by simp
qed simp

lemma ripple:
  fixes x m :: int
  assumes "x AND m = x"
  shows "(x - m - 1) AND m = x"
proof -
  have "m = (m AND NOT x) + x"
  proof -
    have "(m AND NOT x) OR (m AND x) = m" by (rule bit_eqI) (auto simp: bit_simps)
    moreover have "(m AND NOT x) + (m AND x) = (m AND NOT x) OR (m AND x)"
      by (rule disjunctive_add) (auto simp: bit_simps)
    ultimately show ?thesis using assms by (simp add: and.commute)
  qed
  then have "x - m - 1 = NOT (m AND NOT x)" by (simp add: not_int_def)
  then show ?thesis using assms by (simp add: bit.conj_disj_distrib and.commute)
qed

lemma dep_next: "(dep bs n - mask_of bs) AND mask_of bs = dep bs (Suc n)"
proof (induction bs n rule: dep.induct)
  case (1 n)
  then show ?case by simp
next
  case (2 bs n)
  show ?case
  proof (cases "odd n")
    case True
    then show ?thesis
      using 2 and_double [of False "dep bs (n div 2) - mask_of bs" True "mask_of bs"]
      by (simp add: algebra_simps)
  next
    case False
    have "dep (True # bs) n - mask_of (True # bs) = of_bool True + 2 * (dep bs (n div 2) - mask_of bs - 1)"
      using False by (simp add: algebra_simps)
    moreover have "(of_bool True + 2 * (dep bs (n div 2) - mask_of bs - 1)) AND mask_of (True # bs)
        = of_bool True + 2 * dep bs (n div 2)"
      unfolding mask_of_simps and_double ripple [OF dep_subset] by simp
    ultimately have "(dep (True # bs) n - mask_of (True # bs)) AND mask_of (True # bs)
        = of_bool True + 2 * dep bs (n div 2)" by (simp only:)
    then show ?thesis using False by (simp only: dep.simps) simp
  qed
next
  case (3 bs n)
  then show ?case using and_double [of False "dep bs n - mask_of bs" False "mask_of bs"]
    by (simp add: algebra_simps)
qed

lemma dep_inj: "dep bs m = dep bs n \<Longrightarrow> m < 2 ^ count_list bs True \<Longrightarrow> n < 2 ^ count_list bs True \<Longrightarrow> m = n"
proof (induction bs arbitrary: m n)
  case (Cons b bs)
  show ?case
  proof (cases b)
    case True
    with Cons.prems(1) have "odd m = odd n \<and> dep bs (m div 2) = dep bs (n div 2)"
      by (cases "odd m"; cases "odd n"; simp; presburger)
    moreover have "m div 2 = n div 2"
      using calculation Cons.prems True by (intro Cons.IH) auto
    ultimately show ?thesis by (metis div_mult_mod_eq odd_iff_mod_2_eq_one even_iff_mod_2_eq_zero)
  next
    case False
    then show ?thesis using Cons by simp
  qed
qed simp

lemma bit_dep: "bit (dep bs n) j \<longleftrightarrow> j < length bs \<and> bs ! j \<and> bit n (count_list (take j bs) True)"
proof (induction bs n arbitrary: j rule: dep.induct)
  case (2 bs n)
  then show ?case by (cases j) (auto simp: bit_Suc bit_0)
next
  case (3 bs n)
  then show ?case by (cases j) (auto simp: bit_Suc bit_0)
qed simp

lemma word_of_int_and: "(word_of_int (a AND b) :: 'a::len word) = word_of_int a AND word_of_int b"
  by (rule bit_word_eqI) (simp add: bit_simps)

lemma next_off_dep:
  "next_off (word_of_int (mask_of bs)) (word_of_int (dep bs n)) = word_of_int (dep bs (Suc n))"
  unfolding next_off_def dep_next [symmetric] word_of_int_and by simp

lemma next_off_iterate:
  "(next_off (word_of_int (mask_of bs)) ^^ n) 0 = word_of_int (dep bs n)"
  by (induction n) (simp_all add: next_off_dep)

section \<open>The masks of a box\<close>

datatype axis = X | Y | Z

definition mask_round :: "nat \<Rightarrow> nat \<Rightarrow> nat \<Rightarrow> nat \<Rightarrow> axis list" where
  "mask_round a b c i = (if i < a then [X] else []) @ (if i < b then [Y] else []) @ (if i < c then [Z] else [])"

definition zorder :: "nat \<Rightarrow> nat \<Rightarrow> nat \<Rightarrow> nat \<Rightarrow> axis list" where
  "zorder a b c n = concat (map (mask_round a b c) [0..<n])"

definition axis_bits :: "axis \<Rightarrow> axis list \<Rightarrow> bool list" where
  "axis_bits t os = map (\<lambda>u. u = t) os"

abbreviation axis_mask :: "axis \<Rightarrow> axis list \<Rightarrow> u32" where
  "axis_mask t os \<equiv> word_of_int (mask_of (axis_bits t os))"

lemma mask_of_append: "mask_of (bs @ cs) = mask_of bs + 2 ^ length bs * mask_of cs"
  by (induction bs) (simp_all add: algebra_simps)

lemma bit_mask_of: "bit (mask_of bs) n \<longleftrightarrow> n < length bs \<and> bs ! n"
  by (simp add: mask_of_def bit_horner_sum_bit_iff)

lemma axis_mask_snoc:
  "axis_mask t (os @ [u]) = (if u = t then axis_mask t os OR push_bit (length os) 1 else axis_mask t os)"
  by (rule bit_word_eqI) (auto simp: bit_simps bit_mask_of axis_bits_def nth_append less_Suc_eq)

lemma zorder_Suc: "zorder a b c (Suc n) = zorder a b c n @ mask_round a b c n"
  by (simp add: zorder_def)

text \<open>\<open>a\<close> is the binary logarithm of the dimension \<open>w\<close>, rounded up.\<close>

definition clog :: "u32 \<Rightarrow> nat \<Rightarrow> bool" where
  "clog w a \<longleftrightarrow> a \<le> 31 \<and> (\<forall>i \<le> 31. (push_bit i 1 < w) = (i < a))"

lemma clog_exp: "a \<le> 31 \<Longrightarrow> clog (push_bit a 1) a"
  by (simp add: clog_def exp_less_iff del: push_bit_of_1)

lemma clog_ex:
  assumes "w \<le> push_bit 31 1"
  obtains a where "clog w a"
proof -
  let ?P = "\<lambda>a. unat w \<le> 2 ^ a"
  have w: "?P 31" using assms by (simp only: word_le_nat_alt unat_exp32)
  have *: "unat w \<le> 2 ^ i \<longleftrightarrow> Least ?P \<le> i" for i
  proof
    assume "Least ?P \<le> i"
    then have "(2 :: nat) ^ Least ?P \<le> 2 ^ i" by (rule power_increasing) simp
    with LeastI [of ?P, OF w] show "unat w \<le> 2 ^ i" by (rule order_trans)
  qed (rule Least_le)
  have "(push_bit i 1 < w) = (i < Least ?P)" if "i \<le> 31" for i
    using * [of i] that by (simp only: word_less_nat_alt unat_exp32) linarith
  moreover have "Least ?P \<le> 31" using w by (rule Least_le)
  ultimately have "clog w (Least ?P)" unfolding clog_def by blast
  then show ?thesis by (rule that)
qed

lemma mask_loop_round:
  assumes "i < 31" "clog w a" "clog h b" "clog d c" "i < a \<or> i < b \<or> i < c"
  shows "mask_loop w h d (axis_mask X os) (axis_mask Y os) (axis_mask Z os) (push_bit i 1) (push_bit (length os) 1) =
    mask_loop w h d
      (axis_mask X (os @ mask_round a b c i)) (axis_mask Y (os @ mask_round a b c i))
      (axis_mask Z (os @ mask_round a b c i)) (push_bit (Suc i) 1) (push_bit (length (os @ mask_round a b c i)) 1)"
proof -
  have lt: "(push_bit i 1 < w) = (i < a)" "(push_bit i 1 < h) = (i < b)" "(push_bit i 1 < d) = (i < c)"
    using assms(1-4) by (simp_all add: clog_def del: push_bit_of_1)
  have eqs: "axis_mask t (os @ [u]) = (if u = t then axis_mask t os OR push_bit (length os) 1 else axis_mask t os)"
    "axis_mask t (os @ [u, v]) = (if v = t then axis_mask t (os @ [u]) OR push_bit (Suc (length os)) 1 else axis_mask t (os @ [u]))"
    "axis_mask t (os @ [u, v, w]) = (if w = t then axis_mask t (os @ [u, v]) OR push_bit (Suc (Suc (length os))) 1 else axis_mask t (os @ [u, v]))"
    for t u v w
    using axis_mask_snoc [of t os u] axis_mask_snoc [of t "os @ [u]" v] axis_mask_snoc [of t "os @ [u, v]" w]
    by (simp_all del: push_bit_of_1)
  show ?thesis
    apply (subst mask_loop.simps)
    unfolding lt Let_def
    using assms(5)
    by (cases "i < a"; cases "i < b"; cases "i < c")
      (simp_all add: mask_round_def eqs push_bit_eq_mult mult.commute)
qed

lemma mask_loop_end:
  assumes "clog w a" "clog h b" "clog d c" "i \<le> 31" "a \<le> i" "b \<le> i" "c \<le> i"
  shows "mask_loop w h d x y z (push_bit i 1) m = Some (x, y, z, m)"
proof -
  have "\<not> push_bit i 1 < w" "\<not> push_bit i 1 < h" "\<not> push_bit i 1 < d"
    using assms by (simp_all add: clog_def del: push_bit_of_1)
  then show ?thesis by (subst mask_loop.simps) (simp del: push_bit_of_1)
qed

lemma mask_loop_zorder:
  assumes cl: "clog w a" "clog h b" "clog d c" and "i \<le> max a (max b c)"
  defines "n \<equiv> max a (max b c)"
  shows "mask_loop w h d
      (axis_mask X (zorder a b c i)) (axis_mask Y (zorder a b c i)) (axis_mask Z (zorder a b c i))
      (push_bit i 1) (push_bit (length (zorder a b c i)) 1) =
    Some (axis_mask X (zorder a b c n), axis_mask Y (zorder a b c n), axis_mask Z (zorder a b c n),
      push_bit (length (zorder a b c n)) 1)"
  using assms(4)
proof (induction "n - i" arbitrary: i)
  case 0
  from 0(1) have "n \<le> i" by simp
  with 0(2) have "i = n" unfolding n_def by (rule le_antisym)
  moreover have "n \<le> 31" using cl by (simp add: clog_def n_def)
  ultimately show ?case using mask_loop_end [OF cl, of n] by (simp add: n_def del: push_bit_of_1)
next
  case (Suc k)
  then have "i < n" by simp
  then have "i < 31" "i < a \<or> i < b \<or> i < c" using cl by (auto simp: n_def clog_def)
  from mask_loop_round [OF this(1) cl this(2), of "zorder a b c i"] Suc.hyps(1) [of "Suc i"] Suc.hyps(2) \<open>i < n\<close>
  show ?case unfolding zorder_Suc [symmetric] by (simp add: n_def del: push_bit_of_1)
qed

text \<open>Above \<open>2 ^ 31\<close> the doubled bit runs out of the word and the loop never ends.\<close>

definition dims_small :: "u32 \<Rightarrow> u32 \<Rightarrow> u32 \<Rightarrow> bool" where
  "dims_small w h d \<longleftrightarrow> w \<le> push_bit 31 1 \<and> h \<le> push_bit 31 1 \<and> d \<le> push_bit 31 1"

lemma mask_loop_step_small:
  assumes IH: "\<And>w h d x y z b m r. f w h d x y z b m = Some r \<Longrightarrow> (\<exists>i. b = push_bit i 1) \<longrightarrow> dims_small w h d"
    and r: "(let (x1, m1, d1) = (if b < w then (x OR m, push_bit 1 m, False) else (x, m, True));
         (y1, m2, d2) = (if b < h then (y OR m1, push_bit 1 m1, False) else (y, m1, d1));
         (z1, m3, d3) = (if b < d then (z OR m2, push_bit 1 m2, False) else (z, m2, d2))
     in if \<not> d3 then f w h d x1 y1 z1 (push_bit 1 b) m3 else Some (x1, y1, z1, m3)) = Some r"
  shows "(\<exists>i. b = push_bit i 1) \<longrightarrow> dims_small w h d"
proof
  assume "\<exists>i. b = push_bit i 1"
  then obtain i where b: "b = push_bit i 1" ..
  show "dims_small w h d"
  proof (cases "b < w \<or> b < h \<or> b < d")
    case True
    then obtain x' y' z' m' where "f w h d x' y' z' (push_bit 1 b) m' = Some r"
      using r by (auto simp: Let_def split: if_splits prod.splits)
    from IH [OF this] show ?thesis using b by (metis push_bit_push_bit)
  next
    case False
    then have "w \<le> b" "h \<le> b" "d \<le> b" by (simp_all add: not_less)
    moreover have "b \<le> push_bit 31 1" unfolding b by (rule exp_le_top)
    ultimately show ?thesis unfolding dims_small_def by (blast intro: order_trans)
  qed
qed

lemma mask_loop_small:
  assumes "mask_loop w h d x y z (push_bit i 1) m = Some r"
  shows "dims_small w h d"
proof -
  have "(\<exists>j. push_bit i (1 :: u32) = push_bit j 1) \<longrightarrow> dims_small w h d"
    using assms
  proof (rule mask_loop.raw_induct [of "\<lambda>w h d x y z b m r. (\<exists>i. b = push_bit i 1) \<longrightarrow> dims_small w h d"
        "(((((((w, h), d), x), y), z), push_bit i 1), m)" r, unfolded prod.case, rotated], goal_cases)
    case (1 f w h d x y z b m r)
    from 1 show ?case by (rule mask_loop_step_small)
  qed
  then show ?thesis by blast
qed

lemma axis_masks_xor:
  "axis_mask X os XOR axis_mask Y os XOR axis_mask Z os = push_bit (length os) 1 - 1"
proof -
  have "push_bit (length os) 1 - 1 = (mask (length os) :: u32)" by (simp add: mask_eq_exp_minus_1)
  moreover have "axis_mask X os XOR axis_mask Y os XOR axis_mask Z os = mask (length os)"
  proof (rule bit_word_eqI)
    fix n
    show "bit (axis_mask X os XOR axis_mask Y os XOR axis_mask Z os) n = bit (mask (length os) :: u32) n"
      if "n < LENGTH(32)"
      using that by (cases "os ! n") (auto simp: bit_simps bit_mask_of axis_bits_def)
  qed
  ultimately show ?thesis by simp
qed

abbreviation box_order :: "nat \<Rightarrow> nat \<Rightarrow> nat \<Rightarrow> axis list" where
  "box_order a b c \<equiv> zorder a b c (max a (max b c))"

lemma generate_swizzle_masks_zorder:
  assumes "clog w a" "clog h b" "clog d c"
  shows "generate_swizzle_masks w h d =
    Some (Inr (axis_mask X (box_order a b c), axis_mask Y (box_order a b c), axis_mask Z (box_order a b c)))"
proof -
  have z: "zorder a b c 0 = []" "axis_mask t [] = 0" for t by (simp_all add: zorder_def axis_bits_def)
  show ?thesis
    using mask_loop_zorder [OF assms, of 0] axis_masks_xor [of "box_order a b c"]
    by (simp add: generate_swizzle_masks_def z)
qed

lemma count_mask_round: "count_list (mask_round a b c i) t = (if i < (case t of X \<Rightarrow> a | Y \<Rightarrow> b | Z \<Rightarrow> c) then 1 else 0)"
  by (cases t) (simp_all add: mask_round_def)

lemma count_zorder: "count_list (zorder a b c n) t = min n (case t of X \<Rightarrow> a | Y \<Rightarrow> b | Z \<Rightarrow> c)"
  by (induction n) (auto simp: zorder_Suc count_mask_round zorder_def [of _ _ _ 0])

lemma count_axis_bits: "count_list (axis_bits t os) True = count_list os t"
  by (induction os) (auto simp: axis_bits_def)

lemma count_box_order: "count_list (axis_bits t (box_order a b c)) True = (case t of X \<Rightarrow> a | Y \<Rightarrow> b | Z \<Rightarrow> c)"
  by (cases t) (simp_all add: count_axis_bits count_zorder)

lemma length_zorder: "length (zorder a b c n) = min n a + min n b + min n c"
  by (induction n) (auto simp: zorder_Suc mask_round_def zorder_def [of _ _ _ 0])

lemma length_box_order: "length (box_order a b c) = a + b + c"
  by (simp add: length_zorder)

section \<open>The place of a texel\<close>

definition morton :: "axis list \<Rightarrow> nat \<Rightarrow> nat \<Rightarrow> nat \<Rightarrow> int" where
  "morton os x y z = dep (axis_bits X os) x OR dep (axis_bits Y os) y OR dep (axis_bits Z os) z"

lemma bit_dep_axis: "bit (dep (axis_bits t os) n) j \<longleftrightarrow> j < length os \<and> os ! j = t \<and> bit n (count_list (take j (axis_bits t os)) True)"
  by (auto simp: bit_dep axis_bits_def)

lemma dep_axis_add: "dep (axis_bits Y os) y + dep (axis_bits Z os) z = dep (axis_bits Y os) y OR dep (axis_bits Z os) z"
  by (rule disjunctive_add) (auto simp: bit_dep_axis)

lemma morton_add:
  "dep (axis_bits X os) x + (dep (axis_bits Y os) y + dep (axis_bits Z os) z) = morton os x y z"
  unfolding dep_axis_add morton_def by (rule disjunctive_add) (auto simp: bit_dep_axis bit_simps)

lemma morton_bounds: "0 \<le> morton os x y z" "morton os x y z < 2 ^ length os"
proof -
  have "take_bit (length os) (morton os x y z) = morton os x y z"
    by (rule bit_eqI) (auto simp: morton_def bit_simps bit_dep_axis)
  then show "0 \<le> morton os x y z" "morton os x y z < 2 ^ length os"
    by (simp_all add: take_bit_int_eq_self_iff)
qed

lemma bit_mask_axis: "bit (mask_of (axis_bits t os)) n \<longleftrightarrow> n < length os \<and> os ! n = t"
  by (auto simp: bit_mask_of axis_bits_def)

lemma morton_and:
  "morton os x y z AND mask_of (axis_bits X os) = dep (axis_bits X os) x"
  "morton os x y z AND mask_of (axis_bits Y os) = dep (axis_bits Y os) y"
  "morton os x y z AND mask_of (axis_bits Z os) = dep (axis_bits Z os) z"
  by (rule bit_eqI; auto simp: morton_def bit_simps bit_dep_axis bit_mask_axis)+

lemma morton_inj:
  assumes "morton (box_order a b c) x y z = morton (box_order a b c) x' y' z'"
    "x < 2 ^ a" "y < 2 ^ b" "z < 2 ^ c" "x' < 2 ^ a" "y' < 2 ^ b" "z' < 2 ^ c"
  shows "x = x' \<and> y = y' \<and> z = z'"
proof -
  from assms(1) have
    "dep (axis_bits X (box_order a b c)) x = dep (axis_bits X (box_order a b c)) x'"
    "dep (axis_bits Y (box_order a b c)) y = dep (axis_bits Y (box_order a b c)) y'"
    "dep (axis_bits Z (box_order a b c)) z = dep (axis_bits Z (box_order a b c)) z'"
    by (metis morton_and)+
  from this [THEN dep_inj] assms(2-7) show ?thesis by (simp add: count_box_order)
qed

section \<open>The loops as one pass over the texels\<close>

lemma x_loop_fold:
  "x_loop copy (word_of_int (mask_of bs)) bpp lin swz n (of_nat k) (word_of_int (dep bs k)) mem =
    fold (\<lambda>x. copy (lin + unat (of_nat x * bpp)) (swz + unat (word_of_int (dep bs x) * bpp))) [k..<k + n] mem"
proof (induction n arbitrary: k mem)
  case (Suc n)
  from Suc [of "Suc k"] show ?case
    by (simp add: next_off_dep upt_conv_Cons add.commute del: upt_Suc)
qed simp

lemma y_loop_fold:
  "y_loop copy mx (word_of_int (mask_of bs)) w rp bpp lin off_z n (of_nat k) (word_of_int (dep bs k)) mem =
    fold (\<lambda>y. x_loop copy mx bpp (lin + unat (of_nat y * rp)) (unat ((word_of_int (dep bs y) + off_z) * bpp)) (unat w) 0 0)
      [k..<k + n] mem"
proof (induction n arbitrary: k mem)
  case (Suc n)
  from Suc [of "Suc k"] show ?case
    by (simp add: next_off_dep upt_conv_Cons add.commute del: upt_Suc)
qed simp

lemma z_loop_fold:
  "z_loop copy (mx, my, word_of_int (mask_of bs)) w h rp sp bpp n (k * unat sp) (word_of_int (dep bs k)) mem =
    fold (\<lambda>z. y_loop copy mx my w rp bpp (z * unat sp) (word_of_int (dep bs z)) (unat h) 0 0) [k..<k + n] mem"
proof (induction n arbitrary: k mem)
  case (Suc n)
  from Suc [of "Suc k"] show ?case
    by (simp add: next_off_dep upt_conv_Cons add.commute del: upt_Suc)
qed simp

definition texels :: "nat \<Rightarrow> nat \<Rightarrow> nat \<Rightarrow> (nat \<times> nat \<times> nat) list" where
  "texels w h d = concat (map (\<lambda>z. concat (map (\<lambda>y. map (\<lambda>x. (x, y, z)) [0..<w]) [0..<h])) [0..<d])"

lemma set_texels: "(x, y, z) \<in> set (texels w h d) \<longleftrightarrow> x < w \<and> y < h \<and> z < d"
  by (force simp: texels_def)

lemma fold_concat_map: "fold f (concat (map g xs)) = fold (\<lambda>x. fold f (g x)) xs"
  by (induction xs) simp_all

definition lin_off :: "nat \<Rightarrow> nat \<Rightarrow> nat \<Rightarrow> nat \<times> nat \<times> nat \<Rightarrow> nat" where
  "lin_off rp sp bpp = (\<lambda>(x, y, z). z * sp + y * rp + x * bpp)"

definition swz_off :: "axis list \<Rightarrow> nat \<Rightarrow> nat \<times> nat \<times> nat \<Rightarrow> nat" where
  "swz_off os bpp = (\<lambda>(x, y, z). nat (morton os x y z) * bpp)"

lemma unat_scale:
  assumes "0 \<le> v" "nat v * unat bpp < 2 ^ 32"
  shows "unat (word_of_int v * bpp :: u32) = nat v * unat bpp"
proof -
  have "word_of_int v * bpp = (of_nat (nat v * unat bpp) :: u32)" using assms(1) by simp
  then show ?thesis using assms(2) by (simp add: unat_of_nat del: of_nat_mult)
qed

lemma scale_less:
  assumes "2 ^ n * k \<le> (2 :: nat) ^ 32" "0 < k" "v < 2 ^ n"
  shows "nat v * k < 2 ^ 32"
proof -
  have "nat v < 2 ^ n" using assms(3) by (simp add: nat_less_iff)
  then have "nat v * k < 2 ^ n * k" using assms(2) by simp
  with assms(1) show ?thesis by (rule order_less_le_trans [rotated])
qed

lemma swz_off_split:
  assumes "2 ^ length os * unat bpp \<le> 2 ^ 32" "0 < unat bpp"
  shows "unat ((word_of_int (dep (axis_bits Y os) y) + word_of_int (dep (axis_bits Z os) z)) * bpp :: u32)
      + unat (word_of_int (dep (axis_bits X os) x) * bpp) = swz_off os (unat bpp) (x, y, z)"
proof -
  let ?x = "dep (axis_bits X os) x" and ?yz = "dep (axis_bits Y os) y + dep (axis_bits Z os) z"
  have nn: "0 \<le> ?x" "0 \<le> ?yz" by (simp_all add: dep_nonneg)
  have "?x + ?yz < 2 ^ length os" using morton_bounds(2) [of os x y z] by (simp add: morton_add)
  with nn have "?x < 2 ^ length os" "?yz < 2 ^ length os" by simp_all
  note unat_scale [OF nn(1) scale_less [OF assms this(1)]] unat_scale [OF nn(2) scale_less [OF assms this(2)]]
  moreover have "nat ?yz + nat ?x = nat (morton os x y z)" using nn morton_add [of os x y z] by simp
  ultimately show ?thesis by (simp add: swz_off_def add_mult_distrib [symmetric])
qed

lemma unat_index_scale:
  assumes "k < n" "n * unat p \<le> 2 ^ 32" "0 < unat p"
  shows "unat (of_nat k * p :: u32) = k * unat p"
proof -
  have "k * unat p < 2 ^ 32" using assms(1,3) by (intro order_less_le_trans [OF _ assms(2)]) simp
  then show ?thesis using unat_scale [of "int k" p] by simp
qed

lemma z_loop_texels:
  assumes "length os = a + b + c" "2 ^ (a + b + c) * unat bpp \<le> 2 ^ 32" "0 < unat bpp"
    "2 ^ b * unat rp \<le> 2 ^ 32" "0 < unat rp" "a \<le> 31" "b \<le> 31"
  shows "z_loop copy (axis_mask X os, axis_mask Y os, axis_mask Z os) (push_bit a 1) (push_bit b 1) rp sp bpp n 0 0 mem =
    fold (\<lambda>t. copy (lin_off (unat rp) (unat sp) (unat bpp) t) (swz_off os (unat bpp) t)) (texels (2 ^ a) (2 ^ b) n) mem"
proof -
  have "(2 :: nat) ^ a * unat bpp \<le> 2 ^ (a + b + c) * unat bpp"
    by (intro mult_right_mono power_increasing) simp_all
  with assms(2) have wb: "2 ^ a * unat bpp \<le> 2 ^ 32" by (rule order_trans [rotated])
  have x: "x_loop copy (axis_mask X os) bpp (z * unat sp + unat (of_nat y * rp))
      (unat ((word_of_int (dep (axis_bits Y os) y) + word_of_int (dep (axis_bits Z os) z)) * bpp)) (2 ^ a) 0 0 =
    fold (\<lambda>x. copy (lin_off (unat rp) (unat sp) (unat bpp) (x, y, z)) (swz_off os (unat bpp) (x, y, z))) [0..<2 ^ a]"
    if "y < 2 ^ b" for y z
    using x_loop_fold [of copy "axis_bits X os" bpp _ _ "2 ^ a" 0] that wb assms
    by (intro ext) (auto intro!: fold_cong simp: lin_off_def swz_off_split unat_index_scale [of _ "2 ^ a"] unat_index_scale [of _ "2 ^ b"])
  have y: "y_loop copy (axis_mask X os) (axis_mask Y os) (push_bit a 1) rp bpp (z * unat sp)
      (word_of_int (dep (axis_bits Z os) z)) (2 ^ b) 0 0 =
    fold (\<lambda>y. fold (\<lambda>x. copy (lin_off (unat rp) (unat sp) (unat bpp) (x, y, z)) (swz_off os (unat bpp) (x, y, z))) [0..<2 ^ a]) [0..<2 ^ b]" for z
    using y_loop_fold [of copy "axis_mask X os" "axis_bits Y os" "push_bit a 1" rp bpp "z * unat sp" _ "2 ^ b" 0] assms(6)
    by (intro ext) (auto intro!: fold_cong simp: x unat_exp32 simp del: push_bit_of_1)
  show ?thesis
    using z_loop_fold [of copy "axis_mask X os" "axis_mask Y os" "axis_bits Z os" "push_bit a 1" "push_bit b 1" rp sp bpp n 0] assms(7)
    by (simp add: y unat_exp32 texels_def fold_concat_map fold_map comp_def del: push_bit_of_1)
qed

section \<open>Disjoint copies\<close>

lemma fold_memcpy:
  assumes "c \<in> set cs" "\<And>c'. c' \<in> set cs \<Longrightarrow> c' \<noteq> c \<Longrightarrow> d c + n \<le> d c' \<or> d c' + n \<le> d c" "i < n"
  shows "fold (\<lambda>c mem. memcpy mem (d c) src (s c) n) cs mem (d c + i) = src (s c + i)"
  using assms
proof (induction cs rule: rev_induct)
  case (snoc c' cs)
  show ?case
  proof (cases "c' = c")
    case True
    then show ?thesis using snoc.prems(3) by (simp add: memcpy_def)
  next
    case False
    with snoc.prems have "d c + n \<le> d c' \<or> d c' + n \<le> d c" by simp
    then have "fold (\<lambda>c mem. memcpy mem (d c) src (s c) n) (cs @ [c']) mem (d c + i) =
        fold (\<lambda>c mem. memcpy mem (d c) src (s c) n) cs mem (d c + i)"
      using snoc.prems(3) by (auto simp: memcpy_def [of _ "d c'"])
    then show ?thesis using snoc False by simp
  qed
qed simp

lemma scaled_apart:
  fixes p q k :: nat
  assumes "p \<noteq> q"
  shows "p * k + k \<le> q * k \<or> q * k + k \<le> p * k"
proof -
  have "Suc p * k \<le> q * k \<or> Suc q * k \<le> p * k"
    using assms by (cases "p < q") (auto intro: mult_le_mono1 simp del: mult_Suc)
  then show ?thesis by (simp add: add.commute)
qed

lemma swz_off_apart:
  assumes "t \<in> set (texels (2 ^ a) (2 ^ b) (2 ^ c))" "t' \<in> set (texels (2 ^ a) (2 ^ b) (2 ^ c))" "t' \<noteq> t"
  shows "swz_off (box_order a b c) k t + k \<le> swz_off (box_order a b c) k t' \<or>
    swz_off (box_order a b c) k t' + k \<le> swz_off (box_order a b c) k t"
proof -
  obtain x y z x' y' z' where t: "t = (x, y, z)" "t' = (x', y', z')" by (metis prod_cases3)
  from assms have "morton (box_order a b c) x y z \<noteq> morton (box_order a b c) x' y' z'"
    unfolding t set_texels using morton_inj [of a b c x y z x' y' z'] by blast
  then have "nat (morton (box_order a b c) x y z) \<noteq> nat (morton (box_order a b c) x' y' z')"
    using morton_bounds(1) by (simp add: eq_nat_nat_iff)
  from scaled_apart [OF this] show ?thesis by (simp add: t swz_off_def)
qed

text \<open>A mixed-radix order: a larger digit moves past the whole range of the lower ones.\<close>

lemma radix_apart:
  fixes p q u v r k :: nat
  assumes "p < q" "u + k \<le> r"
  shows "p * r + u + k \<le> q * r + v"
proof -
  have "Suc p * r \<le> q * r" using assms(1) by (intro mult_le_mono1) simp
  with assms(2) show ?thesis by simp
qed

lemma lin_off_apart:
  assumes t: "t \<in> set (texels w h d)" "t' \<in> set (texels w h d)" "t' \<noteq> t"
    and pitch: "w * k \<le> rp" "h * rp \<le> sp \<or> d \<le> 1"
  shows "lin_off rp sp k t + k \<le> lin_off rp sp k t' \<or> lin_off rp sp k t' + k \<le> lin_off rp sp k t"
proof -
  obtain x y z x' y' z' where tt: "t = (x, y, z)" "t' = (x', y', z')" by (metis prod_cases3)
  have row: "x * k + k \<le> rp" if "x < w" for x
    using mult_le_mono1 [of "Suc x" w k] that pitch(1) by simp
  have slice: "y * rp + x * k + k \<le> h * rp" if "x < w" "y < h" for x y
    using mult_le_mono1 [of "Suc y" h rp] row that by fastforce
  have apart: "lin_off rp sp k (x, y, z) + k \<le> lin_off rp sp k (x', y', z')"
    if "x < w" "y < h" "z' < d" "z < z' \<or> z = z' \<and> y < y' \<or> z = z' \<and> y = y' \<and> x < x'" for x y z x' y' z'
    using that(4)
  proof (elim disjE conjE)
    assume "z < z'"
    moreover have "h * rp \<le> sp" using pitch(2) that(3) calculation by auto
    ultimately show ?thesis
      using radix_apart [of z z' "y * rp + x * k" k sp "y' * rp + x' * k"] slice [OF that(1,2)] by (simp add: lin_off_def)
  next
    assume "z = z'" "y < y'"
    then show ?thesis using radix_apart [of y y' "x * k" k rp "x' * k"] row [OF that(1)] by (simp add: lin_off_def)
  next
    assume "z = z'" "y = y'" "x < x'"
    then show ?thesis using mult_le_mono1 [of "Suc x" x' k] by (simp add: lin_off_def)
  qed
  have "x < w" "y < h" "z < d" "x' < w" "y' < h" "z' < d" using t(1,2) by (simp_all add: tt set_texels)
  moreover have "(z < z' \<or> z = z' \<and> y < y' \<or> z = z' \<and> y = y' \<and> x < x') \<or>
      (z' < z \<or> z' = z \<and> y' < y \<or> z' = z \<and> y' = y \<and> x' < x)" using t(3) by (auto simp: tt)
  ultimately show ?thesis using apart unfolding tt by blast
qed

section \<open>What the copies do\<close>

text \<open>A box of \<open>2 ^ a\<close> by \<open>2 ^ b\<close> by \<open>2 ^ c\<close> texels whose offsets stay within 32 bits.\<close>

definition box_fits :: "nat \<Rightarrow> nat \<Rightarrow> nat \<Rightarrow> u32 \<Rightarrow> u32 \<Rightarrow> bool" where
  "box_fits a b c rp bpp \<longleftrightarrow> a \<le> 31 \<and> b \<le> 31 \<and> c \<le> 31 \<and> 0 < unat bpp \<and> 0 < unat rp \<and>
     2 ^ (a + b + c) * unat bpp \<le> 2 ^ 32 \<and> 2 ^ b * unat rp \<le> 2 ^ 32"

lemma box_masks:
  assumes "box_fits a b c rp bpp"
  shows "generate_swizzle_masks (push_bit a 1) (push_bit b 1) (push_bit c 1) =
    Some (Inr (axis_mask X (box_order a b c), axis_mask Y (box_order a b c), axis_mask Z (box_order a b c)))"
  using assms by (intro generate_swizzle_masks_zorder clog_exp) (simp_all add: box_fits_def)

lemma box_loop:
  assumes "box_fits a b c rp bpp"
  shows "z_loop copy (axis_mask X (box_order a b c), axis_mask Y (box_order a b c), axis_mask Z (box_order a b c))
      (push_bit a 1) (push_bit b 1) rp sp bpp (unat (push_bit c 1 :: u32)) 0 0 mem =
    fold (\<lambda>t. copy (lin_off (unat rp) (unat sp) (unat bpp) t) (swz_off (box_order a b c) (unat bpp) t))
      (texels (2 ^ a) (2 ^ b) (2 ^ c)) mem"
proof -
  have "unat (push_bit c 1 :: u32) = 2 ^ c" using assms by (intro unat_exp32) (simp add: box_fits_def)
  then show ?thesis
    using assms z_loop_texels [OF length_box_order, of a b c bpp rp copy sp "2 ^ c" mem]
    unfolding box_fits_def by (simp only: simp_thms)
qed

lemma swizzle_box_fold:
  assumes "box_fits a b c rp bpp"
  shows "swizzle_box src (push_bit a 1) (push_bit b 1) (push_bit c 1) dst rp sp bpp =
    Some (Inr (fold (\<lambda>t mem. memcpy mem (swz_off (box_order a b c) (unat bpp) t) src
        (lin_off (unat rp) (unat sp) (unat bpp) t) (unat bpp)) (texels (2 ^ a) (2 ^ b) (2 ^ c)) dst))"
  unfolding swizzle_box_def box_masks [OF assms] by (simp add: box_loop [OF assms] del: push_bit_of_1)

lemma unswizzle_box_fold:
  assumes "box_fits a b c rp bpp"
  shows "unswizzle_box src (push_bit a 1) (push_bit b 1) (push_bit c 1) dst rp sp bpp =
    Some (Inr (fold (\<lambda>t mem. memcpy mem (lin_off (unat rp) (unat sp) (unat bpp) t) src
        (swz_off (box_order a b c) (unat bpp) t) (unat bpp)) (texels (2 ^ a) (2 ^ b) (2 ^ c)) dst))"
  unfolding unswizzle_box_def box_masks [OF assms] by (simp add: box_loop [OF assms] del: push_bit_of_1)

text \<open>C34: the mask loop returns exactly when no dimension exceeds \<open>2 ^ 31\<close>; then the assertion that
  the three masks tile the low bits holds.\<close>

theorem generate_swizzle_masks_terminates:
  "(\<exists>masks. generate_swizzle_masks w h d = Some (Inr masks)) \<longleftrightarrow>
     w \<le> push_bit 31 1 \<and> h \<le> push_bit 31 1 \<and> d \<le> push_bit 31 1"
proof
  assume "\<exists>masks. generate_swizzle_masks w h d = Some (Inr masks)"
  then obtain r where "mask_loop w h d 0 0 0 (push_bit 0 1) 1 = Some r"
    by (auto simp: generate_swizzle_masks_def)
  then show "w \<le> push_bit 31 1 \<and> h \<le> push_bit 31 1 \<and> d \<le> push_bit 31 1"
    using mask_loop_small unfolding dims_small_def by blast
next
  assume dims: "w \<le> push_bit 31 1 \<and> h \<le> push_bit 31 1 \<and> d \<le> push_bit 31 1"
  obtain a where a: "clog w a" using dims by (blast intro: clog_ex)
  obtain b where b: "clog h b" using dims by (blast intro: clog_ex)
  obtain c where c: "clog d c" using dims by (blast intro: clog_ex)
  from generate_swizzle_masks_zorder [OF a b c]
  show "\<exists>masks. generate_swizzle_masks w h d = Some (Inr masks)" by blast
qed

text \<open>C33: swizzling a power-of-two box stores byte \<open>i\<close> of the texel at \<open>(x, y, z)\<close> at its Z-order
  position: the bits of \<open>x\<close>, \<open>y\<close> and \<open>z\<close> are interleaved, each axis leaving out the bits it lacks.\<close>

theorem swizzle_box_places:
  assumes "box_fits a b c rp bpp"
  shows "\<exists>out. swizzle_box src (push_bit a 1) (push_bit b 1) (push_bit c 1) dst rp sp bpp = Some (Inr out) \<and>
    (\<forall>x y z i. x < 2 ^ a \<and> y < 2 ^ b \<and> z < 2 ^ c \<and> i < unat bpp \<longrightarrow>
       out (nat (morton (box_order a b c) x y z) * unat bpp + i) =
       src (z * unat sp + y * unat rp + x * unat bpp + i))"
proof (intro exI conjI allI impI, rule swizzle_box_fold [OF assms], elim conjE)
  fix x y z i :: nat
  assume "x < 2 ^ a" "y < 2 ^ b" "z < 2 ^ c" "i < unat bpp"
  then show "fold (\<lambda>t mem. memcpy mem (swz_off (box_order a b c) (unat bpp) t) src
        (lin_off (unat rp) (unat sp) (unat bpp) t) (unat bpp)) (texels (2 ^ a) (2 ^ b) (2 ^ c)) dst
      (nat (morton (box_order a b c) x y z) * unat bpp + i) = src (z * unat sp + y * unat rp + x * unat bpp + i)"
    using fold_memcpy [of "(x, y, z)" "texels (2 ^ a) (2 ^ b) (2 ^ c)" "swz_off (box_order a b c) (unat bpp)" "unat bpp" i
        src "lin_off (unat rp) (unat sp) (unat bpp)" dst] swz_off_apart [of "(x, y, z)" a b c]
    by (simp add: set_texels swz_off_def lin_off_def)
qed

theorem swizzle_box_places_witness:
  "\<exists>out. swizzle_box (\<lambda>i. of_nat i) (push_bit 2 1) (push_bit 1 1) (push_bit 0 1) (\<lambda>i. 0) 32 0 4 = Some (Inr out) \<and>
    out 17 = 9"
proof -
  have "box_fits 2 1 0 32 4" by (simp add: box_fits_def)
  note out = swizzle_box_places [OF this, of "\<lambda>i. of_nat i" "\<lambda>i. 0" 0]
  have "morton (box_order 2 1 0) 2 0 0 = 4" by code_simp
  then have "\<exists>x<2 ^ 2. \<exists>y<2 ^ 1. \<exists>z<2 ^ 0. \<exists>i<4. nat (morton (box_order 2 1 0) x y z) * 4 + i = 17 \<and> z * 0 + y * 32 + x * 4 + i = 9"
    by (intro exI [of _ 2] exI [of _ 0] exI [of _ 1] conjI) simp_all
  moreover have "unat (4 :: u32) = 4" "unat (32 :: u32) = 32" "unat (0 :: u32) = 0" by simp_all
  ultimately show ?thesis using out by (simp only:) (metis of_nat_numeral)
qed

text \<open>C32: when rows and slices do not overlap, unswizzling what was swizzled gives back every byte
  of every texel.\<close>

theorem swizzle_round_trip:
  assumes "box_fits a b c rp bpp" "2 ^ a * unat bpp \<le> unat rp" "2 ^ b * unat rp \<le> unat sp \<or> c = 0"
  shows "\<exists>mid out. swizzle_box src (push_bit a 1) (push_bit b 1) (push_bit c 1) tmp rp sp bpp = Some (Inr mid) \<and>
    unswizzle_box mid (push_bit a 1) (push_bit b 1) (push_bit c 1) dst rp sp bpp = Some (Inr out) \<and>
    (\<forall>x y z i. x < 2 ^ a \<and> y < 2 ^ b \<and> z < 2 ^ c \<and> i < unat bpp \<longrightarrow>
       out (z * unat sp + y * unat rp + x * unat bpp + i) = src (z * unat sp + y * unat rp + x * unat bpp + i))"
proof (intro exI conjI allI impI, rule swizzle_box_fold [OF assms(1)], rule unswizzle_box_fold [OF assms(1)], elim conjE)
  fix x y z i :: nat
  assume "x < 2 ^ a" "y < 2 ^ b" "z < 2 ^ c" "i < unat bpp"
  let ?T = "texels (2 ^ a) (2 ^ b) (2 ^ c)"
  let ?S = "swz_off (box_order a b c) (unat bpp)" and ?L = "lin_off (unat rp) (unat sp) (unat bpp)"
  let ?mid = "fold (\<lambda>t mem. memcpy mem (?S t) src (?L t) (unat bpp)) ?T tmp"
  have t: "(x, y, z) \<in> set ?T" using \<open>x < 2 ^ a\<close> \<open>y < 2 ^ b\<close> \<open>z < 2 ^ c\<close> by (simp add: set_texels)
  have "fold (\<lambda>t mem. memcpy mem (?L t) ?mid (?S t) (unat bpp)) ?T dst (?L (x, y, z) + i) = ?mid (?S (x, y, z) + i)"
    using t \<open>i < unat bpp\<close> assms(2,3) by (intro fold_memcpy lin_off_apart) auto
  also have "\<dots> = src (?L (x, y, z) + i)"
    using t \<open>i < unat bpp\<close> by (intro fold_memcpy swz_off_apart)
  finally show "fold (\<lambda>t mem. memcpy mem (?L t) ?mid (?S t) (unat bpp)) ?T dst (z * unat sp + y * unat rp + x * unat bpp + i)
      = src (z * unat sp + y * unat rp + x * unat bpp + i)" by (simp add: lin_off_def)
qed

theorem swizzle_round_trip_witness:
  "\<exists>mid out. swizzle_box (\<lambda>i. of_nat i) (push_bit 2 1) (push_bit 1 1) (push_bit 1 1) (\<lambda>i. 0) 16 64 4 = Some (Inr mid) \<and>
    unswizzle_box mid (push_bit 2 1) (push_bit 1 1) (push_bit 1 1) (\<lambda>i. 0) 16 64 4 = Some (Inr out) \<and> out 90 = 90"
proof -
  have "box_fits 2 1 1 16 4" by (simp add: box_fits_def)
  note out = swizzle_round_trip [OF this, of 64 "\<lambda>i. of_nat i" "\<lambda>i. 0" "\<lambda>i. 0"]
  have "unat (4 :: u32) = 4" "unat (16 :: u32) = 16" "unat (64 :: u32) = 64" by simp_all
  moreover have "(90 :: nat) = 1 * 64 + 1 * 16 + 2 * 4 + 2" "(2 :: nat) < 2 ^ 2" "(1 :: nat) < 2 ^ 1" "(2 :: nat) < 4"
    "(2 :: nat) ^ 2 * 4 \<le> 16" "(2 :: nat) ^ 1 * 16 \<le> 64" by simp_all
  ultimately show ?thesis using out by (simp only:) (metis of_nat_numeral)
qed

end
