(* ===== verification/Prim_Rewrite.thy ===== *)
theory Prim_Rewrite
  imports Xbox_Prelude
begin

unbundle bit_operations_syntax

text \<open>
  Primitive rewriting (\<open>hw/xbox/nv2a/pgraph/prim_rewrite.c\<close>): strips, loops, fans, quads and
  polygons are turned into index lists of points, lines and triangles in a growable buffer, so
  that the provoking vertex of each primitive comes first.  The state of an operation is the
  buffer and the result under construction, whose \<open>indices\<close> pointer aliases the buffer.  A
  write past the capacity and a read past the input are faults.
\<close>

section \<open>Data\<close>

datatype primitive_mode = PRIM_TYPE_INVALID | PRIM_TYPE_POINTS | PRIM_TYPE_LINES | PRIM_TYPE_LINE_LOOP
  | PRIM_TYPE_LINE_STRIP | PRIM_TYPE_TRIANGLES | PRIM_TYPE_TRIANGLE_STRIP | PRIM_TYPE_TRIANGLE_FAN
  | PRIM_TYPE_QUADS | PRIM_TYPE_QUAD_STRIP | PRIM_TYPE_POLYGON

datatype polygon_mode = POLY_MODE_FILL | POLY_MODE_POINT | POLY_MODE_LINE

record rewrite_buf =
  buf_data :: "nat \<Rightarrow> u32"
  buf_capacity :: u32

text \<open>\<open>indices\<close> says whether the pointer is set; when it is, it points to the buffer.\<close>

record prim_rewrite =
  indices :: bool
  num_indices :: u32
  output_mode :: primitive_mode
  flat_provoking_rewrite :: bool

record assembly_state =
  as_primitive_mode :: primitive_mode
  as_polygon_mode :: polygon_mode
  as_last_provoking :: bool
  as_flat_shading :: bool

definition pgraph_prim_rewrite_init :: "rewrite_buf \<Rightarrow> rewrite_buf" where
  "pgraph_prim_rewrite_init buf = buf\<lparr>buf_data := \<lambda>_. 0, buf_capacity := 0\<rparr>"

definition pgraph_prim_rewrite_finalize :: "rewrite_buf \<Rightarrow> rewrite_buf" where
  "pgraph_prim_rewrite_finalize buf = buf\<lparr>buf_data := \<lambda>_. 0, buf_capacity := 0\<rparr>"

section \<open>The switches in the environment\<close>

definition ascii_lower :: "char \<Rightarrow> char" where
  "ascii_lower c = (if 65 \<le> (of_char c :: nat) \<and> (of_char c :: nat) \<le> 90 then char_of ((of_char c :: nat) + 32) else c)"

definition ascii_strcasecmp_eq :: "string \<Rightarrow> string \<Rightarrow> bool" where
  "ascii_strcasecmp_eq s t \<longleftrightarrow> map ascii_lower s = map ascii_lower t"

definition env_flag_enabled :: "string option \<Rightarrow> bool \<Rightarrow> bool" where
  "env_flag_enabled env default_value =
    (case env of None \<Rightarrow> default_value
     | Some s \<Rightarrow> if s = [] then default_value
         else s \<noteq> ''0'' \<and> \<not> ascii_strcasecmp_eq s ''false'' \<and> \<not> ascii_strcasecmp_eq s ''no'' \<and>
              \<not> ascii_strcasecmp_eq s ''off'')"

text \<open>The static variable caches the first answer; \<open>-1\<close> says that there is none yet.\<close>

definition pgraph_prim_rewrite_enabled :: "(string \<Rightarrow> string option) \<Rightarrow> int \<Rightarrow> bool \<times> int" where
  "pgraph_prim_rewrite_enabled getenv enabled =
    (let enabled = (if enabled < 0 then of_bool (env_flag_enabled (getenv ''XEMU_NV2A_PRIM_REWRITE'') True) else enabled)
     in (enabled \<noteq> 0, enabled))"

definition pgraph_prim_rewrite_debug_enabled :: "(string \<Rightarrow> string option) \<Rightarrow> int \<Rightarrow> bool \<times> int" where
  "pgraph_prim_rewrite_debug_enabled getenv enabled =
    (let enabled = (if enabled < 0 then of_bool (env_flag_enabled (getenv ''XEMU_NV2A_PRIM_REWRITE_DEBUG'') False) else enabled)
     in (enabled \<noteq> 0, enabled))"

section \<open>The buffer\<close>

text \<open>The doubling loop, which never ends once \<open>next\<close> has run out of the word.\<close>

partial_function (option) grow :: "u32 \<Rightarrow> u32 \<Rightarrow> u32 option" where
  "grow needed cap = (if cap < needed then grow needed (cap * 2) else Some cap)"

definition ensure_capacity :: "rewrite_buf \<Rightarrow> u32 \<Rightarrow> rewrite_buf option" where
  "ensure_capacity buf needed =
    (if needed \<le> buf_capacity buf then Some buf
     else map_option (\<lambda>n. buf\<lparr>buf_capacity := n\<rparr>)
       (grow needed (if buf_capacity buf \<noteq> 0 then buf_capacity buf * 2 else 256)))"

section \<open>Modes and sizes\<close>

definition pgraph_prim_rewrite_get_output_mode :: "primitive_mode \<Rightarrow> polygon_mode \<Rightarrow> primitive_mode res" where
  "pgraph_prim_rewrite_get_output_mode mode polygon_mode =
    (case mode of
       PRIM_TYPE_POINTS \<Rightarrow> Inr PRIM_TYPE_POINTS
     | PRIM_TYPE_LINES \<Rightarrow> Inr PRIM_TYPE_LINES
     | PRIM_TYPE_LINE_STRIP \<Rightarrow> Inr PRIM_TYPE_LINES
     | PRIM_TYPE_LINE_LOOP \<Rightarrow> Inr PRIM_TYPE_LINES
     | PRIM_TYPE_TRIANGLES \<Rightarrow> Inr PRIM_TYPE_TRIANGLES
     | PRIM_TYPE_TRIANGLE_STRIP \<Rightarrow> Inr PRIM_TYPE_TRIANGLES
     | PRIM_TYPE_TRIANGLE_FAN \<Rightarrow> Inr PRIM_TYPE_TRIANGLES
     | PRIM_TYPE_INVALID \<Rightarrow> Inl (AssertFail ''Unexpected primitive mode'')
     | _ \<Rightarrow> Inr (if polygon_mode = POLY_MODE_POINT then PRIM_TYPE_POINTS
                else if polygon_mode = POLY_MODE_LINE then PRIM_TYPE_LINES else PRIM_TYPE_TRIANGLES))"

definition pgraph_prim_rewrite_needed :: "bool \<Rightarrow> assembly_state \<Rightarrow> bool" where
  "pgraph_prim_rewrite_needed enabled state =
    (if \<not> enabled then False
     else case as_primitive_mode state of
       PRIM_TYPE_POINTS \<Rightarrow> False
     | PRIM_TYPE_LINES \<Rightarrow> as_flat_shading state \<and> as_last_provoking state
     | PRIM_TYPE_TRIANGLES \<Rightarrow> as_flat_shading state \<and> as_last_provoking state
     | _ \<Rightarrow> True)"

definition max_output_indices :: "primitive_mode \<Rightarrow> polygon_mode \<Rightarrow> u32 \<Rightarrow> u32" where
  "max_output_indices mode polygon_mode n =
    (case mode of
       PRIM_TYPE_POINTS \<Rightarrow> n
     | PRIM_TYPE_LINES \<Rightarrow> n
     | PRIM_TYPE_LINE_STRIP \<Rightarrow> if n \<ge> 2 then (n - 1) * 2 else 0
     | PRIM_TYPE_LINE_LOOP \<Rightarrow> if n \<ge> 2 then n * 2 else 0
     | PRIM_TYPE_TRIANGLES \<Rightarrow> n
     | PRIM_TYPE_TRIANGLE_STRIP \<Rightarrow> if n \<ge> 3 then (n - 2) * 3 else 0
     | PRIM_TYPE_TRIANGLE_FAN \<Rightarrow> if n \<ge> 3 then (n - 2) * 3 else 0
     | PRIM_TYPE_QUADS \<Rightarrow>
         if polygon_mode = POLY_MODE_POINT then n
         else if polygon_mode = POLY_MODE_LINE then n div 4 * 8 else n div 4 * 6
     | PRIM_TYPE_QUAD_STRIP \<Rightarrow>
         if polygon_mode = POLY_MODE_POINT then n
         else if n < 4 then 0
         else if polygon_mode = POLY_MODE_LINE then (n - 2) div 2 * 8 else (n - 2) div 2 * 6
     | PRIM_TYPE_POLYGON \<Rightarrow>
         if polygon_mode = POLY_MODE_POINT then n
         else if polygon_mode = POLY_MODE_LINE then (if n \<ge> 2 then n * 2 else 0)
         else if n \<ge> 3 then (n - 2) * 3 else 0
     | PRIM_TYPE_INVALID \<Rightarrow> 0)"

section \<open>Emitting\<close>

type_synonym emission = "rewrite_buf \<times> prim_rewrite"

definition idx_at :: "u32 list option \<Rightarrow> u32 \<Rightarrow> u32 \<Rightarrow> u32 res" where
  "idx_at idx i base =
    (case idx of None \<Rightarrow> Inr (base + i)
     | Some xs \<Rightarrow> check (unat i < length xs) OutOfBounds (Inr (xs ! unat i)))"

definition emit_vertex :: "u32 \<Rightarrow> emission \<Rightarrow> emission res" where
  "emit_vertex v = (\<lambda>(buf, r). check (num_indices r < buf_capacity buf) OutOfBounds
     (Inr (buf\<lparr>buf_data := (buf_data buf)(unat (num_indices r) := v)\<rparr>, r\<lparr>num_indices := num_indices r + 1\<rparr>)))"

definition emit_line :: "u32 \<Rightarrow> u32 \<Rightarrow> emission \<Rightarrow> emission res" where
  "emit_line a b r = bind_res (emit_vertex a r) (emit_vertex b)"

definition emit_line_pv :: "u32 \<Rightarrow> u32 \<Rightarrow> u32 \<Rightarrow> emission \<Rightarrow> emission res" where
  "emit_line_pv a b p r = (if p = a then emit_line a b r else emit_line b a r)"

definition emit_tri :: "u32 \<Rightarrow> u32 \<Rightarrow> u32 \<Rightarrow> emission \<Rightarrow> emission res" where
  "emit_tri a b c r = bind_res (emit_vertex a r) (\<lambda>r. bind_res (emit_vertex b r) (emit_vertex c))"

definition emit_tri_pv :: "u32 \<Rightarrow> u32 \<Rightarrow> u32 \<Rightarrow> u32 \<Rightarrow> emission \<Rightarrow> emission res" where
  "emit_tri_pv a b c p r =
    (if p = a then emit_tri a b c r else if p = b then emit_tri b c a r else emit_tri c a b r)"

section \<open>One routine per mode\<close>

definition rewrite_points :: "u32 list option \<Rightarrow> u32 \<Rightarrow> u32 \<Rightarrow> emission \<Rightarrow> emission run" where
  "rewrite_points idx base count =
    for_loop 0 1 count (\<lambda>i r. bind_res (idx_at idx i base) (\<lambda>v. emit_vertex v r)) 0"

definition rewrite_lines :: "u32 list option \<Rightarrow> u32 \<Rightarrow> u32 \<Rightarrow> bool \<Rightarrow> emission \<Rightarrow> emission run" where
  "rewrite_lines idx base count last_provoking =
    for_loop 1 2 count (\<lambda>i r.
      bind_res (idx_at idx i base) (\<lambda>v0.
      bind_res (idx_at idx (i + 1) base) (\<lambda>v1.
      emit_line_pv v0 v1 (if last_provoking then v1 else v0) r))) 0"

definition rewrite_line_strip :: "u32 list option \<Rightarrow> u32 \<Rightarrow> u32 \<Rightarrow> bool \<Rightarrow> emission \<Rightarrow> emission run" where
  "rewrite_line_strip idx base count last_provoking =
    for_loop 1 1 count (\<lambda>i r.
      bind_res (idx_at idx i base) (\<lambda>v0.
      bind_res (idx_at idx (i + 1) base) (\<lambda>v1.
      emit_line_pv v0 v1 (if last_provoking then v1 else v0) r))) 0"

definition rewrite_line_loop :: "u32 list option \<Rightarrow> u32 \<Rightarrow> u32 \<Rightarrow> bool \<Rightarrow> emission \<Rightarrow> emission run" where
  "rewrite_line_loop idx base count last_provoking r =
    (if count < 2 then Some (Inr r)
     else bind_run (rewrite_line_strip idx base count last_provoking r) (\<lambda>r. Some (
       bind_res (idx_at idx (count - 1) base) (\<lambda>v_last.
       bind_res (idx_at idx 0 base) (\<lambda>v_first.
       emit_line_pv v_last v_first (if last_provoking then v_first else v_last) r)))))"

definition rewrite_triangles :: "u32 list option \<Rightarrow> u32 \<Rightarrow> u32 \<Rightarrow> bool \<Rightarrow> emission \<Rightarrow> emission run" where
  "rewrite_triangles idx base count last_provoking =
    for_loop 2 3 count (\<lambda>i r.
      bind_res (idx_at idx i base) (\<lambda>v0.
      bind_res (idx_at idx (i + 1) base) (\<lambda>v1.
      bind_res (idx_at idx (i + 2) base) (\<lambda>v2.
      emit_tri_pv v0 v1 v2 (if last_provoking then v2 else v0) r)))) 0"

definition rewrite_triangle_strip :: "u32 list option \<Rightarrow> u32 \<Rightarrow> u32 \<Rightarrow> bool \<Rightarrow> emission \<Rightarrow> emission run" where
  "rewrite_triangle_strip idx base count last_provoking =
    for_loop 2 1 count (\<lambda>i r.
      bind_res (idx_at idx i base) (\<lambda>v0.
      bind_res (idx_at idx (i + 1) base) (\<lambda>v1.
      bind_res (idx_at idx (i + 2) base) (\<lambda>v2.
      let pv = (if last_provoking then v2 else v0)
      in if i AND 1 \<noteq> 0 then emit_tri_pv v1 v0 v2 pv r else emit_tri_pv v0 v1 v2 pv r)))) 0"

definition rewrite_triangle_fan :: "u32 list option \<Rightarrow> u32 \<Rightarrow> u32 \<Rightarrow> bool \<Rightarrow> emission \<Rightarrow> emission run" where
  "rewrite_triangle_fan idx base count last_provoking r =
    (if count < 3 then Some (Inr r)
     else bind_run (Some (idx_at idx 0 base)) (\<lambda>hub.
       for_loop 2 1 count (\<lambda>i r.
         bind_res (idx_at idx (i + 1) base) (\<lambda>v1.
         bind_res (idx_at idx (i + 2) base) (\<lambda>v2.
         emit_tri_pv hub v1 v2 (if last_provoking then v2 else v1) r))) 0 r))"

definition rewrite_quads :: "u32 list option \<Rightarrow> u32 \<Rightarrow> u32 \<Rightarrow> bool \<Rightarrow> emission \<Rightarrow> emission run" where
  "rewrite_quads idx base count flat_shading =
    for_loop 3 4 count (\<lambda>i r.
      bind_res (idx_at idx i base) (\<lambda>v0.
      bind_res (idx_at idx (i + 1) base) (\<lambda>v1.
      bind_res (idx_at idx (i + 2) base) (\<lambda>v2.
      bind_res (idx_at idx (i + 3) base) (\<lambda>v3.
      if flat_shading then bind_res (emit_tri v3 v0 v1 r) (emit_tri v3 v1 v2)
      else bind_res (emit_tri v0 v1 v2 r) (emit_tri v0 v2 v3)))))) 0"

definition rewrite_quads_line :: "u32 list option \<Rightarrow> u32 \<Rightarrow> u32 \<Rightarrow> emission \<Rightarrow> emission run" where
  "rewrite_quads_line idx base count =
    for_loop 3 4 count (\<lambda>i r.
      bind_res (idx_at idx i base) (\<lambda>v0.
      bind_res (idx_at idx (i + 1) base) (\<lambda>v1.
      bind_res (idx_at idx (i + 2) base) (\<lambda>v2.
      bind_res (idx_at idx (i + 3) base) (\<lambda>v3.
      bind_res (emit_line v0 v1 r) (\<lambda>r.
      bind_res (emit_line v1 v2 r) (\<lambda>r.
      bind_res (emit_line v2 v3 r) (emit_line v3 v0)))))))) 0"

definition rewrite_quad_strip :: "u32 list option \<Rightarrow> u32 \<Rightarrow> u32 \<Rightarrow> bool \<Rightarrow> emission \<Rightarrow> emission run" where
  "rewrite_quad_strip idx base count flat_shading =
    for_loop 3 2 count (\<lambda>i r.
      bind_res (idx_at idx i base) (\<lambda>v0.
      bind_res (idx_at idx (i + 1) base) (\<lambda>v1.
      bind_res (idx_at idx (i + 2) base) (\<lambda>v2.
      bind_res (idx_at idx (i + 3) base) (\<lambda>v3.
      if flat_shading then bind_res (emit_tri v3 v2 v0 r) (emit_tri v3 v0 v1)
      else bind_res (emit_tri v0 v1 v2 r) (emit_tri v2 v1 v3)))))) 0"

definition rewrite_quad_strip_line :: "u32 list option \<Rightarrow> u32 \<Rightarrow> u32 \<Rightarrow> emission \<Rightarrow> emission run" where
  "rewrite_quad_strip_line idx base count =
    for_loop 3 2 count (\<lambda>i r.
      bind_res (idx_at idx i base) (\<lambda>v0.
      bind_res (idx_at idx (i + 1) base) (\<lambda>v1.
      bind_res (idx_at idx (i + 2) base) (\<lambda>v2.
      bind_res (idx_at idx (i + 3) base) (\<lambda>v3.
      bind_res (emit_line v0 v1 r) (\<lambda>r.
      bind_res (emit_line v1 v3 r) (\<lambda>r.
      bind_res (emit_line v3 v2 r) (emit_line v2 v0)))))))) 0"

definition rewrite_polygon :: "u32 list option \<Rightarrow> u32 \<Rightarrow> u32 \<Rightarrow> emission \<Rightarrow> emission run" where
  "rewrite_polygon idx base count r =
    (if count < 3 then Some (Inr r)
     else bind_run (Some (idx_at idx 0 base)) (\<lambda>hub.
       for_loop 2 1 count (\<lambda>i r.
         bind_res (idx_at idx (i + 1) base) (\<lambda>v1.
         bind_res (idx_at idx (i + 2) base) (\<lambda>v2.
         emit_tri hub v1 v2 r))) 0 r))"

definition rewrite_polygon_line :: "u32 list option \<Rightarrow> u32 \<Rightarrow> u32 \<Rightarrow> emission \<Rightarrow> emission run" where
  "rewrite_polygon_line idx base count r =
    (if count < 2 then Some (Inr r)
     else bind_run (rewrite_line_strip idx base count False r) (\<lambda>r. Some (
       bind_res (idx_at idx (count - 1) base) (\<lambda>v_last.
       bind_res (idx_at idx 0 base) (\<lambda>v_first. emit_line v_last v_first r)))))"

definition rewrite_indices :: "assembly_state \<Rightarrow> u32 list option \<Rightarrow> u32 \<Rightarrow> u32 \<Rightarrow> emission \<Rightarrow> emission run" where
  "rewrite_indices state idx base count =
    (let last = as_last_provoking state; flat = as_flat_shading state; poly = as_polygon_mode state in
     case as_primitive_mode state of
       PRIM_TYPE_POINTS \<Rightarrow> rewrite_points idx base count
     | PRIM_TYPE_LINES \<Rightarrow> rewrite_lines idx base count last
     | PRIM_TYPE_LINE_STRIP \<Rightarrow> rewrite_line_strip idx base count last
     | PRIM_TYPE_LINE_LOOP \<Rightarrow> rewrite_line_loop idx base count last
     | PRIM_TYPE_TRIANGLES \<Rightarrow> rewrite_triangles idx base count last
     | PRIM_TYPE_TRIANGLE_STRIP \<Rightarrow> rewrite_triangle_strip idx base count last
     | PRIM_TYPE_TRIANGLE_FAN \<Rightarrow> rewrite_triangle_fan idx base count last
     | PRIM_TYPE_QUADS \<Rightarrow>
         if poly = POLY_MODE_POINT then rewrite_points idx base count
         else if poly = POLY_MODE_LINE then rewrite_quads_line idx base count
         else rewrite_quads idx base count flat
     | PRIM_TYPE_QUAD_STRIP \<Rightarrow>
         if poly = POLY_MODE_POINT then rewrite_points idx base count
         else if poly = POLY_MODE_LINE then rewrite_quad_strip_line idx base count
         else rewrite_quad_strip idx base count flat
     | PRIM_TYPE_POLYGON \<Rightarrow>
         if poly = POLY_MODE_POINT then rewrite_points idx base count
         else if poly = POLY_MODE_LINE then rewrite_polygon_line idx base count
         else rewrite_polygon idx base count
     | PRIM_TYPE_INVALID \<Rightarrow> (\<lambda>r. Some (Inl (AssertFail ''Unexpected primitive mode''))))"

section \<open>Entry points\<close>

definition empty_result :: "bool \<Rightarrow> assembly_state \<Rightarrow> prim_rewrite res" where
  "empty_result enabled state =
    bind_res (pgraph_prim_rewrite_get_output_mode (as_primitive_mode state) (as_polygon_mode state)) (\<lambda>m.
    Inr \<lparr>indices = False, num_indices = 0, output_mode = m,
      flat_provoking_rewrite = (as_flat_shading state \<and> pgraph_prim_rewrite_needed enabled state)\<rparr>)"

definition pgraph_prim_rewrite_indexed :: "bool \<Rightarrow> rewrite_buf \<Rightarrow> assembly_state \<Rightarrow> u32 list \<Rightarrow> u32 \<Rightarrow> emission run" where
  "pgraph_prim_rewrite_indexed enabled buf state input_indices num_input_indices =
    bind_run (Some (empty_result enabled state)) (\<lambda>result.
    if \<not> pgraph_prim_rewrite_needed enabled state then Some (Inr (buf, result))
    else
      let max_output = max_output_indices (as_primitive_mode state) (as_polygon_mode state) num_input_indices in
      if max_output = 0 then Some (Inr (buf, result))
      else bind_run (map_option Inr (ensure_capacity buf max_output)) (\<lambda>buf.
        bind_run (rewrite_indices state (Some input_indices) 0 num_input_indices (buf, result\<lparr>indices := True\<rparr>)) (\<lambda>(buf, result).
        Some (check (num_indices result \<le> max_output) (AssertFail ''result.num_indices <= max_output'')
          (Inr (buf, result))))))"

text \<open>\<open>starts\<close> and \<open>counts\<close> hold signed 32-bit values; the total is summed in 64 bits.\<close>

definition total_max_output :: "assembly_state \<Rightarrow> (u32 \<times> u32) list \<Rightarrow> u64" where
  "total_max_output state ranges =
    fold (\<lambda>(start, count) t. if sint count \<le> 0 then t
      else t + ucast (max_output_indices (as_primitive_mode state) (as_polygon_mode state) count)) ranges 0"

fun rewrite_ranges :: "assembly_state \<Rightarrow> (u32 \<times> u32) list \<Rightarrow> emission \<Rightarrow> emission run" where
  "rewrite_ranges state [] r = Some (Inr r)"
| "rewrite_ranges state ((start, count) # ranges) r =
    (if sint count \<le> 0 then rewrite_ranges state ranges r
     else if \<not> 0 \<le> sint start then Some (Inl (AssertFail ''starts[i] >= 0''))
     else bind_run (rewrite_indices state None start count r) (rewrite_ranges state ranges))"

definition pgraph_prim_rewrite_ranges :: "bool \<Rightarrow> rewrite_buf \<Rightarrow> assembly_state \<Rightarrow> (u32 \<times> u32) list \<Rightarrow> emission run" where
  "pgraph_prim_rewrite_ranges enabled buf state ranges =
    bind_run (Some (empty_result enabled state)) (\<lambda>result.
    if \<not> pgraph_prim_rewrite_needed enabled state then Some (Inr (buf, result))
    else
      let total = total_max_output state ranges in
      if \<not> total \<le> 0xFFFFFFFF then Some (Inl (AssertFail ''total_max_output <= UINT_MAX''))
      else if total = 0 then Some (Inr (buf, result))
      else bind_run (map_option Inr (ensure_capacity buf (ucast total))) (\<lambda>buf.
        bind_run (rewrite_ranges state ranges (buf, result\<lparr>indices := True\<rparr>)) (\<lambda>(buf, result).
        Some (check (ucast (num_indices result) \<le> total) (AssertFail ''result.num_indices <= total_max_output'')
          (Inr (buf, result))))))"

definition pgraph_prim_rewrite_sequential :: "bool \<Rightarrow> rewrite_buf \<Rightarrow> assembly_state \<Rightarrow> u32 \<Rightarrow> u32 \<Rightarrow> emission run" where
  "pgraph_prim_rewrite_sequential enabled buf state start count = pgraph_prim_rewrite_ranges enabled buf state [(start, count)]"

definition primitive_name :: "primitive_mode \<Rightarrow> string" where
  "primitive_name mode =
    (case mode of
       PRIM_TYPE_POINTS \<Rightarrow> ''points'' | PRIM_TYPE_LINES \<Rightarrow> ''lines'' | PRIM_TYPE_LINE_LOOP \<Rightarrow> ''line_loop''
     | PRIM_TYPE_LINE_STRIP \<Rightarrow> ''line_strip'' | PRIM_TYPE_TRIANGLES \<Rightarrow> ''triangles''
     | PRIM_TYPE_TRIANGLE_STRIP \<Rightarrow> ''triangle_strip'' | PRIM_TYPE_TRIANGLE_FAN \<Rightarrow> ''triangle_fan''
     | PRIM_TYPE_QUADS \<Rightarrow> ''quads'' | PRIM_TYPE_QUAD_STRIP \<Rightarrow> ''quad_strip'' | PRIM_TYPE_POLYGON \<Rightarrow> ''polygon''
     | PRIM_TYPE_INVALID \<Rightarrow> ''unknown'')"

end
