(* ===== verification/Prim_Rewrite_Spec.thy ===== *)
theory Prim_Rewrite_Spec
  imports Prim_Rewrite
begin

unbundle bit_operations_syntax

text \<open>
  What primitive rewriting does: the primitives of a draw as an abstract list, each with its
  provoking vertex; every routine of \<open>Prim_Rewrite\<close> emits exactly these primitives, rotated to
  start with the provoking vertex; and the buffer is always grown enough for them.
\<close>

section \<open>Counted loops over windows\<close>

text \<open>The windows of \<open>k\<close> elements a loop with a stride sees, each with its start.\<close>

function windows :: "nat \<Rightarrow> nat \<Rightarrow> nat \<Rightarrow> 'a list \<Rightarrow> (nat \<times> 'a list) list" where
  "windows k stride i xs = (if length xs < k \<or> stride = 0 \<or> k = 0 then [] else (i, take k xs) # windows k stride (i + stride) (drop stride xs))"
  by pat_completeness auto
termination by (relation "measure (\<lambda>(k, stride, i, xs). length xs)") auto

declare windows.simps [simp del]

fun emit_list :: "u32 list \<Rightarrow> emission \<Rightarrow> emission res" where
  "emit_list [] r = Inr r"
| "emit_list (v # vs) r = bind_res (emit_vertex v r) (emit_list vs)"

lemma emit_list_append: "emit_list (vs @ ws) r = bind_res (emit_list vs r) (emit_list ws)"
proof (induction vs arbitrary: r)
  case (Cons v vs)
  then show ?case by (cases "emit_vertex v r") simp_all
qed simp

lemma for_loop_windows:
  assumes body: "\<And>i r. unat i + k \<le> length xs \<Longrightarrow> body i r = emit_list (g (unat i) (take k (drop (unat i) xs))) r"
    and len: "length xs = unat count" "unat count + stride + k < 2 ^ 32" and "0 < stride" "0 < k"
    and i: "unat i < unat count + stride"
  shows "for_loop (of_nat (k - 1)) (of_nat stride) count body i r =
    Some (emit_list (concat (map (\<lambda>(i, w). g i w) (windows k stride (unat i) (drop (unat i) xs)))) r)"
  using i
proof (induction "unat count + stride - unat i" arbitrary: i r rule: less_induct)
  case less
  have "unat (i + of_nat (k - 1)) = unat i + (k - 1)"
    using less.prems len by (subst unat_add_lem [THEN iffD1]) (simp_all add: unat_of_nat)
  then have cond: "i + of_nat (k - 1) < count \<longleftrightarrow> unat i + k \<le> length xs"
    using \<open>0 < k\<close> len by (auto simp: word_less_nat_alt)
  show ?case
  proof (cases "unat i + k \<le> length xs")
    case False
    then have "windows k stride (unat i) (drop (unat i) xs) = []"
      using \<open>0 < k\<close> by (subst windows.simps) auto
    then show ?thesis using False cond by (subst for_loop.simps) simp
  next
    case True
    have ui: "unat (i + of_nat stride) = unat i + stride"
      using True len \<open>0 < k\<close> by (subst unat_add_lem [THEN iffD1]) (simp_all add: unat_of_nat)
    have w: "windows k stride (unat i) (drop (unat i) xs) =
        (unat i, take k (drop (unat i) xs)) # windows k stride (unat (i + of_nat stride)) (drop (unat (i + of_nat stride)) xs)"
      using True \<open>0 < stride\<close> \<open>0 < k\<close> by (subst windows.simps) (simp add: ui add.commute)
    have IH: "for_loop (of_nat (k - 1)) (of_nat stride) count body (i + of_nat stride) r =
      Some (emit_list (concat (map (\<lambda>(i, w). g i w) (windows k stride (unat (i + of_nat stride)) (drop (unat (i + of_nat stride)) xs)))) r)" for r
      using True len \<open>0 < stride\<close> \<open>0 < k\<close> ui by (intro less.hyps) simp_all
    show ?thesis
      apply (subst for_loop.simps)
      using True cond body [OF True, of r] IH
      by (cases "emit_list (g (unat i) (take k (drop (unat i) xs))) r") (simp_all add: w emit_list_append)
  qed
qed

lemma length_windows:
  assumes "0 < stride" "0 < k"
  shows "length (windows k stride i xs) = (if length xs < k then 0 else (length xs - k) div stride + 1)"
proof (induction xs arbitrary: i rule: length_induct)
  case (1 xs)
  show ?case
  proof (cases "length xs < k")
    case True
    then show ?thesis by (subst windows.simps) simp
  next
    case False
    have "length (windows k stride (i + stride) (drop stride xs)) =
        (if length xs - stride < k then 0 else (length xs - stride - k) div stride + 1)"
      using False assms 1 by simp
    moreover have "(length xs - k) div stride = (if length xs - stride < k then 0 else (length xs - stride - k) div stride + 1)"
    proof (cases "length xs - stride < k")
      case True
      then show ?thesis using False assms by (auto intro: div_less)
    next
      case False
      then have "length xs - k = (length xs - stride - k) + stride" using assms by simp
      moreover have "((length xs - stride - k) + stride) div stride = (length xs - stride - k) div stride + 1"
        using assms by (intro div_add_self2) simp
      ultimately show ?thesis using False by (simp only: if_False)
    qed
    ultimately show ?thesis using False assms by (subst windows.simps) simp
  qed
qed

lemma windows_length: "(i, w) \<in> set (windows k stride j xs) \<Longrightarrow> length w = k"
proof (induction k stride j xs arbitrary: i w rule: windows.induct)
  case (1 k stride j xs)
  show ?case
  proof (cases "length xs < k \<or> stride = 0 \<or> k = 0")
    case True
    then have "windows k stride j xs = []" by (subst windows.simps) simp
    with "1.prems" show ?thesis by simp
  next
    case False
    then have "windows k stride j xs = (j, take k xs) # windows k stride (j + stride) (drop stride xs)"
      by (subst windows.simps) simp
    with "1.prems" "1.IH" [OF False] False show ?thesis by auto
  qed
qed

section \<open>The primitives a draw consists of\<close>

text \<open>The vertices an index array names.\<close>

definition vertices :: "u32 list option \<Rightarrow> u32 \<Rightarrow> u32 \<Rightarrow> u32 list" where
  "vertices idx base count =
    (case idx of None \<Rightarrow> map (\<lambda>i. base + of_nat i) [0..<unat count] | Some xs \<Rightarrow> take (unat count) xs)"

definition idx_ok :: "u32 list option \<Rightarrow> u32 \<Rightarrow> bool" where
  "idx_ok idx count \<longleftrightarrow> (case idx of None \<Rightarrow> True | Some xs \<Rightarrow> unat count \<le> length xs)"

lemma length_vertices: "idx_ok idx count \<Longrightarrow> length (vertices idx base count) = unat count"
  by (auto simp: vertices_def idx_ok_def split: option.splits)

lemma idx_at_vertices:
  "idx_ok idx count \<Longrightarrow> unat i < unat count \<Longrightarrow> idx_at idx i base = Inr (vertices idx base count ! unat i)"
  by (auto simp: vertices_def idx_ok_def idx_at_def split: option.splits)

text \<open>
  A primitive is its provoking vertex and its vertices in drawing order.  It is sent to the
  host rotated so that the provoking vertex comes first, which keeps the winding.
\<close>

type_synonym prim = "u32 \<times> u32 list"

definition rot :: "prim \<Rightarrow> u32 list" where
  "rot = (\<lambda>(p, vs). dropWhile (\<lambda>v. v \<noteq> p) vs @ takeWhile (\<lambda>v. v \<noteq> p) vs)"

lemma length_rot: "length (rot (p, vs)) = length vs"
proof -
  have "length (takeWhile (\<lambda>v. v \<noteq> p) vs @ dropWhile (\<lambda>v. v \<noteq> p) vs) = length vs"
    by (simp only: takeWhile_dropWhile_id)
  then show ?thesis unfolding rot_def prod.case length_append by linarith
qed

definition line_prim :: "bool \<Rightarrow> u32 list \<Rightarrow> prim" where
  "line_prim lp w = (if lp then w ! 1 else w ! 0, [w ! 0, w ! 1])"

definition edges :: "u32 list \<Rightarrow> prim list" where
  "edges vs = map (\<lambda>(i, w). line_prim False w) (windows 2 1 0 vs)"

definition fan_prims :: "(u32 list \<Rightarrow> u32 \<Rightarrow> u32) \<Rightarrow> u32 list \<Rightarrow> prim list" where
  "fan_prims pv xs = map (\<lambda>(i, w). (pv w (xs ! 0), [xs ! 0, w ! 1, w ! 2])) (windows 3 1 0 xs)"

definition quad_prims :: "bool \<Rightarrow> u32 list \<Rightarrow> prim list" where
  "quad_prims flat w = (if flat then [(w ! 3, [w ! 3, w ! 0, w ! 1]), (w ! 3, [w ! 3, w ! 1, w ! 2])]
     else [(w ! 0, [w ! 0, w ! 1, w ! 2]), (w ! 0, [w ! 0, w ! 2, w ! 3])])"

definition strip_quad_prims :: "bool \<Rightarrow> u32 list \<Rightarrow> prim list" where
  "strip_quad_prims flat w = (if flat then [(w ! 3, [w ! 3, w ! 2, w ! 0]), (w ! 3, [w ! 3, w ! 0, w ! 1])]
     else [(w ! 0, [w ! 0, w ! 1, w ! 2]), (w ! 2, [w ! 2, w ! 1, w ! 3])])"

definition prims :: "assembly_state \<Rightarrow> u32 list \<Rightarrow> prim list" where
  "prims state xs =
    (let last = as_last_provoking state; flat = as_flat_shading state; poly = as_polygon_mode state;
         points = map (\<lambda>v. (v, [v])) xs;
         closed = (\<lambda>last. if length xs < 2 then [] else map (\<lambda>(i, w). line_prim last w) (windows 2 1 0 xs)
                      @ [line_prim last [xs ! (length xs - 1), xs ! 0]]) in
     case as_primitive_mode state of
       PRIM_TYPE_POINTS \<Rightarrow> points
     | PRIM_TYPE_LINES \<Rightarrow> map (\<lambda>(i, w). line_prim last w) (windows 2 2 0 xs)
     | PRIM_TYPE_LINE_STRIP \<Rightarrow> map (\<lambda>(i, w). line_prim last w) (windows 2 1 0 xs)
     | PRIM_TYPE_LINE_LOOP \<Rightarrow> closed last
     | PRIM_TYPE_TRIANGLES \<Rightarrow> map (\<lambda>(i, w). (if last then w ! 2 else w ! 0, [w ! 0, w ! 1, w ! 2])) (windows 3 3 0 xs)
     | PRIM_TYPE_TRIANGLE_STRIP \<Rightarrow>
         map (\<lambda>(i, w). (if last then w ! 2 else w ! 0, if odd i then [w ! 1, w ! 0, w ! 2] else [w ! 0, w ! 1, w ! 2]))
           (windows 3 1 0 xs)
     | PRIM_TYPE_TRIANGLE_FAN \<Rightarrow> fan_prims (\<lambda>w hub. if last then w ! 2 else w ! 1) xs
     | PRIM_TYPE_QUADS \<Rightarrow>
         if poly = POLY_MODE_POINT then points
         else if poly = POLY_MODE_LINE
         then concat (map (\<lambda>(i, w). edges [w ! 0, w ! 1, w ! 2, w ! 3, w ! 0]) (windows 4 4 0 xs))
         else concat (map (\<lambda>(i, w). quad_prims flat w) (windows 4 4 0 xs))
     | PRIM_TYPE_QUAD_STRIP \<Rightarrow>
         if poly = POLY_MODE_POINT then points
         else if poly = POLY_MODE_LINE
         then concat (map (\<lambda>(i, w). edges [w ! 0, w ! 1, w ! 3, w ! 2, w ! 0]) (windows 4 2 0 xs))
         else concat (map (\<lambda>(i, w). strip_quad_prims flat w) (windows 4 2 0 xs))
     | PRIM_TYPE_POLYGON \<Rightarrow>
         if poly = POLY_MODE_POINT then points
         else if poly = POLY_MODE_LINE then closed False
         else fan_prims (\<lambda>w hub. hub) xs
     | PRIM_TYPE_INVALID \<Rightarrow> [])"

definition rewritten :: "assembly_state \<Rightarrow> u32 list \<Rightarrow> u32 list" where
  "rewritten state xs = concat (map rot (prims state xs))"

section \<open>The routines emit the primitives\<close>

lemma emit_list_Nil: "emit_list [] = Inr"
  by (rule ext) simp

lemma emit_list_single: "emit_list [v] = emit_vertex v"
  by (rule ext) (simp add: emit_list_Nil)

lemma emit_lists:
  "emit_vertex v r = emit_list [v] r"
  "emit_line a b r = emit_list [a, b] r"
  "emit_tri a b c r = emit_list [a, b, c] r"
  unfolding emit_line_def emit_tri_def emit_list.simps(2) emit_list_Nil
  by (simp_all add: emit_line_def emit_tri_def emit_list_Nil emit_list_single)

lemma emit_funs: "emit_line a b = emit_list [a, b]" "emit_tri a b c = emit_list [a, b, c]"
  by (rule ext, rule emit_lists)+

lemma emit_line_pv_rot: "p \<in> {a, b} \<Longrightarrow> emit_line_pv a b p r = emit_list (rot (p, [a, b])) r"
  unfolding emit_line_pv_def emit_lists by (auto simp: rot_def simp del: emit_list.simps)

lemma emit_tri_pv_rot: "p \<in> {a, b, c} \<Longrightarrow> emit_tri_pv a b c p r = emit_list (rot (p, [a, b, c])) r"
  unfolding emit_tri_pv_def emit_lists by (auto simp: rot_def simp del: emit_list.simps)

lemma rot_hd: "rot (v, v # vs) = v # vs"
  by (simp add: rot_def)

lemma bind_emit_list: "bind_res (emit_list vs r) (emit_list ws) = emit_list (vs @ ws) r"
  by (simp add: emit_list_append)

lemma unat_plus_small: "unat i + n < 2 ^ 32 \<Longrightarrow> unat (i + of_nat n :: u32) = unat i + n"
  by (subst unat_add_lem [THEN iffD1]) (simp_all add: unat_of_nat)

lemma idx_at_plus:
  assumes "idx_ok idx count" "unat i + n < unat count"
  shows "idx_at idx (i + of_nat n) base = Inr (vertices idx base count ! (unat i + n))"
proof -
  have "unat i + n < 2 ^ 32" using assms(2) unsigned_less [where ?'a = nat, of count] by simp
  from unat_plus_small [OF this] show ?thesis using assms by (simp add: idx_at_vertices)
qed

lemma window_reads:
  assumes "idx_ok idx count" "unat i + k \<le> unat count"
  shows "0 < k \<Longrightarrow> idx_at idx i base = Inr (take k (drop (unat i) (vertices idx base count)) ! 0)"
    "1 < k \<Longrightarrow> idx_at idx (i + 1) base = Inr (take k (drop (unat i) (vertices idx base count)) ! 1)"
    "2 < k \<Longrightarrow> idx_at idx (i + 2) base = Inr (take k (drop (unat i) (vertices idx base count)) ! 2)"
    "3 < k \<Longrightarrow> idx_at idx (i + 3) base = Inr (take k (drop (unat i) (vertices idx base count)) ! 3)"
  using assms idx_at_plus [OF assms(1), of i 0] idx_at_plus [OF assms(1), of i 1]
    idx_at_plus [OF assms(1), of i 2] idx_at_plus [OF assms(1), of i 3]
  by (simp_all add: length_vertices)

lemma for_loop_emits:
  assumes "idx_ok idx count" "unat count \<le> 2 ^ 29" "ahead = of_nat (k - 1)" "step = of_nat stride"
    "0 < k" "k \<le> 4" "0 < stride" "stride \<le> 4"
    and "\<And>i r. unat i + k \<le> unat count \<Longrightarrow> body i r = emit_list (g (unat i) (take k (drop (unat i) (vertices idx base count)))) r"
  shows "for_loop ahead step count body 0 r =
    Some (emit_list (concat (map (\<lambda>(i, w). g i w) (windows k stride 0 (vertices idx base count)))) r)"
  using for_loop_windows [of k "vertices idx base count" body g count stride 0 r] assms
  by (simp add: length_vertices)

lemma and_1_odd: "(i AND 1 \<noteq> 0) = odd (unat (i :: u32))"
  unfolding and_one_eq odd_iff_mod_2_eq_one by (simp add: unat_arith_simps unat_mod)

lemma concat_map_concat: "concat (map f (concat (map g xs))) = concat (map (\<lambda>x. concat (map f (g x))) xs)"
  by (induction xs) simp_all

lemma map_rot: "map rot (map (\<lambda>(i, w). f i w) ws) = map (\<lambda>(i, w). rot (f i w)) ws"
  by auto

lemma concat_windows_1: "concat (map (\<lambda>(i, w). [w ! 0]) (windows 1 1 n xs)) = xs"
proof (induction xs arbitrary: n)
  case (Cons x xs)
  then show ?case by (subst windows.simps) simp
qed (subst windows.simps, simp)

lemma rewrite_points_emits:
  assumes ok: "idx_ok idx count" "unat count \<le> 2 ^ 29"
  shows "rewrite_points idx base count r = Some (emit_list (vertices idx base count) r)"
  unfolding rewrite_points_def
  by (subst concat_windows_1 [of 0 "vertices idx base count", symmetric], rule for_loop_emits [OF ok])
    (simp_all only: window_reads(1) [OF ok(1)] bind_res_simps emit_list_single, simp_all)

lemma rewrite_lines_emits:
  assumes ok: "idx_ok idx count" "unat count \<le> 2 ^ 29"
  shows "rewrite_lines idx base count lp r =
     Some (emit_list (concat (map (\<lambda>(i, w). rot (line_prim lp w)) (windows 2 2 0 (vertices idx base count)))) r)"
  "rewrite_line_strip idx base count lp r =
     Some (emit_list (concat (map (\<lambda>(i, w). rot (line_prim lp w)) (windows 2 1 0 (vertices idx base count)))) r)"
  unfolding rewrite_lines_def rewrite_line_strip_def
  by (rule for_loop_emits [OF ok]; simp add: window_reads [OF ok(1), where k = 2] emit_line_pv_rot line_prim_def)+

lemma rewrite_triangles_emits:
  assumes ok: "idx_ok idx count" "unat count \<le> 2 ^ 29"
  shows "rewrite_triangles idx base count lp r =
     Some (emit_list (concat (map (\<lambda>(i, w). rot (if lp then w ! 2 else w ! 0, [w ! 0, w ! 1, w ! 2]))
       (windows 3 3 0 (vertices idx base count)))) r)"
  unfolding rewrite_triangles_def
  by (rule for_loop_emits [OF ok]; simp add: window_reads [OF ok(1), where k = 3] emit_tri_pv_rot)

lemma rewrite_triangle_strip_emits:
  assumes ok: "idx_ok idx count" "unat count \<le> 2 ^ 29"
  shows "rewrite_triangle_strip idx base count lp r =
     Some (emit_list (concat (map (\<lambda>(i, w). rot (if lp then w ! 2 else w ! 0,
       if odd i then [w ! 1, w ! 0, w ! 2] else [w ! 0, w ! 1, w ! 2])) (windows 3 1 0 (vertices idx base count)))) r)"
  unfolding rewrite_triangle_strip_def
  by (rule for_loop_emits [OF ok]; simp add: window_reads [OF ok(1), where k = 3] emit_tri_pv_rot and_1_odd Let_def)

lemma rewrite_line_loop_emits:
  assumes ok: "idx_ok idx count" "unat count \<le> 2 ^ 29"
  shows "rewrite_line_loop idx base count lp r = Some (emit_list (if unat count < 2 then [] else
     concat (map (\<lambda>(i, w). rot (line_prim lp w)) (windows 2 1 0 (vertices idx base count)))
     @ rot (line_prim lp [vertices idx base count ! (unat count - 1), vertices idx base count ! 0])) r)"
proof (cases "unat count < 2")
  case True
  then show ?thesis by (simp add: rewrite_line_loop_def word_less_nat_alt)
next
  case False
  then have "idx_at idx (count - 1) base = Inr (vertices idx base count ! (unat count - 1))"
    by (subst idx_at_vertices [OF ok(1)]) (simp_all add: unat_sub word_le_nat_alt)
  moreover have "idx_at idx 0 base = Inr (vertices idx base count ! 0)"
    using False by (subst idx_at_vertices [OF ok(1)]) simp_all
  ultimately show ?thesis
    using False by (simp add: rewrite_line_loop_def word_less_nat_alt rewrite_lines_emits [OF ok] bind_run_Some
        emit_line_pv_rot line_prim_def emit_list_append)
qed

lemma rewrite_polygon_line_emits:
  assumes ok: "idx_ok idx count" "unat count \<le> 2 ^ 29"
  shows "rewrite_polygon_line idx base count r = rewrite_line_loop idx base count False r"
proof (cases "idx_at idx (count - 1) base"; cases "idx_at idx 0 base")
qed (simp_all add: rewrite_polygon_line_def rewrite_line_loop_def emit_line_pv_def)

lemma hub_read:
  assumes "idx_ok idx count" "\<not> count < 3"
  shows "idx_at idx 0 base = Inr (vertices idx base count ! 0)"
  using assms by (subst idx_at_vertices) (simp_all add: word_less_nat_alt)

lemma windows_short: "length xs < k \<Longrightarrow> windows k stride i xs = []"
  by (subst windows.simps) simp

lemma rewrite_triangle_fan_emits:
  assumes ok: "idx_ok idx count" "unat count \<le> 2 ^ 29"
  shows "rewrite_triangle_fan idx base count lp r =
    Some (emit_list (concat (map rot (fan_prims (\<lambda>w hub. if lp then w ! 2 else w ! 1) (vertices idx base count)))) r)"
proof (cases "count < 3")
  case True
  then show ?thesis using ok
    by (simp add: rewrite_triangle_fan_def fan_prims_def windows_short length_vertices word_less_nat_alt)
next
  case False
  show ?thesis
    unfolding rewrite_triangle_fan_def fan_prims_def map_rot hub_read [OF ok(1) False] bind_run_simps if_not_P [OF False]
    by (rule for_loop_emits [OF ok]; simp add: window_reads [OF ok(1), where k = 3] emit_tri_pv_rot)
qed

lemma rewrite_polygon_emits:
  assumes ok: "idx_ok idx count" "unat count \<le> 2 ^ 29"
  shows "rewrite_polygon idx base count r =
    Some (emit_list (concat (map rot (fan_prims (\<lambda>w hub. hub) (vertices idx base count)))) r)"
proof (cases "count < 3")
  case True
  then show ?thesis using ok
    by (simp add: rewrite_polygon_def fan_prims_def windows_short length_vertices word_less_nat_alt)
next
  case False
  show ?thesis
    unfolding rewrite_polygon_def fan_prims_def map_rot hub_read [OF ok(1) False] bind_run_simps if_not_P [OF False]
    by (rule for_loop_emits [OF ok]; simp add: window_reads [OF ok(1), where k = 3] emit_lists(3) rot_hd del: emit_list.simps)
qed

lemma rewrite_quads_emits:
  assumes ok: "idx_ok idx count" "unat count \<le> 2 ^ 29"
  shows "rewrite_quads idx base count flat r =
    Some (emit_list (concat (map (\<lambda>(i, w). concat (map rot (quad_prims flat w))) (windows 4 4 0 (vertices idx base count)))) r)"
  unfolding rewrite_quads_def
  by (rule for_loop_emits [OF ok];
      simp add: window_reads [OF ok(1), where k = 4] emit_funs bind_emit_list rot_hd quad_prims_def del: emit_list.simps)

lemma rewrite_quad_strip_emits:
  assumes ok: "idx_ok idx count" "unat count \<le> 2 ^ 29"
  shows "rewrite_quad_strip idx base count flat r =
    Some (emit_list (concat (map (\<lambda>(i, w). concat (map rot (strip_quad_prims flat w))) (windows 4 2 0 (vertices idx base count)))) r)"
  unfolding rewrite_quad_strip_def
  by (rule for_loop_emits [OF ok];
      simp add: window_reads [OF ok(1), where k = 4] emit_funs bind_emit_list rot_hd strip_quad_prims_def del: emit_list.simps)

lemma edges_quad: "concat (map rot (edges [a, b, c, d, a])) = [a, b, b, c, c, d, d, a]"
  by (simp add: edges_def windows.simps [of 2] line_prim_def rot_hd)

lemma rewrite_quad_lines_emit:
  assumes ok: "idx_ok idx count" "unat count \<le> 2 ^ 29"
  shows "rewrite_quads_line idx base count r = Some (emit_list (concat (map (\<lambda>(i, w).
      concat (map rot (edges [w ! 0, w ! 1, w ! 2, w ! 3, w ! 0]))) (windows 4 4 0 (vertices idx base count)))) r)"
    "rewrite_quad_strip_line idx base count r = Some (emit_list (concat (map (\<lambda>(i, w).
      concat (map rot (edges [w ! 0, w ! 1, w ! 3, w ! 2, w ! 0]))) (windows 4 2 0 (vertices idx base count)))) r)"
  unfolding rewrite_quads_line_def rewrite_quad_strip_line_def
  by (rule for_loop_emits [OF ok];
      simp add: window_reads [OF ok(1), where k = 4] emit_funs bind_emit_list edges_quad del: emit_list.simps)+

lemma rewrite_indices_emits:
  assumes ok: "idx_ok idx count" "unat count \<le> 2 ^ 29" and mode: "as_primitive_mode state \<noteq> PRIM_TYPE_INVALID"
  shows "rewrite_indices state idx base count r = Some (emit_list (rewritten state (vertices idx base count)) r)"
proof -
  let ?xs = "vertices idx base count"
  have points: "concat (map (\<lambda>v. rot (v, [v])) ?xs) = ?xs" by (simp add: rot_hd)
  show ?thesis
    using mode
    by (cases "as_primitive_mode state")
      (simp_all add: rewrite_indices_def rewritten_def prims_def Let_def points concat_map_concat [of rot] comp_def case_prod_unfold length_vertices [OF ok(1)]
        rewrite_points_emits [OF ok] rewrite_lines_emits [OF ok] rewrite_line_loop_emits [OF ok] rewrite_triangles_emits [OF ok]
        rewrite_triangle_strip_emits [OF ok] rewrite_triangle_fan_emits [OF ok] rewrite_polygon_emits [OF ok]
        rewrite_polygon_line_emits [OF ok] rewrite_quads_emits [OF ok] rewrite_quad_strip_emits [OF ok] rewrite_quad_lines_emit [OF ok])
qed

section \<open>The buffer is large enough\<close>

lemma concat_length: "(\<And>x. x \<in> set xs \<Longrightarrow> length (f x) = n) \<Longrightarrow> length (concat (map f xs)) = n * length xs"
  by (induction xs) simp_all

definition prim_size :: "primitive_mode \<Rightarrow> nat" where
  "prim_size m = (if m = PRIM_TYPE_POINTS then 1 else if m = PRIM_TYPE_LINES then 2 else 3)"

lemma edges_size: "v \<in> set (edges [a, b, c, d, e]) \<Longrightarrow> length (snd v) = 2"
  by (auto simp: edges_def windows.simps [of 2] line_prim_def)

lemma length_edges: "length (edges [a, b, c, d, e]) = 4"
  by (simp add: edges_def length_windows)

lemma prims_size:
  assumes "pgraph_prim_rewrite_get_output_mode (as_primitive_mode state) (as_polygon_mode state) = Inr m"
    "v \<in> set (prims state xs)"
  shows "length (snd v) = prim_size m"
  using assms
  by (cases "as_primitive_mode state"; cases "as_polygon_mode state")
    (auto simp: prims_def prim_size_def pgraph_prim_rewrite_get_output_mode_def Let_def line_prim_def fan_prims_def
      quad_prims_def strip_quad_prims_def dest: edges_size split: if_splits)

lemma length_rewritten:
  assumes "pgraph_prim_rewrite_get_output_mode (as_primitive_mode state) (as_polygon_mode state) = Inr m"
  shows "length (rewritten state xs) = prim_size m * length (prims state xs)"
  unfolding rewritten_def
proof (rule concat_length)
  fix v assume "v \<in> set (prims state xs)"
  from prims_size [OF assms this] show "length (rot v) = prim_size m" by (cases v) (simp add: length_rot)
qed

lemma length_concat_const: "(\<And>x. x \<in> set ws \<Longrightarrow> length (f x) = n) \<Longrightarrow> length (concat (map f ws)) = n * length ws"
  by (rule concat_length)

text \<open>The number of primitives, by mode.\<close>

lemma length_prims:
  "length (prims state xs) = (let n = length xs; poly = as_polygon_mode state in case as_primitive_mode state of
       PRIM_TYPE_POINTS \<Rightarrow> n
     | PRIM_TYPE_LINES \<Rightarrow> n div 2
     | PRIM_TYPE_LINE_STRIP \<Rightarrow> n - 1
     | PRIM_TYPE_LINE_LOOP \<Rightarrow> if n < 2 then 0 else n
     | PRIM_TYPE_TRIANGLES \<Rightarrow> n div 3
     | PRIM_TYPE_TRIANGLE_STRIP \<Rightarrow> n - 2
     | PRIM_TYPE_TRIANGLE_FAN \<Rightarrow> n - 2
     | PRIM_TYPE_QUADS \<Rightarrow> if poly = POLY_MODE_POINT then n else if poly = POLY_MODE_LINE then 4 * (n div 4) else 2 * (n div 4)
     | PRIM_TYPE_QUAD_STRIP \<Rightarrow> if poly = POLY_MODE_POINT then n
         else if poly = POLY_MODE_LINE then 4 * ((n - 2) div 2) else 2 * ((n - 2) div 2)
     | PRIM_TYPE_POLYGON \<Rightarrow> if poly = POLY_MODE_POINT then n
         else if poly = POLY_MODE_LINE then (if n < 2 then 0 else n) else n - 2
     | PRIM_TYPE_INVALID \<Rightarrow> 0)"
proof -
  have ws: "length (windows 2 2 0 xs) = length xs div 2" "length (windows 2 1 0 xs) = length xs - 1"
    "length (windows 3 3 0 xs) = length xs div 3" "length (windows 3 1 0 xs) = length xs - 2"
    "length (windows 4 4 0 xs) = length xs div 4" "length (windows 4 2 0 xs) = (length xs - 2) div 2"
    by (auto simp: length_windows)
  have cs: "length (concat (map (\<lambda>(i, w). f w) ws)) = n * length ws" if "\<And>w. length (f w) = n"
    for f :: "u32 list \<Rightarrow> prim list" and n and ws :: "(nat \<times> u32 list) list"
    using that by (intro length_concat_const) auto
  have qs: "length (quad_prims flat w) = 2" "length (strip_quad_prims flat w) = 2" for flat w
    by (simp_all add: quad_prims_def strip_quad_prims_def)
  show ?thesis
    by (cases "as_primitive_mode state")
      (simp_all add: prims_def Let_def fan_prims_def ws cs [OF length_edges] cs [OF qs(1)] cs [OF qs(2)] length_edges del: One_nat_def, auto)
qed

text \<open>The capacity is zero or a power of two from 256 on.\<close>

definition buf_wf :: "rewrite_buf \<Rightarrow> bool" where
  "buf_wf buf \<longleftrightarrow> buf_capacity buf = 0 \<or> (\<exists>k \<le> 31. buf_capacity buf = push_bit k 1)"

lemma double_exp: "push_bit k 1 * 2 = (push_bit (Suc k) 1 :: u32)"
  by (simp add: push_bit_eq_mult)

lemma grow_returns:
  assumes "k \<le> 31" "needed \<le> push_bit 31 1"
  shows "\<exists>m \<le> 31. grow needed (push_bit k 1) = Some (push_bit m 1) \<and> needed \<le> push_bit m 1"
  using assms
proof (induction "31 - k" arbitrary: k)
  case 0
  then have "k = 31" by simp
  moreover have "grow needed (push_bit 31 1) = Some (push_bit 31 1)"
  proof -
    have "\<not> push_bit 31 1 < needed" using "0.prems"(2) by (simp only: not_less)
    then show ?thesis by (subst grow.simps) (simp only: if_False)
  qed
  ultimately show ?case using 0 by blast
next
  case (Suc n)
  show ?case
  proof (cases "push_bit k 1 < needed")
    case True
    then have "grow needed (push_bit k 1) = grow needed (push_bit (Suc k) 1)"
      by (subst grow.simps) (simp only: if_True double_exp)
    moreover have "\<exists>m \<le> 31. grow needed (push_bit (Suc k) 1) = Some (push_bit m 1) \<and> needed \<le> push_bit m 1"
      using Suc by (intro Suc.hyps) simp_all
    ultimately show ?thesis by (simp only:)
  next
    case False
    then have "grow needed (push_bit k 1) = Some (push_bit k 1)"
      by (subst grow.simps) (simp only: if_False)
    then show ?thesis using False Suc.prems by (auto simp: not_less simp del: push_bit_of_1)
  qed
qed

lemma ensure_capacity_returns:
  assumes "buf_wf buf" "needed \<le> push_bit 31 1"
  obtains buf' where "ensure_capacity buf needed = Some buf'" "buf_wf buf'" "needed \<le> buf_capacity buf'"
    "buf_data buf' = buf_data buf"
proof (cases "needed \<le> buf_capacity buf")
  case True
  then show ?thesis using that [of buf] assms by (simp add: ensure_capacity_def)
next
  case False
  have "\<exists>k \<le> 31. (if buf_capacity buf \<noteq> 0 then buf_capacity buf * 2 else 256) = push_bit k 1"
  proof (cases "buf_capacity buf = 0")
    case True
    then show ?thesis by (intro exI [of _ 8]) simp
  next
    case nz: False
    then obtain k where k: "k \<le> 31" "buf_capacity buf = push_bit k 1" using assms(1) unfolding buf_wf_def by blast
    have "k \<noteq> 31" using False assms(2) unfolding k(2) by blast
    then have "Suc k \<le> 31" using k(1) by simp
    moreover have "buf_capacity buf * 2 = push_bit (Suc k) 1" unfolding k(2) by (rule double_exp)
    ultimately show ?thesis using nz by (simp only: if_True simp_thms) blast
  qed
  then obtain k where "k \<le> 31" "(if buf_capacity buf \<noteq> 0 then buf_capacity buf * 2 else 256) = push_bit k 1" by blast
  with grow_returns [OF this(1) assms(2)] obtain m where "m \<le> 31" "needed \<le> push_bit m 1"
    "ensure_capacity buf needed = Some (buf\<lparr>buf_capacity := push_bit m 1\<rparr>)"
    using False by (auto simp: ensure_capacity_def simp del: push_bit_of_1)
  then show ?thesis using that by (auto simp: buf_wf_def simp del: push_bit_of_1)
qed

lemma emit_list_fits:
  assumes "unat (num_indices r) + length vs \<le> unat (buf_capacity buf)"
  shows "\<exists>d. emit_list vs (buf, r) = Inr (buf\<lparr>buf_data := d\<rparr>, r\<lparr>num_indices := num_indices r + of_nat (length vs)\<rparr>) \<and>
    (\<forall>i < length vs. d (unat (num_indices r) + i) = vs ! i) \<and> (\<forall>i < unat (num_indices r). d i = buf_data buf i)"
  using assms
proof (induction vs arbitrary: buf r)
  case Nil
  then show ?case by (intro exI [of _ "buf_data buf"]) simp
next
  case (Cons v vs)
  let ?n = "unat (num_indices r)"
  let ?buf = "buf\<lparr>buf_data := (buf_data buf)(?n := v)\<rparr>" and ?r = "r\<lparr>num_indices := num_indices r + 1\<rparr>"
  have "?n + 1 < 2 ^ 32" using Cons.prems unsigned_less [where ?'a = nat, of "buf_capacity buf"] by simp
  then have n: "unat (num_indices r + 1) = ?n + 1" using unat_plus_small [of "num_indices r" 1] by simp
  have "emit_vertex v (buf, r) = Inr (?buf, ?r)"
    using Cons.prems by (simp add: emit_vertex_def word_less_nat_alt)
  moreover obtain d where d:
    "emit_list vs (?buf, ?r) = Inr (?buf\<lparr>buf_data := d\<rparr>, ?r\<lparr>num_indices := num_indices ?r + of_nat (length vs)\<rparr>)"
    "\<And>i. i < length vs \<Longrightarrow> d (?n + 1 + i) = vs ! i" "\<And>i. i < ?n + 1 \<Longrightarrow> d i = buf_data ?buf i"
    using Cons.IH [of ?r ?buf] Cons.prems n by auto
  moreover have "d (?n + i) = (v # vs) ! i" if "i < Suc (length vs)" for i
    using that d(2) [of "i - 1"] d(3) [of ?n] by (cases i) simp_all
  ultimately show ?case by (intro exI [of _ d]) (simp add: add.assoc)
qed

lemma unat_sizes:
  fixes n :: u32
  assumes "unat n \<le> 2 ^ 29"
  shows "unat (n * 2) = unat n * 2" "1 \<le> n \<Longrightarrow> unat ((n - 1) * 2) = (unat n - 1) * 2"
    "2 \<le> n \<Longrightarrow> unat ((n - 2) * 3) = (unat n - 2) * 3"
    "unat (n div 4 * 8) = unat n div 4 * 8" "unat (n div 4 * 6) = unat n div 4 * 6"
    "2 \<le> n \<Longrightarrow> unat ((n - 2) div 2 * 8) = (unat n - 2) div 2 * 8"
    "2 \<le> n \<Longrightarrow> unat ((n - 2) div 2 * 6) = (unat n - 2) div 2 * 6"
  using assms by (simp_all add: unat_word_ariths(2) unat_div unat_sub del: left_diff_distrib_numeral)

lemma unat_max_output:
  assumes "unat n \<le> 2 ^ 29"
  shows "unat (max_output_indices mode poly n) = (let k = unat n in
    case mode of
       PRIM_TYPE_POINTS \<Rightarrow> k
     | PRIM_TYPE_LINES \<Rightarrow> k
     | PRIM_TYPE_LINE_STRIP \<Rightarrow> (k - 1) * 2
     | PRIM_TYPE_LINE_LOOP \<Rightarrow> if 2 \<le> k then k * 2 else 0
     | PRIM_TYPE_TRIANGLES \<Rightarrow> k
     | PRIM_TYPE_TRIANGLE_STRIP \<Rightarrow> (k - 2) * 3
     | PRIM_TYPE_TRIANGLE_FAN \<Rightarrow> (k - 2) * 3
     | PRIM_TYPE_QUADS \<Rightarrow>
         if poly = POLY_MODE_POINT then k else if poly = POLY_MODE_LINE then k div 4 * 8 else k div 4 * 6
     | PRIM_TYPE_QUAD_STRIP \<Rightarrow>
         if poly = POLY_MODE_POINT then k
         else if poly = POLY_MODE_LINE then (k - 2) div 2 * 8 else (k - 2) div 2 * 6
     | PRIM_TYPE_POLYGON \<Rightarrow>
         if poly = POLY_MODE_POINT then k
         else if poly = POLY_MODE_LINE then (if 2 \<le> k then k * 2 else 0) else (k - 2) * 3
     | PRIM_TYPE_INVALID \<Rightarrow> 0)"
proof -
  have le: "(2 \<le> n) = (2 \<le> unat n)" "(3 \<le> n) = (3 \<le> unat n)" "(n < 4) = (unat n < 4)" "(1 \<le> n) = (1 \<le> unat n)"
    by (simp_all add: word_le_nat_alt word_less_nat_alt)
  note sizes = unat_sizes [OF assms, unfolded le]
  show ?thesis
    by (cases mode) (auto simp: max_output_indices_def Let_def le sizes simp del: left_diff_distrib_numeral)
qed

lemma max_output_bound:
  assumes "pgraph_prim_rewrite_get_output_mode (as_primitive_mode state) (as_polygon_mode state) = Inr m"
    "length xs = unat count" "unat count \<le> 2 ^ 29"
  shows "length (rewritten state xs) \<le> unat (max_output_indices (as_primitive_mode state) (as_polygon_mode state) count)"
    "unat (max_output_indices (as_primitive_mode state) (as_polygon_mode state) count) \<le> 2 ^ 31"
  using assms(1,3) unfolding length_rewritten [OF assms(1)] unat_max_output [OF assms(3)] length_prims Let_def assms(2)
  by (cases "as_primitive_mode state"; cases "as_polygon_mode state";
      auto simp: prim_size_def pgraph_prim_rewrite_get_output_mode_def)+

section \<open>What the entry points return\<close>

text \<open>The indices a finished result holds.\<close>

definition emitted :: "emission \<Rightarrow> u32 list" where
  "emitted = (\<lambda>(buf, r). map (buf_data buf) [0..<unat (num_indices r)])"

lemma emit_list_emitted:
  assumes "unat (num_indices r) + length vs \<le> unat (buf_capacity buf)"
  obtains buf' r' where "emit_list vs (buf, r) = Inr (buf', r')" "emitted (buf', r') = emitted (buf, r) @ vs"
    "buf_capacity buf' = buf_capacity buf" "unat (num_indices r') = unat (num_indices r) + length vs"
    "output_mode r' = output_mode r" "flat_provoking_rewrite r' = flat_provoking_rewrite r"
proof -
  from emit_list_fits [OF assms] obtain d where
    e: "emit_list vs (buf, r) = Inr (buf\<lparr>buf_data := d\<rparr>, r\<lparr>num_indices := num_indices r + of_nat (length vs)\<rparr>)" and
    d: "\<And>i. i < length vs \<Longrightarrow> d (unat (num_indices r) + i) = vs ! i" "\<And>i. i < unat (num_indices r) \<Longrightarrow> d i = buf_data buf i"
    by blast
  have "unat (num_indices r) + length vs < 2 ^ 32"
    using assms unsigned_less [where ?'a = nat, of "buf_capacity buf"] by simp
  note n = unat_plus_small [OF this]
  have "map d [0..<unat (num_indices r) + length vs] = map (buf_data buf) [0..<unat (num_indices r)] @ vs"
    using d by (intro nth_equalityI) (auto simp: nth_append, metis add_diff_inverse_nat nat_add_left_cancel_less)
  then show ?thesis using n by (intro that [OF e]) (simp_all add: emitted_def)
qed

lemma empty_result_eq:
  assumes "as_primitive_mode state \<noteq> PRIM_TYPE_INVALID"
  obtains m where "pgraph_prim_rewrite_get_output_mode (as_primitive_mode state) (as_polygon_mode state) = Inr m"
    "empty_result enabled state = Inr \<lparr>indices = False, num_indices = 0, output_mode = m,
      flat_provoking_rewrite = (as_flat_shading state \<and> pgraph_prim_rewrite_needed enabled state)\<rparr>"
proof -
  have "\<exists>m. pgraph_prim_rewrite_get_output_mode (as_primitive_mode state) (as_polygon_mode state) = Inr m"
    using assms by (cases "as_primitive_mode state") (simp_all add: pgraph_prim_rewrite_get_output_mode_def)
  then show ?thesis using that by (auto simp: empty_result_def)
qed

text \<open>C35: when a rewrite is needed, the indexed entry point returns, no assertion fails, no access
  leaves the input or the buffer, and the result lists the primitives of the draw, each rotated to
  start with its provoking vertex.\<close>

theorem prim_rewrite_indexed_refines:
  assumes "buf_wf buf" "pgraph_prim_rewrite_needed enabled state" "as_primitive_mode state \<noteq> PRIM_TYPE_INVALID"
    "length xs \<le> 2 ^ 29"
  shows "\<exists>buf' r. pgraph_prim_rewrite_indexed enabled buf state xs (of_nat (length xs)) = Some (Inr (buf', r)) \<and>
    buf_wf buf' \<and> emitted (buf', r) = concat (map rot (prims state xs)) \<and>
    pgraph_prim_rewrite_get_output_mode (as_primitive_mode state) (as_polygon_mode state) = Inr (output_mode r) \<and>
    flat_provoking_rewrite r = as_flat_shading state"
proof -
  let ?n = "of_nat (length xs) :: u32"
  let ?max = "max_output_indices (as_primitive_mode state) (as_polygon_mode state) ?n"
  obtain m where m: "pgraph_prim_rewrite_get_output_mode (as_primitive_mode state) (as_polygon_mode state) = Inr m"
    and e: "empty_result enabled state = Inr \<lparr>indices = False, num_indices = 0, output_mode = m, flat_provoking_rewrite = as_flat_shading state\<rparr>"
    by (rule empty_result_eq [OF assms(3), of enabled]) (use assms(2) in auto)
  have n: "unat ?n = length xs" using assms(4) by (simp add: unat_of_nat)
  have ok: "idx_ok (Some xs) ?n" "vertices (Some xs) 0 ?n = xs" by (simp_all add: idx_ok_def vertices_def n)
  have bound: "length (rewritten state xs) \<le> unat ?max" "unat ?max \<le> 2 ^ 31"
    using max_output_bound [OF m, of xs ?n] n assms(4) by simp_all
  show ?thesis
  proof (cases "?max = 0")
    case True
    with bound(1) have "rewritten state xs = []" by simp
    then show ?thesis using True assms(1,2) e m
      by (simp add: pgraph_prim_rewrite_indexed_def emitted_def rewritten_def)
  next
    case False
    have "?max \<le> push_bit 31 1" using bound(2) by (simp only: word_le_nat_alt unat_exp32)
    then obtain buf1 where b: "ensure_capacity buf ?max = Some buf1" "buf_wf buf1" "?max \<le> buf_capacity buf1"
      by (rule ensure_capacity_returns [OF assms(1)])
    let ?r = "\<lparr>indices = True, num_indices = 0 :: u32, output_mode = m, flat_provoking_rewrite = as_flat_shading state\<rparr>"
    have "unat (num_indices ?r) + length (rewritten state xs) \<le> unat (buf_capacity buf1)"
      using bound(1) b(3) by (simp add: word_le_nat_alt)
    then obtain buf' r' where r: "emit_list (rewritten state xs) (buf1, ?r) = Inr (buf', r')"
      "emitted (buf', r') = rewritten state xs" "buf_capacity buf' = buf_capacity buf1"
      "unat (num_indices r') = length (rewritten state xs)" "output_mode r' = m" "flat_provoking_rewrite r' = as_flat_shading state"
      by (rule emit_list_emitted) (simp add: emitted_def)
    have "rewrite_indices state (Some xs) 0 ?n (buf1, ?r) = Some (Inr (buf', r'))"
      using rewrite_indices_emits [OF ok(1) _ assms(3), of 0] n assms(4) ok(2) r(1) by simp
    then have "pgraph_prim_rewrite_indexed enabled buf state xs ?n = Some (Inr (buf', r'))"
      using False assms(2) e b(1) bound(1) r(4) by (simp add: pgraph_prim_rewrite_indexed_def word_le_nat_alt)
    then show ?thesis using r b(2) m unfolding rewritten_def buf_wf_def by auto
  qed
qed

definition strip_state :: assembly_state where
  "strip_state = \<lparr>as_primitive_mode = PRIM_TYPE_TRIANGLE_STRIP, as_polygon_mode = POLY_MODE_FILL,
     as_last_provoking = True, as_flat_shading = True\<rparr>"

theorem prim_rewrite_indexed_refines_witness:
  "\<exists>buf' r. pgraph_prim_rewrite_indexed True \<lparr>buf_data = \<lambda>_. 0, buf_capacity = 0\<rparr> strip_state [4, 5, 6, 7] 4 = Some (Inr (buf', r)) \<and>
    emitted (buf', r) = [6, 4, 5, 7, 6, 5]"
proof -
  have "concat (map rot (prims strip_state [4, 5, 6, 7])) = [6, 4, 5, 7, 6, 5]"
    by (simp add: prims_def strip_state_def windows.simps [of 3] rot_def)
  then show ?thesis
    using prim_rewrite_indexed_refines [of "\<lparr>buf_data = \<lambda>_. 0, buf_capacity = 0\<rparr>" True strip_state "[4, 5, 6, 7]"]
    by (auto simp: buf_wf_def pgraph_prim_rewrite_needed_def strip_state_def)
qed

text \<open>A range with a positive count draws consecutive vertices.\<close>

definition range_xs :: "u32 \<times> u32 \<Rightarrow> u32 list" where
  "range_xs = (\<lambda>(start, count). if sint count \<le> 0 then [] else vertices None start count)"

definition range_ok :: "u32 \<times> u32 \<Rightarrow> bool" where
  "range_ok = (\<lambda>(start, count). sint count \<le> 0 \<or> 0 \<le> sint start \<and> unat count \<le> 2 ^ 29)"

definition range_max :: "assembly_state \<Rightarrow> u32 \<times> u32 \<Rightarrow> nat" where
  "range_max state = (\<lambda>(start, count). if sint count \<le> 0 then 0
     else unat (max_output_indices (as_primitive_mode state) (as_polygon_mode state) count))"

lemma rewritten_Nil: "rewritten state [] = []"
  by (cases "as_primitive_mode state") (simp_all add: rewritten_def prims_def fan_prims_def Let_def windows_short)

lemma range_fits:
  assumes "pgraph_prim_rewrite_get_output_mode (as_primitive_mode state) (as_polygon_mode state) = Inr m" "range_ok rg"
  shows "length (rewritten state (range_xs rg)) \<le> range_max state rg"
  using max_output_bound(1) [OF assms(1), of "vertices None (fst rg) (snd rg)" "snd rg"] assms(2)
  by (cases rg) (auto simp: range_xs_def range_max_def range_ok_def rewritten_Nil length_vertices idx_ok_def)

lemma total_max_output_sum:
  assumes "sum_list (map (range_max state) ranges) < 2 ^ 32"
  shows "unat (total_max_output state ranges) = sum_list (map (range_max state) ranges)"
proof -
  have "unat (fold (\<lambda>(start, count) t. if sint count \<le> 0 then t
      else t + ucast (max_output_indices (as_primitive_mode state) (as_polygon_mode state) count)) rs t) =
      unat t + sum_list (map (range_max state) rs)"
    if "unat t + sum_list (map (range_max state) rs) < 2 ^ 64" for t :: u64 and rs
    using that
  proof (induction rs arbitrary: t)
    case (Cons rg rs)
    obtain s c where rg: "rg = (s, c)" by (cases rg)
    let ?m = "max_output_indices (as_primitive_mode state) (as_polygon_mode state) c"
    show ?case
    proof (cases "sint c \<le> 0")
      case True
      then show ?thesis using Cons by (simp add: rg range_max_def)
    next
      case False
      have m: "unat (ucast ?m :: u64) = unat ?m" by (rule unat_ucast_up) simp
      have "unat (t + ucast ?m :: u64) = unat t + unat ?m"
        using Cons.prems False m by (subst unat_add_lem [THEN iffD1]) (simp_all add: rg range_max_def)
      then show ?thesis using Cons.IH [of "t + ucast ?m"] Cons.prems False by (simp add: rg range_max_def)
    qed
  qed simp
  from this [of 0 ranges] assms show ?thesis by (simp add: total_max_output_def)
qed

lemma rewrite_ranges_emits:
  assumes m: "pgraph_prim_rewrite_get_output_mode (as_primitive_mode state) (as_polygon_mode state) = Inr m"
    and mode: "as_primitive_mode state \<noteq> PRIM_TYPE_INVALID" and ok: "\<forall>rg \<in> set ranges. range_ok rg"
    and fits: "unat (num_indices r) + length (concat (map (\<lambda>rg. rewritten state (range_xs rg)) ranges)) \<le> unat (buf_capacity buf)"
  shows "rewrite_ranges state ranges (buf, r) =
    Some (emit_list (concat (map (\<lambda>rg. rewritten state (range_xs rg)) ranges)) (buf, r))"
  using ok fits
proof (induction ranges arbitrary: buf r)
  case (Cons rg ranges)
  obtain s c where rg: "rg = (s, c)" by (cases rg)
  show ?case
  proof (cases "sint c \<le> 0")
    case True
    then show ?thesis using Cons by (simp add: rg range_xs_def rewritten_Nil)
  next
    case False
    let ?vs = "rewritten state (vertices None s c)"
    have xs: "range_xs rg = vertices None s c" using False by (simp add: rg range_xs_def)
    have c: "0 \<le> sint s" "unat c \<le> 2 ^ 29" using Cons.prems(1) False by (auto simp: rg range_ok_def)
    have run: "rewrite_indices state None s c (buf, r) = Some (emit_list ?vs (buf, r))"
      using c(2) by (intro rewrite_indices_emits [OF _ _ mode]) (simp_all add: idx_ok_def)
    have "unat (num_indices r) + length ?vs \<le> unat (buf_capacity buf)" using Cons.prems(2) by (simp add: xs)
    then obtain buf' r' where e: "emit_list ?vs (buf, r) = Inr (buf', r')" "buf_capacity buf' = buf_capacity buf"
      "unat (num_indices r') = unat (num_indices r) + length ?vs" by (rule emit_list_emitted)
    then have "rewrite_ranges state ranges (buf', r') =
        Some (emit_list (concat (map (\<lambda>rg. rewritten state (range_xs rg)) ranges)) (buf', r'))"
      using Cons.prems by (intro Cons.IH) (simp_all add: xs)
    then show ?thesis using False c(1) run e(1) xs by (simp add: rg emit_list_append)
  qed
qed simp

text \<open>C36: for ranges of consecutive vertices that fit the index space the range entry point returns,
  without fault, the primitives of all ranges in order; ranges without vertices are skipped.\<close>

theorem prim_rewrite_ranges_refines:
  assumes "buf_wf buf" "pgraph_prim_rewrite_needed enabled state" "as_primitive_mode state \<noteq> PRIM_TYPE_INVALID"
    "\<forall>rg \<in> set ranges. range_ok rg" "sum_list (map (range_max state) ranges) \<le> 2 ^ 31"
  shows "\<exists>buf' r. pgraph_prim_rewrite_ranges enabled buf state ranges = Some (Inr (buf', r)) \<and> buf_wf buf' \<and>
    emitted (buf', r) = concat (map (\<lambda>rg. concat (map rot (prims state (range_xs rg)))) ranges)"
proof -
  let ?vs = "concat (map (\<lambda>rg. rewritten state (range_xs rg)) ranges)" and ?tot = "total_max_output state ranges"
  obtain m where m: "pgraph_prim_rewrite_get_output_mode (as_primitive_mode state) (as_polygon_mode state) = Inr m"
    and e: "empty_result enabled state = Inr \<lparr>indices = False, num_indices = 0, output_mode = m, flat_provoking_rewrite = as_flat_shading state\<rparr>"
    by (rule empty_result_eq [OF assms(3), of enabled]) (use assms(2) in auto)
  have tot: "unat ?tot = sum_list (map (range_max state) ranges)" using assms(5) by (intro total_max_output_sum) simp
  have "length ?vs \<le> sum_list (map (range_max state) ranges)"
    using assms(4) range_fits [OF m] by (induction ranges) (auto intro!: add_mono)
  then have len: "length ?vs \<le> unat ?tot" by (simp only: tot)
  have small: "?tot \<le> 0xFFFFFFFF" using tot assms(5) by (simp add: word_le_nat_alt)
  have u: "unat (ucast ?tot :: u32) = unat ?tot" using tot assms(5) by (simp add: unsigned_ucast_eq take_bit_nat_eq_self)
  show ?thesis
  proof (cases "?tot = 0")
    case True
    with len have "?vs = []" by simp
    then show ?thesis using True assms(1,2) e small
      by (simp add: pgraph_prim_rewrite_ranges_def emitted_def rewritten_def)
  next
    case False
    have "(ucast ?tot :: u32) \<le> push_bit 31 1" using tot assms(5) u by (simp only: word_le_nat_alt unat_exp32)
    then obtain buf1 where b: "ensure_capacity buf (ucast ?tot) = Some buf1" "buf_wf buf1" "ucast ?tot \<le> buf_capacity buf1"
      by (rule ensure_capacity_returns [OF assms(1)])
    let ?r = "\<lparr>indices = True, num_indices = 0 :: u32, output_mode = m, flat_provoking_rewrite = as_flat_shading state\<rparr>"
    have fits: "unat (num_indices ?r) + length ?vs \<le> unat (buf_capacity buf1)"
      using len b(3) u by (simp add: word_le_nat_alt)
    then obtain buf' r' where r: "emit_list ?vs (buf1, ?r) = Inr (buf', r')"
      "emitted (buf', r') = ?vs" "buf_capacity buf' = buf_capacity buf1" "unat (num_indices r') = length ?vs"
      by (rule emit_list_emitted) (simp add: emitted_def)
    have "ucast (num_indices r') \<le> ?tot"
      using r(4) len by (simp add: word_le_nat_alt unat_ucast_up)
    then have "pgraph_prim_rewrite_ranges enabled buf state ranges = Some (Inr (buf', r'))"
      using False assms(2) e b(1) small rewrite_ranges_emits [OF m assms(3,4) fits] r(1)
      by (simp add: pgraph_prim_rewrite_ranges_def)
    then show ?thesis using r b(2) unfolding rewritten_def buf_wf_def by auto
  qed
qed

theorem prim_rewrite_ranges_refines_witness:
  "\<exists>buf' r. pgraph_prim_rewrite_ranges True \<lparr>buf_data = \<lambda>_. 0, buf_capacity = 0\<rparr> strip_state [(10, 3), (7, 0), (20, 4)] = Some (Inr (buf', r)) \<and>
    emitted (buf', r) = [12, 10, 11, 22, 20, 21, 23, 22, 21]"
proof -
  have "map range_xs [(10, 3), (7, 0), (20, 4)] = [[10, 11, 12], [], [20, 21, 22, 23]]"
    by (simp add: range_xs_def vertices_def upt_rec)
  then have "concat (map (\<lambda>rg. concat (map rot (prims strip_state (range_xs rg)))) [(10, 3), (7, 0), (20, 4)]) =
      [12, 10, 11, 22, 20, 21, 23, 22, 21]"
    by (simp add: prims_def strip_state_def windows.simps [of 3] rot_def)
  moreover have "\<forall>rg \<in> set [(10, 3), (7, 0), (20, 4)]. range_ok rg" by (simp add: range_ok_def)
  moreover have "sum_list (map (range_max strip_state) [(10, 3), (7, 0), (20, 4)]) \<le> 2 ^ 31"
    by (simp add: range_max_def max_output_indices_def strip_state_def)
  ultimately show ?thesis
    using prim_rewrite_ranges_refines [of "\<lparr>buf_data = \<lambda>_. 0, buf_capacity = 0\<rparr>" True strip_state "[(10, 3), (7, 0), (20, 4)]"]
    by (auto simp: buf_wf_def pgraph_prim_rewrite_needed_def strip_state_def)
qed

lemma grow_small:
  assumes "grow needed cap = Some c" "\<exists>i. cap = push_bit i 1"
  shows "needed \<le> push_bit 31 1"
proof -
  have "(\<exists>i. cap = push_bit i 1) \<longrightarrow> needed \<le> push_bit 31 1"
  proof (rule grow.raw_induct [of "\<lambda>needed cap c. (\<exists>i. cap = push_bit i 1) \<longrightarrow> needed \<le> push_bit 31 1", OF _ assms(1)], intro impI)
    fix f needed cap c
    assume IH: "\<And>needed cap c. f needed cap = Some c \<Longrightarrow> (\<exists>i. cap = push_bit i 1) \<longrightarrow> needed \<le> push_bit 31 1"
      and r: "(if cap < needed then f needed (cap * 2) else Some cap) = Some c" and "\<exists>i. cap = (push_bit i 1 :: u32)"
    then obtain i where i: "cap = push_bit i 1" by blast
    show "needed \<le> push_bit 31 1"
    proof (cases "cap < needed")
      case True
      with r have "f needed (cap * 2) = Some c" by simp
      moreover have "cap * 2 = push_bit (Suc i) 1" unfolding i by (rule double_exp)
      ultimately show ?thesis using IH by blast
    next
      case False
      then have "needed \<le> cap" by (simp only: not_less)
      also have "cap \<le> push_bit 31 1" unfolding i by (rule exp_le_top)
      finally show ?thesis .
    qed
  qed
  with assms(2) show ?thesis by blast
qed

text \<open>C37: growing a buffer returns exactly when at most \<open>2 ^ 31\<close> indices are needed; above that the
  doubling runs out of 32 bits and never ends.\<close>

theorem ensure_capacity_terminates:
  assumes "buf_wf buf"
  shows "(\<exists>buf'. ensure_capacity buf needed = Some buf') \<longleftrightarrow> needed \<le> push_bit 31 1"
proof
  assume "needed \<le> push_bit 31 1"
  then show "\<exists>buf'. ensure_capacity buf needed = Some buf'" by (blast intro: ensure_capacity_returns [OF assms])
next
  assume r: "\<exists>buf'. ensure_capacity buf needed = Some buf'"
  show "needed \<le> push_bit 31 1"
  proof (cases "needed \<le> buf_capacity buf")
    case True
    moreover have "buf_capacity buf \<le> push_bit 31 1"
      using assms exp_le_top unfolding buf_wf_def by (metis word_zero_le)
    ultimately show ?thesis by (rule order_trans)
  next
    case False
    let ?c = "if buf_capacity buf \<noteq> 0 then buf_capacity buf * 2 else 256"
    obtain c where c: "grow needed ?c = Some c" using r False by (auto simp: ensure_capacity_def)
    have "256 = (push_bit 8 1 :: u32)" by simp
    with assms double_exp have "\<exists>i. ?c = push_bit i 1" unfolding buf_wf_def by metis
    then show ?thesis by (rule grow_small [OF c])
  qed
qed

theorem ensure_capacity_terminates_witness:
  "(\<exists>buf'. ensure_capacity \<lparr>buf_data = \<lambda>_. 0, buf_capacity = 0\<rparr> 1000 = Some buf') \<and>
   ensure_capacity \<lparr>buf_data = \<lambda>_. 0, buf_capacity = 0\<rparr> 0x80000001 = None"
proof -
  have "buf_wf \<lparr>buf_data = \<lambda>_. 0, buf_capacity = 0\<rparr>" by (simp add: buf_wf_def)
  from ensure_capacity_terminates [OF this, of 1000] ensure_capacity_terminates [OF this, of "0x80000001"]
  show ?thesis by simp
qed

end
