(* ===== verification/S3TC.thy ===== *)
theory S3TC
  imports Xbox_Prelude
begin

unbundle bit_operations_syntax

text \<open>
  Decompression of S3TC textures (\<open>hw/xbox/nv2a/pgraph/s3tc.c\<close>): the colour palette of a block,
  the three block formats, and the walks over the blocks of a 2D and a 3D texture.  The output
  buffer is its size and its contents, which are arbitrary when it is allocated; a write outside
  it, a read past the compressed data, and an offset beyond the signed 32-bit range are faults.
  Loop counters are signed in the source and \<open>int\<close> here.
\<close>

section \<open>Palettes\<close>

datatype s3tc_format = DXT1 | DXT3 | DXT5

record palette =
  pal_r :: "u8 list"
  pal_g :: "u8 list"
  pal_b :: "u8 list"
  pal_a :: "u8 list"

definition expand_r :: "u16 \<Rightarrow> u8" where
  "expand_r c = of_nat (unat (drop_bit 8 (c AND 0xF800)) * 0xFF div 0xF8)"

definition expand_g :: "u16 \<Rightarrow> u8" where
  "expand_g c = of_nat (unat (drop_bit 3 (c AND 0x07E0)) * 0xFF div 0xFC)"

definition expand_b :: "u16 \<Rightarrow> u8" where
  "expand_b c = of_nat (unat (push_bit 3 (c AND 0x001F)) * 0xFF div 0xF8)"

text \<open>\<open>mix p x q y n\<close> is \<open>(p * x + q * y) / n\<close>, computed in \<open>int\<close> and stored in a byte.\<close>

definition mix :: "nat \<Rightarrow> u8 \<Rightarrow> nat \<Rightarrow> u8 \<Rightarrow> nat \<Rightarrow> u8" where
  "mix p x q y n = of_nat ((p * unat x + q * unat y) div n)"

definition decode_bc1_colors :: "u16 \<Rightarrow> u16 \<Rightarrow> bool \<Rightarrow> palette" where
  "decode_bc1_colors c0 c1 transparent =
    (let r0 = expand_r c0; g0 = expand_g c0; b0 = expand_b c0;
         r1 = expand_r c1; g1 = expand_g c1; b1 = expand_b c1
     in if transparent
        then \<lparr>pal_r = [r0, r1, mix 1 r0 1 r1 2, 0],
              pal_g = [g0, g1, mix 1 g0 1 g1 2, 0],
              pal_b = [b0, b1, mix 1 b0 1 b1 2, 0],
              pal_a = [255, 255, 255, 0]\<rparr>
        else \<lparr>pal_r = [r0, r1, mix 2 r0 1 r1 3, mix 1 r0 2 r1 3],
              pal_g = [g0, g1, mix 2 g0 1 g1 3, mix 1 g0 2 g1 3],
              pal_b = [b0, b1, mix 2 b0 1 b1 3, mix 1 b0 2 b1 3],
              pal_a = [255, 255, 255, 255]\<rparr>)"

section \<open>Blocks\<close>

record texture_buf =
  tb_size :: nat
  tb_data :: "nat \<Rightarrow> u8"

definition put_byte :: "nat \<Rightarrow> u8 \<Rightarrow> texture_buf \<Rightarrow> texture_buf res" where
  "put_byte p v t = check (p < tb_size t) OutOfBounds (Inr (t\<lparr>tb_data := (tb_data t)(p := v)\<rparr>))"

definition write_pixel :: "int \<Rightarrow> u8 \<Rightarrow> u8 \<Rightarrow> u8 \<Rightarrow> u8 \<Rightarrow> texture_buf \<Rightarrow> texture_buf res" where
  "write_pixel p r g b a t =
    check (0 \<le> p \<and> p * 4 < 2 ^ 31) SignedOverflow
      (let q = nat (p * 4) in
       bind_res (put_byte q r t) (\<lambda>t.
       bind_res (put_byte (q + 1) g t) (\<lambda>t.
       bind_res (put_byte (q + 2) b t) (put_byte (q + 3) a))))"

definition write_block_to_texture ::
  "u32 \<Rightarrow> int \<Rightarrow> int \<Rightarrow> int \<Rightarrow> int \<Rightarrow> int \<Rightarrow> palette \<Rightarrow> bool \<Rightarrow> texture_buf \<Rightarrow> texture_buf res" where
  "write_block_to_texture indices i j width height z_pos_factor pal separate_alpha =
    (let x0 = i * 4; y0 = j * 4; x1 = x0 + 4; y1 = y0 + 4 in
     fold_res (\<lambda>y.
       let y_index = 4 * (y - y0); z_plus_y_pos_factor = z_pos_factor + y * width in
       fold_res (\<lambda>x.
         let xy_index = nat (y_index + x - x0);
             index = unat (drop_bit (2 * xy_index) indices AND 0x03);
             alpha_index = (if separate_alpha then xy_index else index)
         in write_pixel (z_plus_y_pos_factor + x)
              (pal_r pal ! index) (pal_g pal ! index) (pal_b pal ! index) (pal_a pal ! alpha_index))
       [x0..min x1 width - 1])
     [y0..min y1 height - 1])"

text \<open>The compressed data and the reads of its little-endian parts.\<close>

definition rd16 :: "u8 list \<Rightarrow> nat \<Rightarrow> u16" where
  "rd16 d p = ucast (d ! p) OR push_bit 8 (ucast (d ! (p + 1)))"

definition rd32 :: "u8 list \<Rightarrow> nat \<Rightarrow> u32" where
  "rd32 d p = ucast (rd16 d p) OR push_bit 16 (ucast (rd16 d (p + 2)))"

definition rd64 :: "u8 list \<Rightarrow> nat \<Rightarrow> u64" where
  "rd64 d p = ucast (rd32 d p) OR push_bit 32 (ucast (rd32 d (p + 4)))"

definition decompress_dxt1_block ::
  "u8 list \<Rightarrow> nat \<Rightarrow> int \<Rightarrow> int \<Rightarrow> int \<Rightarrow> int \<Rightarrow> int \<Rightarrow> texture_buf \<Rightarrow> texture_buf res" where
  "decompress_dxt1_block data p i j width height z_pos_factor t =
    check (p + 8 \<le> length data) OutOfBounds
      (let c0 = rd16 data p; c1 = rd16 data (p + 2)
       in write_block_to_texture (rd32 data (p + 4)) i j width height z_pos_factor
            (decode_bc1_colors c0 c1 (c0 \<le> c1)) False t)"

definition dxt3_alpha :: "u64 \<Rightarrow> u8 list" where
  "dxt3_alpha alpha =
    map (\<lambda>a_i. of_nat (unat (push_bit 4 (drop_bit (4 * a_i) alpha AND 0x0F)) * 0xFF div 0xF0)) [0..<16]"

definition decompress_dxt3_block ::
  "u8 list \<Rightarrow> nat \<Rightarrow> int \<Rightarrow> int \<Rightarrow> int \<Rightarrow> int \<Rightarrow> int \<Rightarrow> texture_buf \<Rightarrow> texture_buf res" where
  "decompress_dxt3_block data p i j width height z_pos_factor t =
    check (p + 16 \<le> length data) OutOfBounds
      (let c0 = rd16 data (p + 8); c1 = rd16 data (p + 10)
       in write_block_to_texture (rd32 data (p + 12)) i j width height z_pos_factor
            ((decode_bc1_colors c0 c1 False)\<lparr>pal_a := dxt3_alpha (rd64 data p)\<rparr>) True t)"

definition dxt5_palette :: "u8 \<Rightarrow> u8 \<Rightarrow> u8 list" where
  "dxt5_palette a0 a1 =
    (if a0 > a1
     then [a0, a1, mix 6 a0 1 a1 7, mix 5 a0 2 a1 7, mix 4 a0 3 a1 7, mix 3 a0 4 a1 7, mix 2 a0 5 a1 7, mix 1 a0 6 a1 7]
     else [a0, a1, mix 4 a0 1 a1 5, mix 3 a0 2 a1 5, mix 2 a0 3 a1 5, mix 1 a0 4 a1 5, 0, 255])"

definition dxt5_alpha :: "u64 \<Rightarrow> u8 list \<Rightarrow> u8 list" where
  "dxt5_alpha alpha a_palette = map (\<lambda>a_i. a_palette ! unat (drop_bit (16 + 3 * a_i) alpha AND 0x07)) [0..<16]"

definition decompress_dxt5_block ::
  "u8 list \<Rightarrow> nat \<Rightarrow> int \<Rightarrow> int \<Rightarrow> int \<Rightarrow> int \<Rightarrow> int \<Rightarrow> texture_buf \<Rightarrow> texture_buf res" where
  "decompress_dxt5_block data p i j width height z_pos_factor t =
    check (p + 16 \<le> length data) OutOfBounds
      (let c0 = rd16 data (p + 8); c1 = rd16 data (p + 10)
       in write_block_to_texture (rd32 data (p + 12)) i j width height z_pos_factor
            ((decode_bc1_colors c0 c1 False)\<lparr>pal_a := dxt5_alpha (rd64 data p) (dxt5_palette (data ! p) (data ! (p + 1)))\<rparr>)
            True t)"

section \<open>Textures\<close>

text \<open>The block at a position of the data, by format; \<open>n\<close> counts blocks from the start.\<close>

definition decompress_block ::
  "s3tc_format \<Rightarrow> u8 list \<Rightarrow> nat \<Rightarrow> int \<Rightarrow> int \<Rightarrow> int \<Rightarrow> int \<Rightarrow> int \<Rightarrow> texture_buf \<Rightarrow> texture_buf res" where
  "decompress_block color_format data n =
    (case color_format of
       DXT1 \<Rightarrow> decompress_dxt1_block data (8 * n)
     | DXT3 \<Rightarrow> decompress_dxt3_block data (16 * n)
     | DXT5 \<Rightarrow> decompress_dxt5_block data (16 * n))"

text \<open>\<open>fresh\<close> is what the allocated memory holds.\<close>

definition s3tc_decompress_2d :: "s3tc_format \<Rightarrow> u8 list \<Rightarrow> u32 \<Rightarrow> u32 \<Rightarrow> (nat \<Rightarrow> u8) \<Rightarrow> texture_buf res" where
  "s3tc_decompress_2d color_format data width height fresh =
    check (width > 0) (AssertFail ''width > 0'') (check (height > 0) (AssertFail ''height > 0'')
      (let physical_width = (width + 3) AND NOT 3; physical_height = (height + 3) AND NOT 3;
           num_blocks_x = uint (physical_width div 4); num_blocks_y = uint (physical_height div 4)
       in fold_res (\<lambda>j. fold_res (\<lambda>i.
            let block_index = j * num_blocks_x + i
            in decompress_block color_format data (nat block_index) i j (sint width) (sint height) 0)
            [0..num_blocks_x - 1]) [0..num_blocks_y - 1]
          \<lparr>tb_size = unat (width * height * 4), tb_data = fresh\<rparr>))"

text \<open>The state of the 3D walk: the buffer, \<open>cur_depth\<close> and \<open>sub_block_index\<close>.\<close>

definition s3tc_decompress_3d :: "s3tc_format \<Rightarrow> u8 list \<Rightarrow> u32 \<Rightarrow> u32 \<Rightarrow> u32 \<Rightarrow> (nat \<Rightarrow> u8) \<Rightarrow> texture_buf res" where
  "s3tc_decompress_3d color_format data width height depth fresh =
    check (width > 0) (AssertFail ''width > 0'') (check (height > 0) (AssertFail ''height > 0'')
    (check (depth > 0) (AssertFail ''depth > 0'')
      (let physical_width = (width + 3) AND NOT 3; physical_height = (height + 3) AND NOT 3;
           num_blocks_x = uint (physical_width div 4); num_blocks_y = uint (physical_height div 4);
           num_blocks_z = uint ((depth + 3) div 4)
       in bind_res (fold_res (\<lambda>k (t, cur_depth, sub_block_index).
            let residual_depth = sint (depth - word_of_int cur_depth); block_depth = min residual_depth 4 in
            bind_res (fold_res (\<lambda>j. fold_res (\<lambda>i. fold_res (\<lambda>slice (t, sub_block_index).
                let z_pos_factor = sint (word_of_int (cur_depth + slice) * width * height)
                in bind_res (decompress_block color_format data sub_block_index i j (sint width) (sint height) z_pos_factor t)
                     (\<lambda>t. Inr (t, sub_block_index + 1)))
                [0..block_depth - 1]) [0..num_blocks_x - 1]) [0..num_blocks_y - 1] (t, sub_block_index))
              (\<lambda>(t, sub_block_index). Inr (t, cur_depth + block_depth, sub_block_index)))
            [0..num_blocks_z - 1] (\<lparr>tb_size = unat (width * height * depth * 4), tb_data = fresh\<rparr>, 0, 0))
          (\<lambda>(t, cur_depth, sub_block_index). Inr t))))"

end
