(* ===== verification/S3TC_Spec.thy ===== *)
theory S3TC_Spec
  imports S3TC
begin

unbundle bit_operations_syntax

text \<open>
  What decompression computes: every block routine is a sequence of pixel writes, and the 2D walk
  gives each pixel the colour its block encodes, without leaving the buffer or the data.
\<close>

section \<open>Painting\<close>

type_synonym colour = "u8 \<times> u8 \<times> u8 \<times> u8"

definition channel :: "colour \<Rightarrow> nat \<Rightarrow> u8" where
  "channel = (\<lambda>(r, g, b, a) k. if k = 0 then r else if k = 1 then g else if k = 2 then b else a)"

definition paint :: "nat \<Rightarrow> colour \<Rightarrow> (nat \<Rightarrow> u8) \<Rightarrow> nat \<Rightarrow> u8" where
  "paint p c m = (\<lambda>q. if q div 4 = p then channel c (q mod 4) else m q)"

lemma paint_eq: "m(4 * p := r, 4 * p + 1 := g, 4 * p + 2 := b, 4 * p + 3 := a) = paint p (r, g, b, a) m"
proof
  fix q :: nat
  obtain k where q: "q = 4 * (q div 4) + k" "k < 4" "q mod 4 = k" using that [of "q mod 4"] by simp
  show "(m(4 * p := r, 4 * p + 1 := g, 4 * p + 2 := b, 4 * p + 3 := a)) q = paint p (r, g, b, a) m q"
  proof (cases "q div 4 = p")
    case True
    then have "q = 4 * p + k" using q(1) by simp
    moreover have "k = 0 \<or> k = 1 \<or> k = 2 \<or> k = 3" using q(2) by linarith
    ultimately show ?thesis using True q(3) by (elim disjE) (simp_all add: paint_def channel_def)
  next
    case False
    then have "q \<noteq> 4 * p" "q \<noteq> 4 * p + 1" "q \<noteq> 4 * p + 2" "q \<noteq> 4 * p + 3" by auto
    then show ?thesis using False by (simp add: paint_def)
  qed
qed

text \<open>A pixel to be written: its index and its colour.\<close>

definition put_px :: "int \<times> colour \<Rightarrow> texture_buf \<Rightarrow> texture_buf res" where
  "put_px = (\<lambda>(p, r, g, b, a). write_pixel p r g b a)"

definition px_ok :: "nat \<Rightarrow> int \<times> colour \<Rightarrow> bool" where
  "px_ok n = (\<lambda>(p, c). 0 \<le> p \<and> p < int n)"

lemma put_px_paint:
  assumes "px_ok n (p, c)" "tb_size t = 4 * n" "4 * n \<le> 2 ^ 31"
  shows "put_px (p, c) t = Inr (t\<lparr>tb_data := paint (nat p) c (tb_data t)\<rparr>)"
proof -
  obtain r g b a where c: "c = (r, g, b, a)" by (cases c)
  have p: "0 \<le> p" "nat p < n" "p * 4 < 2 ^ 31" "nat (p * 4) = 4 * nat p"
    using assms by (auto simp: px_ok_def nat_mult_distrib)
  have "put_px (p, c) t = Inr (t\<lparr>tb_data := (tb_data t)(4 * nat p := r, 4 * nat p + 1 := g, 4 * nat p + 2 := b, 4 * nat p + 3 := a)\<rparr>)"
    using p assms(2) by (simp add: put_px_def c write_pixel_def put_byte_def Let_def)
  then show ?thesis by (simp only: paint_eq c)
qed

lemma put_pxs:
  assumes "\<forall>x \<in> set xs. px_ok n x" "tb_size t = 4 * n" "4 * n \<le> 2 ^ 31"
  shows "fold_res put_px xs t = Inr (t\<lparr>tb_data := fold (\<lambda>(p, c). paint (nat p) c) xs (tb_data t)\<rparr>)"
  using assms
proof (induction xs arbitrary: t)
  case (Cons x xs)
  then show ?case using put_px_paint [of n "fst x" "snd x" t] by (simp add: case_prod_beta)
qed simp

lemma fold_paint:
  assumes "(p, c) \<in> set xs" "\<And>x. x \<in> set xs \<Longrightarrow> px_ok n x" "\<And>c'. (p, c') \<in> set xs \<Longrightarrow> c' = c" "k < 4"
  shows "fold (\<lambda>(p, c). paint (nat p) c) xs m (4 * nat p + k) = channel c k"
  using assms
proof (induction xs rule: rev_induct)
  case (snoc x xs)
  obtain p' c' where x: "x = (p', c')" by (cases x)
  show ?case
  proof (cases "p' = p")
    case True
    then have "c' = c" using snoc.prems(3) [of c'] by (simp add: x)
    then show ?thesis using True snoc.prems(4) by (simp add: x paint_def)
  next
    case False
    have "px_ok n (p, c)" "px_ok n (p', c')" using snoc.prems(1) snoc.prems(2) [of x] snoc.prems(2) [of "(p, c)"] by (simp_all add: x)
    then have "0 \<le> p" "0 \<le> p'" by (simp_all add: px_ok_def)
    then have "nat p' \<noteq> nat p" using False by (simp add: eq_nat_nat_iff)
    moreover have "fold (\<lambda>(p, c). paint (nat p) c) xs m (4 * nat p + k) = channel c k"
    proof (rule snoc.IH)
      show "(p, c) \<in> set xs" using snoc.prems(1) False by (simp add: x)
      show "px_ok n y" if "y \<in> set xs" for y using that snoc.prems(2) by simp
      show "c' = c" if "(p, c') \<in> set xs" for c' using that snoc.prems(3) by simp
    qed (rule snoc.prems(4))
    ultimately show ?thesis using snoc.prems(4) by (simp add: x paint_def [of "nat p'"])
  qed
qed simp

section \<open>Blocks as pixels\<close>

definition block_colour :: "palette \<Rightarrow> bool \<Rightarrow> u32 \<Rightarrow> nat \<Rightarrow> colour" where
  "block_colour pal separate_alpha indices k =
    (let index = unat (drop_bit (2 * k) indices AND 0x03)
     in (pal_r pal ! index, pal_g pal ! index, pal_b pal ! index, pal_a pal ! (if separate_alpha then k else index)))"

definition block_pxs :: "(nat \<Rightarrow> colour) \<Rightarrow> int \<Rightarrow> int \<Rightarrow> int \<Rightarrow> int \<Rightarrow> int \<Rightarrow> (int \<times> colour) list" where
  "block_pxs col i j width height z =
    concat (map (\<lambda>y. map (\<lambda>x. (z + y * width + x, col (nat (4 * (y - j * 4) + x - i * 4))))
      [i * 4..min (i * 4 + 4) width - 1]) [j * 4..min (j * 4 + 4) height - 1])"

lemma write_block_pxs:
  "write_block_to_texture indices i j width height z pal sep t =
    fold_res put_px (block_pxs (block_colour pal sep indices) i j width height z) t"
  unfolding write_block_to_texture_def block_pxs_def fold_res_concat fold_res_map Let_def put_px_def block_colour_def prod.case ..

lemma block_range: "i * 4 \<le> x \<and> x \<le> min (i * 4 + 4) width - 1 \<longleftrightarrow> x div 4 = i \<and> x < (width :: int)"
  by auto

lemma set_block_pxs:
  "(p, c) \<in> set (block_pxs col i j width height z) \<longleftrightarrow>
    (\<exists>x y. x div 4 = i \<and> y div 4 = j \<and> x < width \<and> y < height \<and> p = z + y * width + x \<and> c = col (nat (4 * (y mod 4) + x mod 4)))"
proof -
  have "(p, c) \<in> set (block_pxs col i j width height z) \<longleftrightarrow>
    (\<exists>x y. (i * 4 \<le> x \<and> x \<le> min (i * 4 + 4) width - 1) \<and> (j * 4 \<le> y \<and> y \<le> min (j * 4 + 4) height - 1) \<and>
      p = z + y * width + x \<and> c = col (nat (4 * (y - j * 4) + x - i * 4)))"
  proof -
    have "set (block_pxs col i j width height z) =
      (\<Union>y \<in> {j * 4..min (j * 4 + 4) height - 1}. (\<lambda>x. (z + y * width + x, col (nat (4 * (y - j * 4) + x - i * 4)))) ` {i * 4..min (i * 4 + 4) width - 1})"
      unfolding block_pxs_def set_concat set_map set_upto image_image ..
    then show ?thesis by (simp only: UN_iff image_iff atLeastAtMost_iff prod.inject Bex_def) blast
  qed
  moreover have "((x div 4 = i \<and> x < width) \<and> (y div 4 = j \<and> y < height) \<and>
      p = z + y * width + x \<and> c = col (nat (4 * (y - j * 4) + x - i * 4))) \<longleftrightarrow>
    (x div 4 = i \<and> y div 4 = j \<and> x < width \<and> y < height \<and> p = z + y * width + x \<and> c = col (nat (4 * (y mod 4) + x mod 4)))" for x y
  proof (cases "x div 4 = i \<and> y div 4 = j")
    case True
    then have "4 * (y - j * 4) + x - i * 4 = 4 * (y mod 4) + x mod 4" by (simp add: minus_div_mult_eq_mod [symmetric])
    with True show ?thesis by simp
  qed blast
  ultimately show ?thesis unfolding block_range by (simp only:)
qed

definition block_texel :: "s3tc_format \<Rightarrow> u8 list \<Rightarrow> nat \<Rightarrow> nat \<Rightarrow> colour" where
  "block_texel fmt data n =
    (case fmt of
       DXT1 \<Rightarrow> let c0 = rd16 data (8 * n); c1 = rd16 data (8 * n + 2)
         in block_colour (decode_bc1_colors c0 c1 (c0 \<le> c1)) False (rd32 data (8 * n + 4))
     | DXT3 \<Rightarrow> block_colour ((decode_bc1_colors (rd16 data (16 * n + 8)) (rd16 data (16 * n + 10)) False)
         \<lparr>pal_a := dxt3_alpha (rd64 data (16 * n))\<rparr>) True (rd32 data (16 * n + 12))
     | DXT5 \<Rightarrow> block_colour ((decode_bc1_colors (rd16 data (16 * n + 8)) (rd16 data (16 * n + 10)) False)
         \<lparr>pal_a := dxt5_alpha (rd64 data (16 * n)) (dxt5_palette (data ! (16 * n)) (data ! (16 * n + 1)))\<rparr>) True (rd32 data (16 * n + 12)))"

definition block_size :: "s3tc_format \<Rightarrow> nat" where
  "block_size fmt = (if fmt = DXT1 then 8 else 16)"

lemma decompress_block_pxs:
  assumes "block_size fmt * (n + 1) \<le> length data"
  shows "decompress_block fmt data n i j width height z t = fold_res put_px (block_pxs (block_texel fmt data n) i j width height z) t"
  using assms
  by (cases fmt) (simp_all add: decompress_block_def block_size_def block_texel_def decompress_dxt1_block_def decompress_dxt3_block_def
      decompress_dxt5_block_def write_block_pxs Let_def)

section \<open>Two-dimensional textures\<close>

lemma num_blocks:
  assumes "unat w \<le> 2 ^ 31"
  shows "uint (((w + 3) AND NOT 3) div 4 :: u32) = (uint w + 3) div 4"
proof -
  have "drop_bit 2 ((w + 3) AND NOT (mask 2)) = drop_bit 2 (w + 3)"
    by (rule bit_word_eqI) (auto simp: bit_simps dest: bit_imp_le_length)
  then have "((w + 3) AND NOT 3) div 4 = drop_bit 2 (w + 3)"
    by (simp add: drop_bit_eq_div mask_eq_exp_minus_1)
  moreover have "uint (w + 3) = uint w + 3"
  proof -
    have "int (unat w) \<le> int (2 ^ 31)" using assms by (simp only: of_nat_le_iff)
    then have "uint w \<le> 2 ^ 31" unfolding uint_nat by (simp only: of_nat_power of_nat_numeral)
    then have "(uint w + 3) mod 2 ^ 32 = uint w + 3" by (intro mod_pos_pos_trivial) simp_all
    then show ?thesis by (simp add: uint_word_ariths(1))
  qed
  moreover have "uint (drop_bit 2 x) = uint x div 4" for x :: u32
  proof -
    have "uint x < 2 ^ 32" using unsigned_less [where ?'a = int, of x] by simp
    then have "take_bit 32 (uint x) = uint x" unfolding take_bit_eq_mod by (intro mod_pos_pos_trivial) simp_all
    then show ?thesis by (subst unsigned_drop_bit_eq) (simp add: drop_bit_eq_div)
  qed
  ultimately show ?thesis by (simp only:)
qed

lemma linear_inj:
  fixes x y x' y' w :: int
  assumes "y * w + x = y' * w + x'" "0 \<le> x" "x < w" "0 \<le> x'" "x' < w"
  shows "x = x'" "y = y'"
proof -
  have "(y * w + x) mod w = x" "(y' * w + x') mod w = x'" using assms(2-5) by simp_all
  with assms(1) show "x = x'" by simp
  with assms(1) have "y * w = y' * w" by simp
  moreover have "w \<noteq> 0" using assms(2,3) by simp
  ultimately show "y = y'" by simp
qed

definition pxs_2d :: "s3tc_format \<Rightarrow> u8 list \<Rightarrow> int \<Rightarrow> int \<Rightarrow> int \<Rightarrow> int \<Rightarrow> (int \<times> colour) list" where
  "pxs_2d fmt data nx ny width height =
    concat (map (\<lambda>j. concat (map (\<lambda>i. block_pxs (block_texel fmt data (nat (j * nx + i))) i j width height 0) [0..nx - 1])) [0..ny - 1])"

lemma set_pxs_2d:
  "(p, c) \<in> set (pxs_2d fmt data ((width + 3) div 4) ((height + 3) div 4) width height) \<longleftrightarrow>
    (\<exists>x y. 0 \<le> x \<and> x < width \<and> 0 \<le> y \<and> y < height \<and> p = y * width + x \<and>
      c = block_texel fmt data (nat (y div 4 * ((width + 3) div 4) + x div 4)) (nat (4 * (y mod 4) + x mod 4)))"
proof -
  let ?nx = "(width + 3) div 4" and ?ny = "(height + 3) div 4"
  have "set (pxs_2d fmt data ?nx ?ny width height) =
      (\<Union>j \<in> {0..?ny - 1}. \<Union>i \<in> {0..?nx - 1}. set (block_pxs (block_texel fmt data (nat (j * ?nx + i))) i j width height 0))"
    by (simp add: pxs_2d_def)
  then have "(p, c) \<in> set (pxs_2d fmt data ?nx ?ny width height) \<longleftrightarrow>
    (\<exists>x y. (0 \<le> x div 4 \<and> x div 4 \<le> ?nx - 1) \<and> (0 \<le> y div 4 \<and> y div 4 \<le> ?ny - 1) \<and> x < width \<and> y < height \<and>
      p = y * width + x \<and> c = block_texel fmt data (nat (y div 4 * ?nx + x div 4)) (nat (4 * (y mod 4) + x mod 4)))"
    by (simp only: UN_iff atLeastAtMost_iff Bex_def set_block_pxs add_0) blast
  moreover have "((0 \<le> x div 4 \<and> x div 4 \<le> ?nx - 1) \<and> (0 \<le> y div 4 \<and> y div 4 \<le> ?ny - 1) \<and> x < width \<and> y < height \<and>
      p = y * width + x \<and> c = block_texel fmt data (nat (y div 4 * ?nx + x div 4)) (nat (4 * (y mod 4) + x mod 4))) \<longleftrightarrow>
    (0 \<le> x \<and> x < width \<and> 0 \<le> y \<and> y < height \<and> p = y * width + x \<and>
      c = block_texel fmt data (nat (y div 4 * ?nx + x div 4)) (nat (4 * (y mod 4) + x mod 4)))" for x y
  proof -
    have "0 \<le> v div 4 \<and> v div 4 \<le> (w + 3) div 4 - 1 \<longleftrightarrow> 0 \<le> v" if "v < w" for v w :: int using that by auto
    from this [of x width] this [of y height] show ?thesis by blast
  qed
  ultimately show ?thesis by (simp only:)
qed

lemma blocks_bound:
  fixes i j nx ny :: int
  assumes "0 \<le> i" "i < nx" "0 \<le> j" "j < ny"
  shows "nat (j * nx + i) + 1 \<le> nat (nx * ny)"
proof -
  have "(j + 1) * nx \<le> ny * nx" using assms by (intro mult_right_mono) simp_all
  then have "j * nx + i + 1 \<le> nx * ny" using assms(2) by (simp add: algebra_simps)
  moreover have "0 \<le> j * nx" using assms by simp
  ultimately show ?thesis using assms(1) nat_mono [of "j * nx + i + 1" "nx * ny"] by (simp add: nat_add_distrib)
qed

lemma sint_small:
  assumes "unat w < 2 ^ 31"
  shows "sint (w :: u32) = uint w"
proof -
  have "int (unat w) < int (2 ^ 31)" using assms by (simp only: of_nat_less_iff)
  then have "uint w < 2 ^ 31" unfolding uint_nat by (simp only: of_nat_power of_nat_numeral)
  then have "signed_take_bit 31 (uint w) = uint w" unfolding signed_take_bit_int_eq_self_iff by (intro conjI order_trans [OF _ uint_nonnegative]) simp_all
  then show ?thesis by (simp add: sint_uint)
qed

lemma nat_block_index: "nat (int y div 4 * ((int w + 3) div 4) + int x div 4) = y div 4 * ((w + 3) div 4) + x div 4"
proof -
  have "int y div 4 * ((int w + 3) div 4) + int x div 4 = int (y div 4 * ((w + 3) div 4) + x div 4)" by (simp add: zdiv_int)
  then show ?thesis by (simp only: nat_int)
qed

lemma nat_texel_index: "nat (4 * (int y mod 4) + int x mod 4) = 4 * (y mod 4) + x mod 4"
proof -
  have "4 * (int y mod 4) + int x mod 4 = int (4 * (y mod 4) + x mod 4)" by (simp add: zmod_int)
  then show ?thesis by (simp only: nat_int)
qed

lemma small_dims:
  fixes w h :: u32
  assumes "0 < unat w" "0 < unat h" "unat w * unat h * 4 \<le> 2 ^ 31"
  shows "unat w \<le> 2 ^ 29" "unat h \<le> 2 ^ 29" "unat (w * h * 4) = 4 * (unat w * unat h)"
proof -
  have p: "unat w * unat h \<le> 2 ^ 29" using assms(3) by (simp add: mult.commute)
  show "unat w \<le> 2 ^ 29" using assms(2) by (intro order_trans [OF _ p]) simp
  show "unat h \<le> 2 ^ 29" using assms(1) by (intro order_trans [OF _ p]) simp
  have q: "unat (w * h) = unat w * unat h" unfolding unat_word_ariths(2) by (rule mod_less) (use p in simp)
  have "n * 4 mod 2 ^ 32 = 4 * n" if "n \<le> 2 ^ 29" for n :: nat using that by simp
  from this [OF p] show "unat (w * h * 4) = 4 * (unat w * unat h)"
    unfolding unat_word_ariths(2) [of "w * h"] q by simp
qed

lemma fold_res_2d:
  "fold_res (\<lambda>j. fold_res (\<lambda>i. fold_res f (g j i)) is) js = fold_res f (concat (map (\<lambda>j. concat (map (g j) is)) js))"
  by (simp add: fold_res_concat fold_res_map)

lemma decompress_2d_pxs:
  assumes dims: "0 < unat w" "0 < unat h" "unat w * unat h * 4 \<le> 2 ^ 31"
    and data: "block_size fmt * nat ((uint w + 3) div 4 * ((uint h + 3) div 4)) \<le> length data"
  shows "s3tc_decompress_2d fmt data w h fresh =
    fold_res put_px (pxs_2d fmt data ((uint w + 3) div 4) ((uint h + 3) div 4) (uint w) (uint h))
      \<lparr>tb_size = 4 * (unat w * unat h), tb_data = fresh\<rparr>"
proof -
  let ?nx = "(uint w + 3) div 4" and ?ny = "(uint h + 3) div 4"
  note small = small_dims [OF dims]
  have s: "sint w = uint w" "sint h = uint h" using small(1,2) by (simp_all add: sint_small)
  have n: "uint (((w + 3) AND NOT 3) div 4) = ?nx" "uint (((h + 3) AND NOT 3) div 4) = ?ny"
    by (rule num_blocks, use small(1,2) in simp)+
  have "decompress_block fmt data (nat (j * ?nx + i)) i j (uint w) (uint h) 0 t =
      fold_res put_px (block_pxs (block_texel fmt data (nat (j * ?nx + i))) i j (uint w) (uint h) 0) t"
    if "i \<in> set [0..?nx - 1]" "j \<in> set [0..?ny - 1]" for i j t
  proof (rule decompress_block_pxs)
    have "nat (j * ?nx + i) + 1 \<le> nat (?nx * ?ny)" using that by (intro blocks_bound) auto
    then have "block_size fmt * (nat (j * ?nx + i) + 1) \<le> block_size fmt * nat (?nx * ?ny)" by (rule mult_le_mono2)
    then show "block_size fmt * (nat (j * ?nx + i) + 1) \<le> length data" using data by (rule order_trans)
  qed
  then have "fold_res (\<lambda>j. fold_res (\<lambda>i. decompress_block fmt data (nat (j * ?nx + i)) i j (uint w) (uint h) 0) [0..?nx - 1]) [0..?ny - 1] t =
      fold_res (\<lambda>j. fold_res (\<lambda>i. fold_res put_px (block_pxs (block_texel fmt data (nat (j * ?nx + i))) i j (uint w) (uint h) 0)) [0..?nx - 1]) [0..?ny - 1] t" for t
    by (intro fold_res_cong)
  moreover have "0 < w" "0 < h" using dims(1,2) by (simp_all add: word_less_nat_alt)
  ultimately show ?thesis
    unfolding s3tc_decompress_2d_def Let_def n s small(3) pxs_2d_def fold_res_2d [symmetric] by (simp only: check_simps)
qed

lemma decompress_2d_block_texels:
  assumes "0 < unat w" "0 < unat h" "unat w * unat h * 4 \<le> 2 ^ 31"
    "block_size fmt * nat ((uint w + 3) div 4 * ((uint h + 3) div 4)) \<le> length data"
  shows "\<exists>t. s3tc_decompress_2d fmt data w h fresh = Inr t \<and> tb_size t = 4 * (unat w * unat h) \<and>
    (\<forall>x y k. x < unat w \<and> y < unat h \<and> k < 4 \<longrightarrow>
      tb_data t (4 * (y * unat w + x) + k) =
      channel (block_texel fmt data (y div 4 * ((unat w + 3) div 4) + x div 4) (4 * (y mod 4) + x mod 4)) k)"
proof -
  let ?P = "pxs_2d fmt data ((uint w + 3) div 4) ((uint h + 3) div 4) (uint w) (uint h)" and ?n = "unat w * unat h"
  have u: "uint v = int (unat v)" for v :: u32 by simp
  have ok: "px_ok ?n e" if "e \<in> set ?P" for e
  proof -
    obtain p c where e: "e = (p, c)" by (cases e)
    from that obtain x y where xy: "0 \<le> x" "x < uint w" "0 \<le> y" "y < uint h" "p = y * uint w + x"
      unfolding e set_pxs_2d by blast
    have "(y + 1) * uint w \<le> uint h * uint w" using xy(3,4) by (intro mult_right_mono) simp_all
    then have "p < uint w * uint h" using xy(2,5) by (simp add: algebra_simps)
    moreover have "0 \<le> p" unfolding xy(5) using xy(1,3) by simp
    ultimately show ?thesis by (simp add: e px_ok_def)
  qed
  let ?t = "\<lparr>tb_size = 4 * ?n, tb_data = fold (\<lambda>(p, c). paint (nat p) c) ?P fresh\<rparr>"
  have "s3tc_decompress_2d fmt data w h fresh = Inr ?t"
    unfolding decompress_2d_pxs [OF assms] using put_pxs [of ?P ?n] ok assms(3) by simp
  moreover have "tb_data ?t (4 * (y * unat w + x) + k) =
      channel (block_texel fmt data (y div 4 * ((unat w + 3) div 4) + x div 4) (4 * (y mod 4) + x mod 4)) k"
    if "x < unat w" "y < unat h" "k < 4" for x y k
  proof -
    let ?c = "\<lambda>x y. block_texel fmt data (nat (y div 4 * ((uint w + 3) div 4) + x div 4)) (nat (4 * (y mod 4) + x mod 4))"
    have xy: "0 \<le> int x" "int x < uint w" "0 \<le> int y" "int y < uint h" using that(1,2) unfolding uint_nat of_nat_less_iff by (simp_all only: of_nat_0_le_iff)
    have p: "nat (int y * uint w + int x) = y * unat w + x" unfolding uint_nat by (simp only: of_nat_mult [symmetric] of_nat_add [symmetric] nat_int)
    have "fold (\<lambda>(p, c). paint (nat p) c) ?P fresh (4 * nat (int y * uint w + int x) + k) = channel (?c (int x) (int y)) k"
    proof (rule fold_paint [OF _ ok])
      show "(int y * uint w + int x, ?c (int x) (int y)) \<in> set ?P" using xy unfolding set_pxs_2d by blast
      show "c' = ?c (int x) (int y)" if "(int y * uint w + int x, c') \<in> set ?P" for c'
      proof -
        from that obtain x' y' where x': "0 \<le> x'" "x' < uint w" "int y * uint w + int x = y' * uint w + x'" "c' = ?c x' y'"
          unfolding set_pxs_2d by blast
        from linear_inj [OF x'(3) xy(1,2) x'(1,2)] show ?thesis unfolding x'(4) by simp
      qed
    qed (assumption, rule that(3))
    then show ?thesis unfolding p by (simp only: texture_buf.simps uint_nat nat_block_index nat_texel_index)
  qed
  ultimately show ?thesis by (intro exI [of _ ?t]) simp
qed

section \<open>The colours of the formats\<close>

text \<open>
  The colour of a texel by the formats' definition: the end points are 5:6:5 colours scaled to 255, the other colours of
  a block lie between them, and a texel chooses one by two bits.  Alpha is 255, or 0 for the fourth colour of a block of
  DXT1 whose end points are in ascending order; four bits per texel in DXT3; and one of eight values between two end
  points, by three bits per texel, in DXT5.
\<close>

definition bc1_level :: "nat \<Rightarrow> nat \<Rightarrow> u16 \<Rightarrow> nat" where
  "bc1_level lo n c = unat c div 2 ^ lo mod 2 ^ n * 255 div (2 ^ n - 1)"

definition bc1_blend :: "bool \<Rightarrow> nat \<Rightarrow> nat \<Rightarrow> nat \<Rightarrow> u8" where
  "bc1_blend punch i x0 x1 = of_nat
    (if i = 0 then x0 else if i = 1 then x1
     else if punch then (if i = 2 then (x0 + x1) div 2 else 0)
     else ((4 - i) * x0 + (i - 1) * x1) div 3)"

definition bc3_alpha :: "nat \<Rightarrow> nat \<Rightarrow> nat \<Rightarrow> u8" where
  "bc3_alpha i a0 a1 = of_nat
    (if i = 0 then a0 else if i = 1 then a1
     else if a0 > a1 then ((8 - i) * a0 + (i - 1) * a1) div 7
     else if i < 6 then ((6 - i) * a0 + (i - 1) * a1) div 5
     else if i = 6 then 0 else 255)"

definition texel :: "s3tc_format \<Rightarrow> u8 list \<Rightarrow> nat \<Rightarrow> nat \<Rightarrow> colour" where
  "texel fmt data n k =
    (let p = (if fmt = DXT1 then 8 * n else 16 * n + 8);
         c0 = rd16 data p; c1 = rd16 data (p + 2);
         i = unat (rd32 data (p + 4)) div 4 ^ k mod 4;
         punch = (fmt = DXT1 \<and> c0 \<le> c1);
         alphas = unat (rd64 data (16 * n))
     in (bc1_blend punch i (bc1_level 11 5 c0) (bc1_level 11 5 c1),
         bc1_blend punch i (bc1_level 5 6 c0) (bc1_level 5 6 c1),
         bc1_blend punch i (bc1_level 0 5 c0) (bc1_level 0 5 c1),
         case fmt of
           DXT1 \<Rightarrow> (if punch \<and> i = 3 then 0 else 255)
         | DXT3 \<Rightarrow> of_nat (17 * (alphas div 2 ^ (4 * k) mod 16))
         | DXT5 \<Rightarrow> bc3_alpha (alphas div 2 ^ (16 + 3 * k) mod 8) (unat (data ! (16 * n))) (unat (data ! (16 * n + 1)))))"

lemma expand_fields:
  "drop_bit 8 (c AND 0xF800) = push_bit 3 (take_bit 5 (drop_bit 11 c :: u16))"
  "drop_bit 3 (c AND 0x07E0) = push_bit 2 (take_bit 6 (drop_bit 5 c :: u16))"
  "push_bit 3 (c AND 0x001F) = push_bit 3 (take_bit 5 (drop_bit 0 c :: u16))"
proof -
  have m: "0xF800 = push_bit 11 (mask 5 :: u16)" "0x07E0 = push_bit 5 (mask 6 :: u16)" "0x001F = (mask 5 :: u16)"
    by (simp_all add: mask_numeral)
  show "drop_bit 8 (c AND 0xF800) = push_bit 3 (take_bit 5 (drop_bit 11 c))"
    "drop_bit 3 (c AND 0x07E0) = push_bit 2 (take_bit 6 (drop_bit 5 c))"
    "push_bit 3 (c AND 0x001F) = push_bit 3 (take_bit 5 (drop_bit 0 c))"
    unfolding m by (rule bit_word_eqI, auto simp: bit_simps dest: bit_imp_le_length)+
qed

lemma unat_push_field:
  fixes w :: u16
  shows "unat (push_bit 3 (take_bit 5 w)) = 8 * (unat w mod 32)" "unat (push_bit 2 (take_bit 6 w)) = 4 * (unat w mod 64)"
proof -
  have v: "unat w mod 32 < 32" "unat w mod 64 < 64" by simp_all
  have t: "unat (take_bit 5 w) = unat w mod 32" "unat (take_bit 6 w) = unat w mod 64" by (simp_all add: unat_take_bit_mod)
  have s: "x < 8192 \<Longrightarrow> x * 8 mod 65536 = 8 * x" "x < 16384 \<Longrightarrow> x * 4 mod 65536 = 4 * x" for x :: nat by simp_all
  have "unat (push_bit 3 (take_bit 5 w)) = unat w mod 32 * 8 mod 65536"
    "unat (push_bit 2 (take_bit 6 w)) = unat w mod 64 * 4 mod 65536"
    unfolding push_bit_eq_mult unat_word_ariths t by simp_all
  then show "unat (push_bit 3 (take_bit 5 w)) = 8 * (unat w mod 32)" "unat (push_bit 2 (take_bit 6 w)) = 4 * (unat w mod 64)"
    using v s(1) [of "unat w mod 32"] s(2) [of "unat w mod 64"] by linarith+
qed

lemma expand_levels:
  "unat (expand_r c) = bc1_level 11 5 c" "unat (expand_g c) = bc1_level 5 6 c" "unat (expand_b c) = bc1_level 0 5 c"
proof -
  have le: "v mod 32 * 255 div 31 < 256" "v mod 64 * 255 div 63 < 256" for v :: nat
    using mod_less_divisor [of 32 v] mod_less_divisor [of 64 v] by linarith+
  have e: "8 * v * 255 div 248 = v * 255 div 31" "4 * v * 255 div 252 = v * 255 div 63" for v :: nat
    using div_mult_mult1 [of 8 "v * 255" 31] div_mult_mult1 [of 4 "v * 255" 63] by (simp_all add: ac_simps)
  have b: "unat (of_nat x :: u8) = x mod 256" for x by (simp add: unat_of_nat)
  show "unat (expand_r c) = bc1_level 11 5 c"
    unfolding expand_r_def expand_fields b unat_push_field e unat_drop_bit_div bc1_level_def using le(1) by simp
  show "unat (expand_g c) = bc1_level 5 6 c"
    unfolding expand_g_def expand_fields b unat_push_field e unat_drop_bit_div bc1_level_def using le(2) by simp
  show "unat (expand_b c) = bc1_level 0 5 c"
    unfolding expand_b_def expand_fields b unat_push_field e unat_drop_bit_div bc1_level_def using le(1) by simp
qed

lemma index_cases: "(i :: nat) < 4 \<Longrightarrow> i = 0 \<or> i = 1 \<or> i = 2 \<or> i = 3"
  by auto

lemma palette_blend:
  assumes "i < 4"
  shows "pal_r (decode_bc1_colors c0 c1 punch) ! i = bc1_blend punch i (bc1_level 11 5 c0) (bc1_level 11 5 c1)"
    "pal_g (decode_bc1_colors c0 c1 punch) ! i = bc1_blend punch i (bc1_level 5 6 c0) (bc1_level 5 6 c1)"
    "pal_b (decode_bc1_colors c0 c1 punch) ! i = bc1_blend punch i (bc1_level 0 5 c0) (bc1_level 0 5 c1)"
    "pal_a (decode_bc1_colors c0 c1 punch) ! i = (if punch \<and> i = 3 then 0 else 255)"
  using index_cases [OF assms]
  by (auto simp: decode_bc1_colors_def Let_def mix_def bc1_blend_def simp flip: expand_levels)

lemma dxt3_alpha_level: "k < 16 \<Longrightarrow> dxt3_alpha w ! k = of_nat (17 * (unat w div 2 ^ (4 * k) mod 16))"
proof -
  have m: "0x0F = (mask 4 :: u64)" by (simp add: mask_numeral)
  define v where "v = unat w div 2 ^ (4 * k) mod 16"
  have "unat (take_bit 4 (drop_bit (4 * k) w)) = v" by (simp add: v_def unat_take_bit_mod unat_drop_bit_div)
  moreover have "v < 16" by (simp add: v_def)
  ultimately have "unat (push_bit 4 (take_bit 4 (drop_bit (4 * k) w))) = 16 * v"
    by (simp add: push_bit_eq_mult unat_word_ariths mult.commute)
  moreover have "16 * v * 255 div 240 = 17 * v" by simp
  moreover assume "k < 16"
  ultimately show ?thesis unfolding v_def [symmetric] by (simp add: dxt3_alpha_def m take_bit_eq_mask [symmetric])
qed

lemma dxt5_alpha_level:
  assumes "k < 16"
  shows "dxt5_alpha w (dxt5_palette a0 a1) ! k = bc3_alpha (unat w div 2 ^ (16 + 3 * k) mod 8) (unat a0) (unat a1)"
proof -
  have m: "0x07 = (mask 3 :: u64)" by (simp add: mask_numeral)
  define i where "i = unat w div 2 ^ (16 + 3 * k) mod 8"
  have "unat (drop_bit (16 + 3 * k) w AND 0x07) = i"
    by (simp add: i_def m unat_take_bit_mod unat_drop_bit_div flip: take_bit_eq_mask)
  moreover have "i < 8" by (simp add: i_def)
  then have "i = 0 \<or> i = 1 \<or> i = 2 \<or> i = 3 \<or> i = 4 \<or> i = 5 \<or> i = 6 \<or> i = 7" by auto
  then have "dxt5_palette a0 a1 ! i = bc3_alpha i (unat a0) (unat a1)"
    by (auto simp: dxt5_palette_def bc3_alpha_def mix_def word_less_nat_alt)
  ultimately show ?thesis unfolding i_def [symmetric] using assms by (simp add: dxt5_alpha_def)
qed

lemma texel_index: "unat (drop_bit (2 * k) (w :: u32) AND 0x03) = unat w div 4 ^ k mod 4"
proof -
  have m: "0x03 = (mask 2 :: u32)" by (simp add: mask_numeral)
  have "(4 :: nat) ^ k = 2 ^ (2 * k)" by (simp add: power_mult)
  then show ?thesis by (simp add: m unat_take_bit_mod unat_drop_bit_div flip: take_bit_eq_mask)
qed

lemma block_texel_eq: "k < 16 \<Longrightarrow> block_texel fmt data n k = texel fmt data n k"
  by (cases fmt) (simp_all add: block_texel_def texel_def block_colour_def texel_index palette_blend dxt3_alpha_level
      dxt5_alpha_level Let_def add.commute [of "16 * n"])

text \<open>C38: a 2D texture whose data is long enough decompresses without fault, and the byte of channel
  \<open>k\<close> of the pixel at \<open>(x, y)\<close> is that of the texel \<open>(x mod 4, y mod 4)\<close> of block \<open>(x div 4, y div 4)\<close>, with the
  colours and alphas of the formats.\<close>

theorem s3tc_decompress_2d_spec:
  assumes "0 < unat w" "0 < unat h" "unat w * unat h * 4 \<le> 2 ^ 31"
    "block_size fmt * nat ((uint w + 3) div 4 * ((uint h + 3) div 4)) \<le> length data"
  shows "\<exists>t. s3tc_decompress_2d fmt data w h fresh = Inr t \<and> tb_size t = 4 * (unat w * unat h) \<and>
    (\<forall>x y k. x < unat w \<and> y < unat h \<and> k < 4 \<longrightarrow>
      tb_data t (4 * (y * unat w + x) + k) =
      channel (texel fmt data (y div 4 * ((unat w + 3) div 4) + x div 4) (4 * (y mod 4) + x mod 4)) k)"
proof -
  have "4 * (y mod 4) + x mod 4 < 16" for x y :: nat using mod_less_divisor [of 4 x] mod_less_divisor [of 4 y] by linarith
  then show ?thesis using decompress_2d_block_texels [OF assms, of fresh] by (simp only: block_texel_eq)
qed

theorem s3tc_decompress_2d_spec_witness:
  "\<exists>t. s3tc_decompress_2d DXT1 [0, 0xF8, 0x1F, 0, 0x1B, 0, 0, 0] 4 1 (\<lambda>_. 0) = Inr t \<and> tb_size t = 16 \<and>
    map (tb_data t) [0, 1, 3, 12, 13, 14, 15] = [85, 0, 255, 255, 0, 0, 255]"
proof -
  let ?d = "[0, 0xF8, 0x1F, 0, 0x1B, 0, 0, 0] :: u8 list"
  have t: "texel DXT1 ?d 0 0 = (85, 0, 170, 255)" "texel DXT1 ?d 0 3 = (255, 0, 0, 255)"
    by (simp_all add: texel_def Let_def rd16_def rd32_def bc1_level_def bc1_blend_def)
  from s3tc_decompress_2d_spec [of 4 1 DXT1 ?d "\<lambda>_. 0"] obtain t where
    t1: "s3tc_decompress_2d DXT1 ?d 4 1 (\<lambda>_. 0) = Inr t" "tb_size t = 16" and
    t2: "\<And>x y k. x < 4 \<Longrightarrow> y < 1 \<Longrightarrow> k < 4 \<Longrightarrow> tb_data t (4 * (y * 4 + x) + k) =
      channel (texel DXT1 ?d (y div 4 * ((4 + 3) div 4) + x div 4) (4 * (y mod 4) + x mod 4)) k"
    by (auto simp: block_size_def)
  show ?thesis
    using t1 t2 [of 0 0 0] t2 [of 0 0 1] t2 [of 0 0 3] t2 [of 3 0 0] t2 [of 3 0 1] t2 [of 3 0 2] t2 [of 3 0 3] t
    by (simp add: channel_def)
qed

end
