(* ===== verification/I2C.thy ===== *)
theory I2C
  imports Xbox_Prelude
begin

unbundle bit_operations_syntax

text \<open>
  The I2C bus (\<open>hw/i2c/core.c\<close>), the SMBus slave protocol on top of it (\<open>hw/i2c/smbus_slave.c\<close>) and the
  master commands (\<open>hw/i2c/smbus_master.c\<close>).  The bus keeps its devices in a list and the devices
  of the current transaction by their positions.  The function pointers of a device class are the
  record \<open>smbus_class\<close>; \<open>cls\<close> gives the class of a device.  Bus masters other than the controller
  (\<open>i2c_bus_master\<close> and the bottom halves) are not used by the machine and left out.
\<close>

section \<open>Slaves\<close>

datatype i2c_event = I2C_START_RECV | I2C_START_SEND | I2C_START_SEND_ASYNC | I2C_FINISH | I2C_NACK

datatype smbus_mode = SMBUS_IDLE | SMBUS_WRITE_DATA | SMBUS_READ_DATA | SMBUS_DONE | SMBUS_CONFUSED

record 'd smbus_class =
  quick_cmd :: "('d \<Rightarrow> bool \<Rightarrow> 'd) option"
  write_data :: "('d \<Rightarrow> u8 list \<Rightarrow> 'd res) option"
  receive_byte :: "('d \<Rightarrow> (u8 \<times> 'd) res) option"

text \<open>\<open>sl_data\<close> is the part of \<open>data_buf\<close> in use, so its length is \<open>data_len\<close>.\<close>

record 'd smbus_slave =
  sl_address :: u8
  sl_mode :: smbus_mode
  sl_data :: "u8 list"
  sl_dev :: 'd

abbreviation SMBUS_DATA_MAX_LEN :: nat where
  "SMBUS_DATA_MAX_LEN \<equiv> 34"

definition smbus_do_quick_cmd :: "'d smbus_class \<Rightarrow> bool \<Rightarrow> 'd smbus_slave \<Rightarrow> 'd smbus_slave" where
  "smbus_do_quick_cmd sc recv s =
    (case quick_cmd sc of None \<Rightarrow> s | Some q \<Rightarrow> s\<lparr>sl_dev := q (sl_dev s) recv\<rparr>)"

definition smbus_do_write :: "'d smbus_class \<Rightarrow> 'd smbus_slave \<Rightarrow> 'd smbus_slave res" where
  "smbus_do_write sc s =
    (case write_data sc of None \<Rightarrow> Inr s
     | Some w \<Rightarrow> bind_res (w (sl_dev s) (sl_data s)) (\<lambda>d. Inr (s\<lparr>sl_dev := d\<rparr>)))"

definition smbus_i2c_event :: "'d smbus_class \<Rightarrow> i2c_event \<Rightarrow> 'd smbus_slave \<Rightarrow> (int \<times> 'd smbus_slave) res" where
  "smbus_i2c_event sc event s =
    (case event of
       I2C_START_SEND \<Rightarrow>
         (case sl_mode s of
            SMBUS_IDLE \<Rightarrow> Inr (0, s\<lparr>sl_mode := SMBUS_WRITE_DATA\<rparr>)
          | _ \<Rightarrow> Inr (0, s\<lparr>sl_mode := SMBUS_CONFUSED\<rparr>))
     | I2C_START_RECV \<Rightarrow>
         (case sl_mode s of
            SMBUS_IDLE \<Rightarrow> Inr (0, s\<lparr>sl_mode := SMBUS_READ_DATA\<rparr>)
          | SMBUS_WRITE_DATA \<Rightarrow>
              if sl_data s = [] then Inr (0, s\<lparr>sl_mode := SMBUS_CONFUSED\<rparr>)
              else bind_res (smbus_do_write sc s) (\<lambda>s. Inr (0, s\<lparr>sl_mode := SMBUS_READ_DATA\<rparr>))
          | _ \<Rightarrow> Inr (0, s\<lparr>sl_mode := SMBUS_CONFUSED\<rparr>))
     | I2C_FINISH \<Rightarrow>
         bind_res
           (if sl_data s = [] then
              Inr (if sl_mode s = SMBUS_WRITE_DATA \<or> sl_mode s = SMBUS_READ_DATA
                   then smbus_do_quick_cmd sc (sl_mode s = SMBUS_READ_DATA) s else s)
            else if sl_mode s = SMBUS_WRITE_DATA then smbus_do_write sc s else Inr s)
           (\<lambda>s. Inr (0, s\<lparr>sl_mode := SMBUS_IDLE, sl_data := []\<rparr>))
     | I2C_NACK \<Rightarrow>
         (case sl_mode s of
            SMBUS_DONE \<Rightarrow> Inr (0, s)
          | SMBUS_READ_DATA \<Rightarrow> Inr (0, s\<lparr>sl_mode := SMBUS_DONE\<rparr>)
          | _ \<Rightarrow> Inr (0, s\<lparr>sl_mode := SMBUS_CONFUSED\<rparr>))
     | I2C_START_SEND_ASYNC \<Rightarrow> Inr (-1, s))"

definition smbus_i2c_recv :: "'d smbus_class \<Rightarrow> 'd smbus_slave \<Rightarrow> (u8 \<times> 'd smbus_slave) res" where
  "smbus_i2c_recv sc s =
    (if sl_mode s = SMBUS_READ_DATA
     then (case receive_byte sc of
             None \<Rightarrow> Inr (0xff, s)
           | Some rb \<Rightarrow> bind_res (rb (sl_dev s)) (\<lambda>(v, d). Inr (v, s\<lparr>sl_dev := d\<rparr>)))
     else Inr (0xff, s\<lparr>sl_mode := SMBUS_CONFUSED\<rparr>))"

definition smbus_i2c_send :: "u8 \<Rightarrow> 'd smbus_slave \<Rightarrow> int \<times> 'd smbus_slave" where
  "smbus_i2c_send data s =
    (if sl_mode s = SMBUS_WRITE_DATA
     then (if length (sl_data s) \<ge> SMBUS_DATA_MAX_LEN then (0, s) else (0, s\<lparr>sl_data := sl_data s @ [data]\<rparr>))
     else (0, s))"

section \<open>The bus\<close>

record 'd i2c_bus =
  bus_children :: "'d smbus_slave list"
  bus_current :: "nat list"
  bus_broadcast :: bool

definition I2C_BROADCAST :: u8 where
  "I2C_BROADCAST = 0x00"

definition i2c_slave_match :: "'d smbus_slave \<Rightarrow> u8 \<Rightarrow> bool \<Rightarrow> bool" where
  "i2c_slave_match candidate address broadcast \<longleftrightarrow> sl_address candidate = address \<or> broadcast"

text \<open>The devices found are inserted at the head; without a broadcast the first one ends the scan.\<close>

fun i2c_scan_bus :: "nat \<Rightarrow> 'd smbus_slave list \<Rightarrow> u8 \<Rightarrow> bool \<Rightarrow> nat list \<Rightarrow> nat list" where
  "i2c_scan_bus n [] address broadcast current_devs = current_devs"
| "i2c_scan_bus n (candidate # kids) address broadcast current_devs =
    (if i2c_slave_match candidate address broadcast
     then (if \<not> broadcast then n # current_devs
           else i2c_scan_bus (n + 1) kids address broadcast (n # current_devs))
     else i2c_scan_bus (n + 1) kids address broadcast current_devs)"

definition bus_event :: "('d \<Rightarrow> 'd smbus_class) \<Rightarrow> i2c_event \<Rightarrow> nat \<Rightarrow> 'd i2c_bus \<Rightarrow> (int \<times> 'd i2c_bus) res" where
  "bus_event cls event n bus =
    (let s = bus_children bus ! n in
     bind_res (smbus_i2c_event (cls (sl_dev s)) event s) (\<lambda>(rv, s).
       Inr (rv, bus\<lparr>bus_children := (bus_children bus)[n := s]\<rparr>)))"

definition i2c_end_transfer :: "('d \<Rightarrow> 'd smbus_class) \<Rightarrow> 'd i2c_bus \<Rightarrow> 'd i2c_bus res" where
  "i2c_end_transfer cls bus =
    bind_res (fold_res (\<lambda>n bus. bind_res (bus_event cls I2C_FINISH n bus) (\<lambda>(rv, bus). Inr bus)) (bus_current bus) bus)
      (\<lambda>bus. Inr (bus\<lparr>bus_current := [], bus_broadcast := False\<rparr>))"

fun start_loop :: "('d \<Rightarrow> 'd smbus_class) \<Rightarrow> i2c_event \<Rightarrow> bool \<Rightarrow> nat list \<Rightarrow> 'd i2c_bus \<Rightarrow> (int \<times> 'd i2c_bus) res" where
  "start_loop cls event bus_scanned [] bus = Inr (0, bus)"
| "start_loop cls event bus_scanned (n # nodes) bus =
    bind_res (bus_event cls event n bus) (\<lambda>(rv, bus).
      if rv \<noteq> 0 \<and> \<not> bus_broadcast bus
      then (if bus_scanned then bind_res (i2c_end_transfer cls bus) (\<lambda>bus. Inr (rv, bus)) else Inr (rv, bus))
      else start_loop cls event bus_scanned nodes bus)"

definition i2c_do_start_transfer :: "('d \<Rightarrow> 'd smbus_class) \<Rightarrow> u8 \<Rightarrow> i2c_event \<Rightarrow> 'd i2c_bus \<Rightarrow> (int \<times> 'd i2c_bus) res" where
  "i2c_do_start_transfer cls address event bus =
    (let bus = (if address = I2C_BROADCAST then bus\<lparr>bus_broadcast := True\<rparr> else bus);
         bus_scanned = (bus_current bus = []);
         bus = (if bus_scanned
                then bus\<lparr>bus_current := i2c_scan_bus 0 (bus_children bus) address (bus_broadcast bus) (bus_current bus)\<rparr>
                else bus)
     in if bus_current bus = [] then Inr (1, bus)
        else start_loop cls event bus_scanned (bus_current bus) bus)"

definition i2c_start_transfer :: "('d \<Rightarrow> 'd smbus_class) \<Rightarrow> u8 \<Rightarrow> bool \<Rightarrow> 'd i2c_bus \<Rightarrow> (int \<times> 'd i2c_bus) res" where
  "i2c_start_transfer cls address is_recv =
    i2c_do_start_transfer cls address (if is_recv then I2C_START_RECV else I2C_START_SEND)"

definition i2c_start_recv :: "('d \<Rightarrow> 'd smbus_class) \<Rightarrow> u8 \<Rightarrow> 'd i2c_bus \<Rightarrow> (int \<times> 'd i2c_bus) res" where
  "i2c_start_recv cls address = i2c_do_start_transfer cls address I2C_START_RECV"

definition i2c_start_send :: "('d \<Rightarrow> 'd smbus_class) \<Rightarrow> u8 \<Rightarrow> 'd i2c_bus \<Rightarrow> (int \<times> 'd i2c_bus) res" where
  "i2c_start_send cls address = i2c_do_start_transfer cls address I2C_START_SEND"

definition i2c_send :: "u8 \<Rightarrow> 'd i2c_bus \<Rightarrow> int \<times> 'd i2c_bus" where
  "i2c_send data bus =
    (let (ret, bus) = fold (\<lambda>n (ret, bus).
        if ret then (ret, bus)
        else let (rv, s) = smbus_i2c_send data (bus_children bus ! n)
             in (rv \<noteq> 0, bus\<lparr>bus_children := (bus_children bus)[n := s]\<rparr>)) (bus_current bus) (False, bus)
     in (if ret then -1 else 0, bus))"

definition i2c_recv :: "('d \<Rightarrow> 'd smbus_class) \<Rightarrow> 'd i2c_bus \<Rightarrow> (u8 \<times> 'd i2c_bus) res" where
  "i2c_recv cls bus =
    (case bus_current bus of
       [] \<Rightarrow> Inr (0xff, bus)
     | n # _ \<Rightarrow>
         if bus_broadcast bus then Inr (0xff, bus)
         else let s = bus_children bus ! n in
           bind_res (smbus_i2c_recv (cls (sl_dev s)) s) (\<lambda>(v, s).
             Inr (v, bus\<lparr>bus_children := (bus_children bus)[n := s]\<rparr>)))"

definition i2c_nack :: "('d \<Rightarrow> 'd smbus_class) \<Rightarrow> 'd i2c_bus \<Rightarrow> 'd i2c_bus res" where
  "i2c_nack cls bus =
    fold_res (\<lambda>n bus. bind_res (bus_event cls I2C_NACK n bus) (\<lambda>(rv, bus). Inr bus)) (bus_current bus) bus"

section \<open>Master commands\<close>

text \<open>A command returns \<open>-1\<close> when no device answers, otherwise 0 or the data read.\<close>

definition smbus_quick_command :: "('d \<Rightarrow> 'd smbus_class) \<Rightarrow> u8 \<Rightarrow> bool \<Rightarrow> 'd i2c_bus \<Rightarrow> (int \<times> 'd i2c_bus) res" where
  "smbus_quick_command cls addr is_read bus =
    bind_res (i2c_start_transfer cls addr is_read bus) (\<lambda>(rv, bus).
    if rv \<noteq> 0 then Inr (-1, bus)
    else bind_res (i2c_end_transfer cls bus) (\<lambda>bus. Inr (0, bus)))"

definition smbus_receive_byte :: "('d \<Rightarrow> 'd smbus_class) \<Rightarrow> u8 \<Rightarrow> 'd i2c_bus \<Rightarrow> (int \<times> 'd i2c_bus) res" where
  "smbus_receive_byte cls addr bus =
    bind_res (i2c_start_recv cls addr bus) (\<lambda>(rv, bus).
    if rv \<noteq> 0 then Inr (-1, bus)
    else bind_res (i2c_recv cls bus) (\<lambda>(data, bus).
      bind_res (i2c_nack cls bus) (\<lambda>bus.
      bind_res (i2c_end_transfer cls bus) (\<lambda>bus. Inr (uint data, bus)))))"

definition smbus_send_byte :: "('d \<Rightarrow> 'd smbus_class) \<Rightarrow> u8 \<Rightarrow> u8 \<Rightarrow> 'd i2c_bus \<Rightarrow> (int \<times> 'd i2c_bus) res" where
  "smbus_send_byte cls addr data bus =
    bind_res (i2c_start_send cls addr bus) (\<lambda>(rv, bus).
    if rv \<noteq> 0 then Inr (-1, bus)
    else bind_res (i2c_end_transfer cls (snd (i2c_send data bus))) (\<lambda>bus. Inr (0, bus)))"

definition smbus_read_byte :: "('d \<Rightarrow> 'd smbus_class) \<Rightarrow> u8 \<Rightarrow> u8 \<Rightarrow> 'd i2c_bus \<Rightarrow> (int \<times> 'd i2c_bus) res" where
  "smbus_read_byte cls addr command bus =
    bind_res (i2c_start_send cls addr bus) (\<lambda>(rv, bus).
    if rv \<noteq> 0 then Inr (-1, bus)
    else
      bind_res (i2c_start_recv cls addr (snd (i2c_send command bus))) (\<lambda>(rv, bus).
      if rv \<noteq> 0 then bind_res (i2c_end_transfer cls bus) (\<lambda>bus. Inr (-1, bus))
      else bind_res (i2c_recv cls bus) (\<lambda>(data, bus).
        bind_res (i2c_nack cls bus) (\<lambda>bus.
        bind_res (i2c_end_transfer cls bus) (\<lambda>bus. Inr (uint data, bus))))))"

definition smbus_write_byte :: "('d \<Rightarrow> 'd smbus_class) \<Rightarrow> u8 \<Rightarrow> u8 \<Rightarrow> u8 \<Rightarrow> 'd i2c_bus \<Rightarrow> (int \<times> 'd i2c_bus) res" where
  "smbus_write_byte cls addr command data bus =
    bind_res (i2c_start_send cls addr bus) (\<lambda>(rv, bus).
    if rv \<noteq> 0 then Inr (-1, bus)
    else
      let bus = snd (i2c_send command bus); bus = snd (i2c_send data bus)
      in bind_res (i2c_end_transfer cls bus) (\<lambda>bus. Inr (0, bus)))"

definition smbus_read_word :: "('d \<Rightarrow> 'd smbus_class) \<Rightarrow> u8 \<Rightarrow> u8 \<Rightarrow> 'd i2c_bus \<Rightarrow> (int \<times> 'd i2c_bus) res" where
  "smbus_read_word cls addr command bus =
    bind_res (i2c_start_send cls addr bus) (\<lambda>(rv, bus).
    if rv \<noteq> 0 then Inr (-1, bus)
    else
      bind_res (i2c_start_recv cls addr (snd (i2c_send command bus))) (\<lambda>(rv, bus).
      if rv \<noteq> 0 then bind_res (i2c_end_transfer cls bus) (\<lambda>bus. Inr (-1, bus))
      else bind_res (i2c_recv cls bus) (\<lambda>(lo, bus).
        bind_res (i2c_recv cls bus) (\<lambda>(hi, bus).
        bind_res (i2c_nack cls bus) (\<lambda>bus.
        bind_res (i2c_end_transfer cls bus) (\<lambda>bus.
        Inr (uint (ucast lo OR push_bit 8 (ucast hi) :: u16), bus)))))))"

definition smbus_write_word :: "('d \<Rightarrow> 'd smbus_class) \<Rightarrow> u8 \<Rightarrow> u8 \<Rightarrow> u16 \<Rightarrow> 'd i2c_bus \<Rightarrow> (int \<times> 'd i2c_bus) res" where
  "smbus_write_word cls addr command data bus =
    bind_res (i2c_start_send cls addr bus) (\<lambda>(rv, bus).
    if rv \<noteq> 0 then Inr (-1, bus)
    else
      let bus = snd (i2c_send command bus);
          bus = snd (i2c_send (ucast (data AND 0xff)) bus);
          bus = snd (i2c_send (ucast (drop_bit 8 data)) bus)
      in bind_res (i2c_end_transfer cls bus) (\<lambda>bus. Inr (0, bus)))"

text \<open>The block read stores into \<open>data\<close>; a length byte above the room reads nothing.\<close>

definition smbus_read_block ::
  "('d \<Rightarrow> 'd smbus_class) \<Rightarrow> u8 \<Rightarrow> u8 \<Rightarrow> u8 list \<Rightarrow> nat \<Rightarrow> bool \<Rightarrow> bool \<Rightarrow> 'd i2c_bus \<Rightarrow> (int \<times> u8 list \<times> 'd i2c_bus) res" where
  "smbus_read_block cls addr command data len recv_len send_cmd bus =
    bind_res (if send_cmd
              then bind_res (i2c_start_send cls addr bus) (\<lambda>(rv, bus).
                     if rv \<noteq> 0 then Inr (False, bus) else Inr (True, snd (i2c_send command bus)))
              else Inr (True, bus)) (\<lambda>(ok, bus).
    if \<not> ok then Inr (-1, data, bus)
    else bind_res (i2c_start_recv cls addr bus) (\<lambda>(rv, bus).
      if rv \<noteq> 0
      then (if send_cmd then bind_res (i2c_end_transfer cls bus) (\<lambda>bus. Inr (-1, data, bus)) else Inr (-1, data, bus))
      else bind_res (if recv_len then bind_res (i2c_recv cls bus) (\<lambda>(v, bus). Inr (unat v, bus)) else Inr (len, bus)) (\<lambda>(rlen, bus).
        let rlen = (if rlen > len then 0 else rlen) in
        bind_res (fold_res (\<lambda>i (data, bus).
            bind_res (i2c_recv cls bus) (\<lambda>(v, bus).
            check (i < length data) OutOfBounds (Inr (data[i := v], bus)))) [0..<rlen] (data, bus)) (\<lambda>(data, bus).
        bind_res (i2c_nack cls bus) (\<lambda>bus.
        bind_res (i2c_end_transfer cls bus) (\<lambda>bus. Inr (int rlen, data, bus)))))))"

definition smbus_write_block ::
  "('d \<Rightarrow> 'd smbus_class) \<Rightarrow> u8 \<Rightarrow> u8 \<Rightarrow> u8 list \<Rightarrow> nat \<Rightarrow> bool \<Rightarrow> 'd i2c_bus \<Rightarrow> (int \<times> 'd i2c_bus) res" where
  "smbus_write_block cls addr command data len send_len bus =
    (let len = (if len > 32 then 32 else len) in
     bind_res (i2c_start_send cls addr bus) (\<lambda>(rv, bus).
     if rv \<noteq> 0 then Inr (-1, bus)
     else
       let bus = snd (i2c_send command bus);
           bus = (if send_len then snd (i2c_send (of_nat len) bus) else bus)
       in bind_res (fold_res (\<lambda>i bus. check (i < length data) OutOfBounds (Inr (snd (i2c_send (data ! i) bus)))) [0..<len] bus) (\<lambda>bus.
          bind_res (i2c_end_transfer cls bus) (\<lambda>bus. Inr (0, bus)))))"

end
