(* ===== verification/Xbox_SMBus.thy ===== *)
theory Xbox_SMBus
  imports I2C
begin

unbundle bit_operations_syntax

text \<open>
  The devices on the system management bus of the machine and its controller
  (\<open>hw/xbox/smbus_xbox_smc.c\<close>, \<open>smbus_storage.c\<close>, \<open>smbus_adm1032.c\<close>, \<open>smbus_cx25871.c\<close>, \<open>smbus_fs454.c\<close>,
  \<open>smbus_xcalibur.c\<close>, \<open>amd_smbus.c\<close>).  The state of a device is its C structure without the generic
  part.  What a device asks of the rest of the machine, a reset, a shutdown or a system management
  interrupt, is recorded in its state.
\<close>

section \<open>The system management controller\<close>

datatype system_request = Guest_Reset | Guest_Shutdown | Ext_SMI

record smc_device =
  version_string :: "u8 list"
  version_string_index :: int
  smc_cmd :: u8
  traystate_reg :: u8
  avpack_reg :: u8
  intstatus_reg :: u8
  scratch_reg :: u8
  error_reg :: u8
  smc_requests :: "system_request list"

abbreviation (input) SMC_REG_VER :: u8 where "SMC_REG_VER \<equiv> 0x01"
abbreviation (input) SMC_REG_POWER :: u8 where "SMC_REG_POWER \<equiv> 0x02"
abbreviation (input) SMC_REG_POWER_RESET :: u8 where "SMC_REG_POWER_RESET \<equiv> 0x01"
abbreviation (input) SMC_REG_POWER_CYCLE :: u8 where "SMC_REG_POWER_CYCLE \<equiv> 0x40"
abbreviation (input) SMC_REG_POWER_SHUTDOWN :: u8 where "SMC_REG_POWER_SHUTDOWN \<equiv> 0x80"
abbreviation (input) SMC_REG_TRAYSTATE :: u8 where "SMC_REG_TRAYSTATE \<equiv> 0x03"
abbreviation (input) SMC_REG_TRAYSTATE_OPEN :: u8 where "SMC_REG_TRAYSTATE_OPEN \<equiv> 0x10"
abbreviation (input) SMC_REG_TRAYSTATE_NO_MEDIA_DETECTED :: u8 where "SMC_REG_TRAYSTATE_NO_MEDIA_DETECTED \<equiv> 0x40"
abbreviation (input) SMC_REG_TRAYSTATE_MEDIA_DETECTED :: u8 where "SMC_REG_TRAYSTATE_MEDIA_DETECTED \<equiv> 0x60"
abbreviation (input) SMC_REG_AVPACK :: u8 where "SMC_REG_AVPACK \<equiv> 0x04"
abbreviation (input) SMC_REG_AVPACK_SCART :: u8 where "SMC_REG_AVPACK_SCART \<equiv> 0x00"
abbreviation (input) SMC_REG_AVPACK_HDTV :: u8 where "SMC_REG_AVPACK_HDTV \<equiv> 0x01"
abbreviation (input) SMC_REG_AVPACK_VGA :: u8 where "SMC_REG_AVPACK_VGA \<equiv> 0x02"
abbreviation (input) SMC_REG_AVPACK_RFU :: u8 where "SMC_REG_AVPACK_RFU \<equiv> 0x03"
abbreviation (input) SMC_REG_AVPACK_SVIDEO :: u8 where "SMC_REG_AVPACK_SVIDEO \<equiv> 0x04"
abbreviation (input) SMC_REG_AVPACK_COMPOSITE :: u8 where "SMC_REG_AVPACK_COMPOSITE \<equiv> 0x06"
abbreviation (input) SMC_REG_AVPACK_NONE :: u8 where "SMC_REG_AVPACK_NONE \<equiv> 0x07"
abbreviation (input) SMC_REG_ERROR_WRITE :: u8 where "SMC_REG_ERROR_WRITE \<equiv> 0x0e"
abbreviation (input) SMC_REG_ERROR_READ :: u8 where "SMC_REG_ERROR_READ \<equiv> 0x0f"
abbreviation (input) SMC_REG_INTSTATUS :: u8 where "SMC_REG_INTSTATUS \<equiv> 0x11"
abbreviation (input) SMC_REG_INTSTATUS_POWER :: u8 where "SMC_REG_INTSTATUS_POWER \<equiv> 0x01"
abbreviation (input) SMC_REG_INTSTATUS_TRAYCLOSED :: u8 where "SMC_REG_INTSTATUS_TRAYCLOSED \<equiv> 0x02"
abbreviation (input) SMC_REG_INTSTATUS_TRAYOPENING :: u8 where "SMC_REG_INTSTATUS_TRAYOPENING \<equiv> 0x04"
abbreviation (input) SMC_REG_INTSTATUS_EJECT_BUTTON :: u8 where "SMC_REG_INTSTATUS_EJECT_BUTTON \<equiv> 0x20"
abbreviation (input) SMC_REG_SCRATCH :: u8 where "SMC_REG_SCRATCH \<equiv> 0x1b"
abbreviation (input) SMC_REG_SCRATCH_SHORT_ANIMATION :: u8 where "SMC_REG_SCRATCH_SHORT_ANIMATION \<equiv> 0x04"

abbreviation SMC_VERSION_LENGTH :: nat where
  "SMC_VERSION_LENGTH \<equiv> 3"

definition smc_write_data :: "smc_device \<Rightarrow> u8 list \<Rightarrow> smc_device res" where
  "smc_write_data smc buf =
    check (buf \<noteq> []) OutOfBounds
      (let smc = smc\<lparr>smc_cmd := hd buf\<rparr>; cmd = smc_cmd smc; buf = tl buf
       in if buf = [] then Inr smc
          else let v = hd buf in
            Inr (if cmd = SMC_REG_VER then smc\<lparr>version_string_index := uint v\<rparr>
                 else if cmd = SMC_REG_POWER then
                   (if v AND (SMC_REG_POWER_RESET OR SMC_REG_POWER_CYCLE) \<noteq> 0
                    then smc\<lparr>smc_requests := smc_requests smc @ [Guest_Reset]\<rparr>
                    else if v AND SMC_REG_POWER_SHUTDOWN \<noteq> 0
                    then smc\<lparr>smc_requests := smc_requests smc @ [Guest_Shutdown]\<rparr>
                    else smc)
                 else if cmd = SMC_REG_ERROR_WRITE then smc\<lparr>error_reg := v\<rparr>
                 else if cmd = SMC_REG_SCRATCH then smc\<lparr>scratch_reg := v\<rparr>
                 else smc))"

text \<open>
  The index of the version string is an \<open>int\<close>.  Counting it past the range makes it negative, and the
  next read is before the string; the model reports a fault at the step that does so.
\<close>

definition smc_receive_byte :: "smc_device \<Rightarrow> (u8 \<times> smc_device) res" where
  "smc_receive_byte smc0 =
    (let cmd = smc_cmd smc0; smc = smc0\<lparr>smc_cmd := cmd + 1\<rparr> in
     if cmd = SMC_REG_VER then
       (let i = version_string_index smc; k = nat (i mod int SMC_VERSION_LENGTH) in
        check (i + 1 < 2 ^ 31) SignedOverflow
          (check (k < length (version_string smc)) OutOfBounds
            (Inr (version_string smc ! k, smc\<lparr>version_string_index := i + 1\<rparr>))))
     else Inr
       (if cmd = SMC_REG_TRAYSTATE then (traystate_reg smc, smc)
        else if cmd = SMC_REG_SCRATCH then (scratch_reg smc, smc)
        else if cmd = SMC_REG_AVPACK then (avpack_reg smc, smc)
        else if cmd = SMC_REG_ERROR_READ then (error_reg smc, smc)
        else if cmd = SMC_REG_INTSTATUS then (intstatus_reg smc, smc\<lparr>intstatus_reg := 0\<rparr>)
        else if cmd = 0x1c then (0x52, smc)
        else if cmd = 0x1d then (0x72, smc)
        else if cmd = 0x1e then (0xea, smc)
        else if cmd = 0x1f then (0x46, smc)
        else (0, smc)))"

definition xbox_smc_avpack_to_reg :: "string \<Rightarrow> u8 option" where
  "xbox_smc_avpack_to_reg avpack =
    (if avpack = ''composite'' then Some SMC_REG_AVPACK_COMPOSITE
     else if avpack = ''scart'' then Some SMC_REG_AVPACK_SCART
     else if avpack = ''svideo'' then Some SMC_REG_AVPACK_SVIDEO
     else if avpack = ''vga'' then Some SMC_REG_AVPACK_VGA
     else if avpack = ''rfu'' then Some SMC_REG_AVPACK_RFU
     else if avpack = ''hdtv'' then Some SMC_REG_AVPACK_HDTV
     else if avpack = ''none'' then Some SMC_REG_AVPACK_NONE
     else None)"

definition xbox_smc_power_button :: "smc_device \<Rightarrow> smc_device" where
  "xbox_smc_power_button smc =
    smc\<lparr>intstatus_reg := intstatus_reg smc OR SMC_REG_INTSTATUS_POWER, smc_requests := smc_requests smc @ [Ext_SMI]\<rparr>"

definition xbox_smc_eject_button :: "smc_device \<Rightarrow> smc_device" where
  "xbox_smc_eject_button smc =
    smc\<lparr>intstatus_reg := intstatus_reg smc OR SMC_REG_INTSTATUS_EJECT_BUTTON, smc_requests := smc_requests smc @ [Ext_SMI]\<rparr>"

text \<open>The drive is given by whether its tray is open and whether it holds a medium.\<close>

definition xbox_smc_update_tray_state :: "bool \<Rightarrow> bool \<Rightarrow> smc_device \<Rightarrow> smc_device" where
  "xbox_smc_update_tray_state tray_open has_medium smc =
    (let smc = (if tray_open
        then smc\<lparr>traystate_reg := SMC_REG_TRAYSTATE_OPEN, intstatus_reg := intstatus_reg smc OR SMC_REG_INTSTATUS_TRAYOPENING\<rparr>
        else smc\<lparr>traystate_reg := (if has_medium then SMC_REG_TRAYSTATE_MEDIA_DETECTED else SMC_REG_TRAYSTATE_NO_MEDIA_DETECTED),
               intstatus_reg := intstatus_reg smc OR SMC_REG_INTSTATUS_TRAYCLOSED\<rparr>)
     in smc\<lparr>smc_requests := smc_requests smc @ [Ext_SMI]\<rparr>)"

text \<open>The machine properties are arguments.  An error is reported by the flag of the result.\<close>

definition smbus_smc_realize ::
  "bool \<Rightarrow> string option \<Rightarrow> u8 list option \<Rightarrow> bool \<Rightarrow> bool \<Rightarrow> smc_device \<Rightarrow> bool \<times> smc_device" where
  "smbus_smc_realize short_animation avpack smc_version tray_open has_medium smc =
    (let smc = smc\<lparr>version_string := [], version_string_index := 0, traystate_reg := 0, avpack_reg := 0,
                 intstatus_reg := 0, scratch_reg := 0, smc_cmd := 0, error_reg := 0\<rparr>;
         smc = (if short_animation then smc\<lparr>scratch_reg := SMC_REG_SCRATCH_SHORT_ANIMATION\<rparr> else smc);
         (err1, smc) = (case avpack of None \<Rightarrow> (False, smc)
           | Some a \<Rightarrow> (case xbox_smc_avpack_to_reg a of None \<Rightarrow> (True, smc) | Some r \<Rightarrow> (False, smc\<lparr>avpack_reg := r\<rparr>)));
         (err2, smc) = (case smc_version of None \<Rightarrow> (False, smc)
           | Some v \<Rightarrow> (length v \<noteq> SMC_VERSION_LENGTH, smc\<lparr>version_string := v\<rparr>))
     in (err1 \<or> err2, xbox_smc_update_tray_state tray_open has_medium smc))"

section \<open>Storage: the EEPROM\<close>

text \<open>
  \<open>st_file\<close> is the content of the backing file, \<open>None\<close> when none is given; \<open>st_writable\<close> says whether
  opening and writing it succeeds.
\<close>

record storage_device =
  st_file :: "u8 list option"
  st_writable :: bool
  st_data :: "u8 list"
  st_size :: u32
  st_offset :: u32
  st_persist :: bool

definition storage_put :: "u8 \<Rightarrow> storage_device \<Rightarrow> storage_device res" where
  "storage_put v s =
    check (unat (st_offset s) < length (st_data s)) OutOfBounds
      (check (st_size s \<noteq> 0) DivByZero
        (Inr (s\<lparr>st_data := (st_data s)[unat (st_offset s) := v], st_offset := (st_offset s + 1) mod st_size s\<rparr>)))"

definition smbus_storage_write_data :: "storage_device \<Rightarrow> u8 list \<Rightarrow> storage_device res" where
  "smbus_storage_write_data s buf =
    check (buf \<noteq> []) OutOfBounds
      (bind_res (fold_res storage_put (tl buf) (s\<lparr>st_offset := ucast (hd buf)\<rparr>)) (\<lambda>s.
        Inr (if tl buf \<noteq> [] \<and> st_file s \<noteq> None \<and> st_persist s \<and> st_writable s
             then s\<lparr>st_file := Some (st_data s)\<rparr> else s)))"

definition smbus_storage_receive_byte :: "storage_device \<Rightarrow> (u8 \<times> storage_device) res" where
  "smbus_storage_receive_byte s =
    check (unat (st_offset s) < length (st_data s)) OutOfBounds
      (check (st_size s \<noteq> 0) DivByZero
        (Inr (st_data s ! unat (st_offset s), s\<lparr>st_offset := (st_offset s + 1) mod st_size s\<rparr>)))"

text \<open>Realizing copies the file when its size is the expected one; the flag reports an error.\<close>

definition smbus_storage_realize :: "storage_device \<Rightarrow> bool \<times> storage_device" where
  "smbus_storage_realize s =
    (let s = s\<lparr>st_data := replicate (unat (st_size s)) 0, st_offset := 0\<rparr> in
     case st_file s of
       None \<Rightarrow> (True, s)
     | Some f \<Rightarrow> if length f \<noteq> unat (st_size s) then (True, s) else (False, s\<lparr>st_data := f\<rparr>))"

section \<open>The temperature sensor and the video encoders\<close>

record adm1032_device =
  adm_cmd :: u8

definition smbus_adm1032_write_data :: "adm1032_device \<Rightarrow> u8 list \<Rightarrow> adm1032_device res" where
  "smbus_adm1032_write_data cx buf = check (buf \<noteq> []) OutOfBounds (Inr (cx\<lparr>adm_cmd := hd buf\<rparr>))"

definition smbus_adm1032_receive_byte :: "adm1032_device \<Rightarrow> (u8 \<times> adm1032_device) res" where
  "smbus_adm1032_receive_byte cx =
    (let cmd = adm_cmd cx; cx = cx\<lparr>adm_cmd := cmd + 1\<rparr> in Inr (if cmd = 0 \<or> cmd = 1 then 50 else 0, cx))"

definition smbus_adm1032_realize :: "adm1032_device \<Rightarrow> adm1032_device" where
  "smbus_adm1032_realize cx = cx\<lparr>adm_cmd := 0\<rparr>"

text \<open>The CX25871, the FS454 and the Xcalibur have the same register file and code.\<close>

record encoder_device =
  enc_registers :: "u8 list"
  enc_cmd :: u8

definition smbus_cx25871_write_data :: "encoder_device \<Rightarrow> u8 list \<Rightarrow> encoder_device res" where
  "smbus_cx25871_write_data cx buf =
    check (buf \<noteq> []) OutOfBounds
      (let cx = cx\<lparr>enc_cmd := hd buf\<rparr>; cmd = unat (enc_cmd cx); buf = tl buf; n = min (length buf) (256 - cmd)
       in if buf = [] then Inr cx
          else Inr (cx\<lparr>enc_registers := take cmd (enc_registers cx) @ take n buf @ drop (cmd + n) (enc_registers cx)\<rparr>))"

definition smbus_cx25871_receive_byte :: "encoder_device \<Rightarrow> (u8 \<times> encoder_device) res" where
  "smbus_cx25871_receive_byte cx =
    check (unat (enc_cmd cx) < length (enc_registers cx)) OutOfBounds
      (Inr (enc_registers cx ! unat (enc_cmd cx), cx\<lparr>enc_cmd := enc_cmd cx + 1\<rparr>))"

definition smbus_cx25871_realize :: "encoder_device \<Rightarrow> encoder_device" where
  "smbus_cx25871_realize cx = cx\<lparr>enc_registers := replicate 256 0, enc_cmd := 0\<rparr>"

definition smbus_fs454_write_data :: "encoder_device \<Rightarrow> u8 list \<Rightarrow> encoder_device res" where
  "smbus_fs454_write_data = smbus_cx25871_write_data"

definition smbus_fs454_receive_byte :: "encoder_device \<Rightarrow> (u8 \<times> encoder_device) res" where
  "smbus_fs454_receive_byte = smbus_cx25871_receive_byte"

definition smbus_fs454_realize :: "encoder_device \<Rightarrow> encoder_device" where
  "smbus_fs454_realize = smbus_cx25871_realize"

definition smbus_xcalibur_write_data :: "encoder_device \<Rightarrow> u8 list \<Rightarrow> encoder_device res" where
  "smbus_xcalibur_write_data = smbus_cx25871_write_data"

definition smbus_xcalibur_receive_byte :: "encoder_device \<Rightarrow> (u8 \<times> encoder_device) res" where
  "smbus_xcalibur_receive_byte = smbus_cx25871_receive_byte"

definition smbus_xcalibur_realize :: "encoder_device \<Rightarrow> encoder_device" where
  "smbus_xcalibur_realize = smbus_cx25871_realize"

section \<open>Any device of the bus\<close>

datatype xbox_device = Dev_SMC smc_device | Dev_Storage storage_device | Dev_ADM1032 adm1032_device
  | Dev_CX25871 encoder_device | Dev_FS454 encoder_device | Dev_Xcalibur encoder_device

fun xbox_write_data :: "xbox_device \<Rightarrow> u8 list \<Rightarrow> xbox_device res" where
  "xbox_write_data (Dev_SMC d) buf = bind_res (smc_write_data d buf) (\<lambda>d. Inr (Dev_SMC d))"
| "xbox_write_data (Dev_Storage d) buf = bind_res (smbus_storage_write_data d buf) (\<lambda>d. Inr (Dev_Storage d))"
| "xbox_write_data (Dev_ADM1032 d) buf = bind_res (smbus_adm1032_write_data d buf) (\<lambda>d. Inr (Dev_ADM1032 d))"
| "xbox_write_data (Dev_CX25871 d) buf = bind_res (smbus_cx25871_write_data d buf) (\<lambda>d. Inr (Dev_CX25871 d))"
| "xbox_write_data (Dev_FS454 d) buf = bind_res (smbus_fs454_write_data d buf) (\<lambda>d. Inr (Dev_FS454 d))"
| "xbox_write_data (Dev_Xcalibur d) buf = bind_res (smbus_xcalibur_write_data d buf) (\<lambda>d. Inr (Dev_Xcalibur d))"

fun xbox_receive_byte :: "xbox_device \<Rightarrow> (u8 \<times> xbox_device) res" where
  "xbox_receive_byte (Dev_SMC d) = bind_res (smc_receive_byte d) (\<lambda>(v, d). Inr (v, Dev_SMC d))"
| "xbox_receive_byte (Dev_Storage d) = bind_res (smbus_storage_receive_byte d) (\<lambda>(v, d). Inr (v, Dev_Storage d))"
| "xbox_receive_byte (Dev_ADM1032 d) = bind_res (smbus_adm1032_receive_byte d) (\<lambda>(v, d). Inr (v, Dev_ADM1032 d))"
| "xbox_receive_byte (Dev_CX25871 d) = bind_res (smbus_cx25871_receive_byte d) (\<lambda>(v, d). Inr (v, Dev_CX25871 d))"
| "xbox_receive_byte (Dev_FS454 d) = bind_res (smbus_fs454_receive_byte d) (\<lambda>(v, d). Inr (v, Dev_FS454 d))"
| "xbox_receive_byte (Dev_Xcalibur d) = bind_res (smbus_xcalibur_receive_byte d) (\<lambda>(v, d). Inr (v, Dev_Xcalibur d))"

text \<open>Quick commands only print; the storage has none.\<close>

definition xbox_class :: "xbox_device \<Rightarrow> xbox_device smbus_class" where
  "xbox_class d = \<lparr>quick_cmd = (case d of Dev_Storage _ \<Rightarrow> None | _ \<Rightarrow> Some (\<lambda>d r. d)),
     write_data = Some xbox_write_data, receive_byte = Some xbox_receive_byte\<rparr>"

section \<open>The controller\<close>

record 'd amd_smbus =
  smb_bus :: "'d i2c_bus"
  smb_stat :: u8
  smb_ctl :: u8
  smb_cmd :: u8
  smb_addr :: u8
  smb_data0 :: u8
  smb_data1 :: u8
  smb_data :: "u8 list"
  smb_index :: u8
  smb_irq :: bool
  smb_irq_level :: bool

definition GS_ABRT_STS :: u8 where "GS_ABRT_STS = 0x01"
definition GS_COL_STS :: u8 where "GS_COL_STS = 0x02"
definition GS_PRERR_STS :: u8 where "GS_PRERR_STS = 0x04"
definition GS_HCYC_STS :: u8 where "GS_HCYC_STS = 0x10"
definition GS_TO_STS :: u8 where "GS_TO_STS = 0x20"
definition GS_CLEAR_STS :: u8 where
  "GS_CLEAR_STS = GS_ABRT_STS OR GS_COL_STS OR GS_PRERR_STS OR GS_HCYC_STS OR GS_TO_STS"
definition GE_HOST_STC :: u8 where "GE_HOST_STC = 0x08"
definition GE_HCYC_EN :: u8 where "GE_HCYC_EN = 0x10"
definition GE_ABORT :: u8 where "GE_ABORT = 0x20"

lemmas smb_bits = GS_ABRT_STS_def GS_COL_STS_def GS_PRERR_STS_def GS_HCYC_STS_def GS_TO_STS_def GS_CLEAR_STS_def
  GE_HOST_STC_def GE_HCYC_EN_def GE_ABORT_def

text \<open>The three labels of the transaction: \<open>data16\<close> and \<open>data8\<close> store the result, \<open>done\<close> reports it.\<close>

definition smb_done :: "int \<Rightarrow> 'd amd_smbus \<Rightarrow> 'd amd_smbus" where
  "smb_done ret s = (if ret < 0 then s\<lparr>smb_stat := smb_stat s OR GS_PRERR_STS\<rparr>
     else s\<lparr>smb_stat := smb_stat s OR GS_HCYC_STS\<rparr>)"

definition smb_data8 :: "int \<Rightarrow> 'd amd_smbus \<Rightarrow> 'd amd_smbus" where
  "smb_data8 ret s = (if ret < 0 then s\<lparr>smb_stat := smb_stat s OR GS_PRERR_STS\<rparr>
     else smb_done ret (s\<lparr>smb_data0 := word_of_int ret\<rparr>))"

definition smb_data16 :: "int \<Rightarrow> 'd amd_smbus \<Rightarrow> 'd amd_smbus" where
  "smb_data16 ret s = (if ret < 0 then s\<lparr>smb_stat := smb_stat s OR GS_PRERR_STS\<rparr>
     else smb_data8 ret (s\<lparr>smb_data1 := word_of_int (ret div 256)\<rparr>))"

definition amd756_smb_transaction :: "('d \<Rightarrow> 'd smbus_class) \<Rightarrow> 'd amd_smbus \<Rightarrow> 'd amd_smbus res" where
  "amd756_smb_transaction cls s =
    (let prot = smb_ctl s AND 7; is_read = smb_addr s AND 0x01 \<noteq> 0; cmd = smb_cmd s;
         addr = drop_bit 1 (smb_addr s) AND 0x7f; bus = smb_bus s;
         finish = (\<lambda>k (ret, bus). Inr (k ret (s\<lparr>smb_bus := bus\<rparr>)))
     in if prot = 0 then bind_res (smbus_quick_command cls addr is_read bus) (finish smb_done)
        else if prot = 1 then
          (if is_read then bind_res (smbus_receive_byte cls addr bus) (finish smb_data8)
           else bind_res (smbus_send_byte cls addr cmd bus) (finish smb_done))
        else if prot = 2 then
          (if is_read then bind_res (smbus_read_byte cls addr cmd bus) (finish smb_data8)
           else bind_res (smbus_write_byte cls addr cmd (smb_data0 s) bus) (finish smb_done))
        else if prot = 3 then
          (if is_read then bind_res (smbus_read_word cls addr cmd bus) (finish smb_data16)
           else bind_res (smbus_write_word cls addr cmd (push_bit 8 (ucast (smb_data1 s)) OR ucast (smb_data0 s)) bus)
                  (finish smb_done))
        else if prot = 5 then
          (if is_read then bind_res (smbus_read_block cls addr cmd (smb_data s) 32 True True bus) (\<lambda>(ret, data, bus).
              Inr (smb_data8 ret (s\<lparr>smb_bus := bus, smb_data := data\<rparr>)))
           else bind_res (smbus_write_block cls addr cmd (smb_data s) (unat (smb_data0 s)) True bus) (finish smb_done))
        else Inr (s\<lparr>smb_stat := smb_stat s OR GS_PRERR_STS\<rparr>))"

definition smb_set_irq :: "bool \<Rightarrow> 'd amd_smbus \<Rightarrow> 'd amd_smbus" where
  "smb_set_irq level s = s\<lparr>smb_irq_level := level\<rparr>"

definition smb_status_write :: "u8 \<Rightarrow> 'd amd_smbus \<Rightarrow> 'd amd_smbus" where
  "smb_status_write val s =
    (let s = (if smb_irq s
              then smb_set_irq (smb_ctl s AND GE_HCYC_EN \<noteq> 0 \<and>
                     (val AND GS_CLEAR_STS) AND NOT (smb_stat s AND GS_CLEAR_STS) \<noteq> 0) s
              else s)
     in if val AND GS_CLEAR_STS \<noteq> 0 then s\<lparr>smb_stat := 0, smb_index := 0\<rparr>
        else if val AND GS_HCYC_STS \<noteq> 0 then s\<lparr>smb_stat := GS_HCYC_STS, smb_index := 0\<rparr>
        else s\<lparr>smb_stat := GS_HCYC_STS, smb_index := 0\<rparr>)"

definition smb_enable_write :: "('d \<Rightarrow> 'd smbus_class) \<Rightarrow> u8 \<Rightarrow> 'd amd_smbus \<Rightarrow> 'd amd_smbus res" where
  "smb_enable_write cls val s =
    (let s = s\<lparr>smb_ctl := val\<rparr>;
         s = (if val AND GE_ABORT \<noteq> 0 then s\<lparr>smb_stat := smb_stat s OR GS_ABRT_STS\<rparr> else s)
     in if val AND GE_HOST_STC \<noteq> 0
        then bind_res (amd756_smb_transaction cls s) (\<lambda>s.
          Inr (if smb_irq s \<and> val AND GE_HCYC_EN \<noteq> 0 \<and> smb_stat s AND GS_CLEAR_STS \<noteq> 0
               then smb_set_irq True s else s))
        else Inr s)"

text \<open>After each access of the block buffer the index wraps at 32.\<close>

definition smb_step_index :: "'d amd_smbus \<Rightarrow> 'd amd_smbus" where
  "smb_step_index s = (let i = smb_index s + 1 in s\<lparr>smb_index := (if i > 31 then 0 else i)\<rparr>)"

definition amd756_smb_ioport_writeb :: "('d \<Rightarrow> 'd smbus_class) \<Rightarrow> u32 \<Rightarrow> u32 \<Rightarrow> 'd amd_smbus \<Rightarrow> 'd amd_smbus res" where
  "amd756_smb_ioport_writeb cls addr0 val0 s =
    (let addr = addr0 AND 0x3f; val = (ucast val0 :: u8) in
     if addr = 0 then Inr (smb_status_write val s)
     else if addr = 2 then smb_enable_write cls val s
     else if addr = 8 then Inr (s\<lparr>smb_cmd := val\<rparr>)
     else if addr = 4 then Inr (s\<lparr>smb_addr := val\<rparr>)
     else if addr = 6 then Inr (s\<lparr>smb_data0 := val\<rparr>)
     else if addr = 7 then Inr (s\<lparr>smb_data1 := val\<rparr>)
     else if addr = 9 then
       check (unat (smb_index s) < length (smb_data s)) OutOfBounds
         (Inr (smb_step_index (s\<lparr>smb_data := (smb_data s)[unat (smb_index s) := val]\<rparr>)))
     else Inr s)"

definition amd756_smb_ioport_readb :: "u32 \<Rightarrow> 'd amd_smbus \<Rightarrow> (u32 \<times> 'd amd_smbus) res" where
  "amd756_smb_ioport_readb addr0 s =
    (let addr = addr0 AND 0x3f in
     if addr = 0 then Inr (ucast (smb_stat s), s)
     else if addr = 2 then Inr (ucast (smb_ctl s AND 0x1f), s)
     else if addr = 8 then Inr (ucast (smb_cmd s), s)
     else if addr = 4 then Inr (ucast (smb_addr s), s)
     else if addr = 6 then Inr (ucast (smb_data0 s), s)
     else if addr = 7 then Inr (ucast (smb_data1 s), s)
     else if addr = 9 then
       check (unat (smb_index s) < length (smb_data s)) OutOfBounds
         (Inr (ucast (smb_data s ! unat (smb_index s)), smb_step_index s))
     else Inr (0, s))"

definition amd756_smbus_init :: "'d i2c_bus \<Rightarrow> bool \<Rightarrow> 'd amd_smbus \<Rightarrow> 'd amd_smbus" where
  "amd756_smbus_init bus irq s = s\<lparr>smb_bus := bus, smb_stat := 0, smb_irq := irq\<rparr>"

end
