(* ===== verification/I2C_Spec.thy ===== *)
theory I2C_Spec
  imports I2C
begin

unbundle bit_operations_syntax

text \<open>
  The bus with any devices.  The locale \<open>smbus_devices\<close> takes the handlers of the devices and an invariant they
  keep, and shows that no command of the master faults and that each ends with an idle bus.  The locale
  \<open>uniform_devices\<close> takes handlers that are the same for every device, and gives each command as the
  handlers of the device with the address, all others unchanged.
\<close>

section \<open>Outcomes\<close>

text \<open>Either the only fault that is allowed, or a value with a property.\<close>

definition safe :: "'a res \<Rightarrow> ('a \<Rightarrow> bool) \<Rightarrow> bool" where
  "safe r P = (case r of Inl f \<Rightarrow> f = SignedOverflow | Inr a \<Rightarrow> P a)"

lemma safe_Inr [simp]: "safe (Inr a) P = P a"
  by (simp add: safe_def)

lemma safe_bind: "safe r P \<Longrightarrow> (\<And>a. P a \<Longrightarrow> safe (k a) Q) \<Longrightarrow> safe (bind_res r k) Q"
  by (cases r) (simp_all add: safe_def)

lemma safe_bind_pair: "safe r (\<lambda>(a, b). P a b) \<Longrightarrow> (\<And>a b. P a b \<Longrightarrow> safe (k a b) Q) \<Longrightarrow> safe (bind_res r (\<lambda>(a, b). k a b)) Q"
  by (cases r) (auto simp: safe_def)

lemma safe_mono: "safe r P \<Longrightarrow> (\<And>a. P a \<Longrightarrow> Q a) \<Longrightarrow> safe r Q"
  by (cases r) (simp_all add: safe_def)

lemma safe_check: "b \<Longrightarrow> safe r P \<Longrightarrow> safe (check b f r) P"
  by simp

lemma safe_fold:
  assumes "P [] xs s" "\<And>ys x zs s. xs = ys @ x # zs \<Longrightarrow> P ys (x # zs) s \<Longrightarrow> safe (f x s) (P (ys @ [x]) zs)"
  shows "safe (fold_res f xs s) (P xs [])"
proof -
  have "safe (fold_res f zs s) (P xs [])" if "xs = ys @ zs" "P ys zs s" for ys zs s
    using that
  proof (induction zs arbitrary: ys s)
    case (Cons z zs)
    then show ?case by (auto intro!: safe_bind [OF assms(2) [of ys z zs s]])
  qed simp
  from this [of "[]" xs s] assms(1) show ?thesis by simp
qed

section \<open>The bus between and during transactions\<close>

definition slave_idle :: "'d smbus_slave \<Rightarrow> bool" where
  "slave_idle s \<longleftrightarrow> sl_mode s = SMBUS_IDLE \<and> sl_data s = []"

definition slave_ok :: "('d \<Rightarrow> bool) \<Rightarrow> 'd smbus_slave \<Rightarrow> bool" where
  "slave_ok ok s \<longleftrightarrow> ok (sl_dev s) \<and> length (sl_data s) \<le> SMBUS_DATA_MAX_LEN"

text \<open>During a transaction only its devices are not idle.\<close>

definition bus_ok :: "('d \<Rightarrow> bool) \<Rightarrow> 'd i2c_bus \<Rightarrow> bool" where
  "bus_ok ok bus \<longleftrightarrow> bus_children bus \<noteq> [] \<and> (\<forall>s \<in> set (bus_children bus). slave_ok ok s) \<and>
     (\<forall>n \<in> set (bus_current bus). n < length (bus_children bus)) \<and>
     (\<forall>n < length (bus_children bus). n \<in> set (bus_current bus) \<or> slave_idle (bus_children bus ! n))"

definition bus_idle :: "('d \<Rightarrow> bool) \<Rightarrow> 'd i2c_bus \<Rightarrow> bool" where
  "bus_idle ok bus \<longleftrightarrow> bus_ok ok bus \<and> bus_current bus = [] \<and> \<not> bus_broadcast bus"

lemma bus_ok_child: "bus_ok ok bus \<Longrightarrow> n \<in> set (bus_current bus) \<Longrightarrow> slave_ok ok (bus_children bus ! n)"
  by (auto simp: bus_ok_def)

lemma bus_ok_update:
  assumes "bus_ok ok bus" "n \<in> set (bus_current bus)" "slave_ok ok s"
  shows "bus_ok ok (bus\<lparr>bus_children := (bus_children bus)[n := s]\<rparr>)"
  using assms by (auto simp: bus_ok_def nth_list_update dest!: set_update_subset_insert [THEN subsetD])

lemma scan_bus_bounds:
  "x \<in> set (i2c_scan_bus n ss a b cur) \<Longrightarrow> x \<in> set cur \<or> n \<le> x \<and> x < n + length ss"
  by (induction n ss a b cur rule: i2c_scan_bus.induct) (fastforce split: if_splits)+

lemma scan_bus_broadcast: "ss \<noteq> [] \<or> cur \<noteq> [] \<Longrightarrow> i2c_scan_bus n ss a True cur \<noteq> []"
  by (induction n ss a True cur rule: i2c_scan_bus.induct) (auto simp: i2c_slave_match_def)

section \<open>Devices that keep the bus in order\<close>

locale smbus_devices =
  fixes cls :: "'d \<Rightarrow> 'd smbus_class" and ok :: "'d \<Rightarrow> bool"
  assumes quick: "ok d \<Longrightarrow> quick_cmd (cls d) = Some q \<Longrightarrow> ok (q d r)"
    and wr: "ok d \<Longrightarrow> write_data (cls d) = Some w \<Longrightarrow> buf \<noteq> [] \<Longrightarrow> safe (w d buf) ok"
    and rd: "ok d \<Longrightarrow> receive_byte (cls d) = Some rb \<Longrightarrow> safe (rb d) (\<lambda>(v, d). ok d)"
begin

lemma do_write_safe:
  assumes "slave_ok ok s" "sl_data s \<noteq> []"
  shows "safe (smbus_do_write (cls (sl_dev s)) s) (\<lambda>s'. slave_ok ok s')"
proof (cases "write_data (cls (sl_dev s))")
  case None
  then show ?thesis using assms by (simp add: smbus_do_write_def)
next
  case (Some w)
  show ?thesis
    unfolding smbus_do_write_def Some option.case
    by (rule safe_bind [OF wr [OF _ Some]]) (use assms in \<open>auto simp: slave_ok_def\<close>)
qed

lemma event_safe:
  assumes "slave_ok ok s" "e \<noteq> I2C_START_SEND_ASYNC"
  shows "safe (smbus_i2c_event (cls (sl_dev s)) e s)
    (\<lambda>(rv, s'). rv = 0 \<and> slave_ok ok s' \<and> (e = I2C_FINISH \<longrightarrow> slave_idle s'))"
proof (cases e)
  case I2C_FINISH
  have "safe (if sl_data s = [] then
      Inr (if sl_mode s = SMBUS_WRITE_DATA \<or> sl_mode s = SMBUS_READ_DATA
           then smbus_do_quick_cmd (cls (sl_dev s)) (sl_mode s = SMBUS_READ_DATA) s else s)
     else if sl_mode s = SMBUS_WRITE_DATA then smbus_do_write (cls (sl_dev s)) s else Inr s) (slave_ok ok)"
  proof (cases "sl_data s = []")
    case True
    have "slave_ok ok (smbus_do_quick_cmd (cls (sl_dev s)) r s)" for r
      using assms(1) quick by (auto simp: smbus_do_quick_cmd_def slave_ok_def split: option.splits)
    then show ?thesis using True assms(1) by simp
  next
    case False
    then show ?thesis using assms(1) do_write_safe [OF assms(1)] by simp
  qed
  then show ?thesis unfolding smbus_i2c_event_def I2C_FINISH i2c_event.case
    by (rule safe_bind) (auto simp: slave_ok_def slave_idle_def)
next
  case I2C_START_RECV
  show ?thesis
  proof (cases "sl_mode s = SMBUS_WRITE_DATA \<and> sl_data s \<noteq> []")
    case True
    then have "smbus_i2c_event (cls (sl_dev s)) e s =
        bind_res (smbus_do_write (cls (sl_dev s)) s) (\<lambda>s. Inr (0, s\<lparr>sl_mode := SMBUS_READ_DATA\<rparr>))"
      by (simp add: smbus_i2c_event_def I2C_START_RECV)
    then show ?thesis
      by (simp only:) (rule safe_bind [OF do_write_safe [OF assms(1)]], use True in \<open>auto simp: slave_ok_def I2C_START_RECV\<close>)
  next
    case False
    then show ?thesis using assms(1)
      by (cases "sl_mode s") (auto simp: smbus_i2c_event_def I2C_START_RECV slave_ok_def)
  qed
qed (use assms in \<open>auto simp: smbus_i2c_event_def slave_ok_def split: smbus_mode.splits\<close>)

lemma bus_event_safe:
  assumes "bus_ok ok bus" "n \<in> set (bus_current bus)" "e \<noteq> I2C_START_SEND_ASYNC"
  shows "safe (bus_event cls e n bus) (\<lambda>(rv, b). rv = 0 \<and> bus_ok ok b \<and> bus_current b = bus_current bus \<and>
    bus_broadcast b = bus_broadcast bus \<and> length (bus_children b) = length (bus_children bus) \<and>
    (\<forall>m. m \<noteq> n \<longrightarrow> bus_children b ! m = bus_children bus ! m) \<and> (e = I2C_FINISH \<longrightarrow> slave_idle (bus_children b ! n)))"
  unfolding bus_event_def Let_def
  using assms(1,2)
  by (intro safe_bind [OF event_safe [OF bus_ok_child [OF assms(1,2)] assms(3)]])
    (auto simp: bus_ok_update bus_ok_def [of ok bus])

lemma finish_safe:
  assumes "bus_ok ok b" "n \<in> set (bus_current b)"
  shows "safe (bind_res (bus_event cls I2C_FINISH n b) (\<lambda>(rv, b). Inr b)) (\<lambda>b'. bus_ok ok b' \<and>
    bus_current b' = bus_current b \<and> (\<forall>m. m = n \<or> slave_idle (bus_children b ! m) \<longrightarrow> slave_idle (bus_children b' ! m)))"
proof -
  have "safe (bus_event cls I2C_FINISH n b) (\<lambda>(rv, b'). bus_ok ok b' \<and> bus_current b' = bus_current b \<and>
      (\<forall>m. m \<noteq> n \<longrightarrow> bus_children b' ! m = bus_children b ! m) \<and> slave_idle (bus_children b' ! n))"
    by (rule safe_mono [OF bus_event_safe [OF assms]]) auto
  then show ?thesis
  proof (rule safe_bind)
    fix a :: "int \<times> 'd i2c_bus"
    assume a: "case a of (rv, b') \<Rightarrow> bus_ok ok b' \<and> bus_current b' = bus_current b \<and>
      (\<forall>m. m \<noteq> n \<longrightarrow> bus_children b' ! m = bus_children b ! m) \<and> slave_idle (bus_children b' ! n)"
    obtain rv b' where ab: "a = (rv, b')" by (cases a)
    have "slave_idle (bus_children b' ! m)" if "m = n \<or> slave_idle (bus_children b ! m)" for m
      by (cases "m = n") (use a that ab in simp_all)
    then show "safe (case a of (rv, b) \<Rightarrow> Inr b) (\<lambda>b'. bus_ok ok b' \<and> bus_current b' = bus_current b \<and>
        (\<forall>m. m = n \<or> slave_idle (bus_children b ! m) \<longrightarrow> slave_idle (bus_children b' ! m)))"
      using a unfolding ab by simp
  qed
qed

lemma end_transfer_safe:
  assumes "bus_ok ok bus"
  shows "safe (i2c_end_transfer cls bus) (bus_idle ok)"
proof -
  let ?cur = "bus_current bus"
  let ?P = "\<lambda>ys zs b. bus_ok ok b \<and> bus_current b = ?cur \<and> (\<forall>n \<in> set ys. slave_idle (bus_children b ! n))"
  have "safe (fold_res (\<lambda>n bus. bind_res (bus_event cls I2C_FINISH n bus) (\<lambda>(rv, bus). Inr bus)) ?cur bus) (?P ?cur [])"
  proof (rule safe_fold [of ?P])
    fix ys n zs b
    assume cur: "?cur = ys @ n # zs" and b: "?P ys (n # zs) b"
    then have "n \<in> set (bus_current b)" by simp
    from finish_safe [OF conjunct1 [OF b] this]
    show "safe (bind_res (bus_event cls I2C_FINISH n b) (\<lambda>(rv, bus). Inr bus)) (?P (ys @ [n]) zs)"
      by (rule safe_mono) (use b in auto)
  qed (use assms in simp)
  then show ?thesis unfolding i2c_end_transfer_def
    by (rule safe_bind) (auto simp: bus_idle_def bus_ok_def)
qed

lemma start_loop_safe:
  assumes "bus_ok ok bus" "set nodes \<subseteq> set (bus_current bus)" "e \<noteq> I2C_START_SEND_ASYNC"
  shows "safe (start_loop cls e sc nodes bus) (\<lambda>(rv, b). rv = 0 \<and> bus_ok ok b \<and> bus_current b = bus_current bus)"
  using assms(1,2)
proof (induction nodes arbitrary: bus)
  case (Cons n nodes)
  then have "n \<in> set (bus_current bus)" by simp
  then have ev: "safe (bus_event cls e n bus) (\<lambda>(rv, b). rv = 0 \<and> bus_ok ok b \<and> bus_current b = bus_current bus)"
    by (rule safe_mono [OF bus_event_safe [OF Cons.prems(1) _ assms(3)]]) auto
  show ?case
    unfolding start_loop.simps
  proof (rule safe_bind [OF ev])
    fix a :: "int \<times> 'd i2c_bus"
    assume a: "case a of (rv, b) \<Rightarrow> rv = 0 \<and> bus_ok ok b \<and> bus_current b = bus_current bus"
    obtain rv b where ab: "a = (rv, b)" by (cases a)
    have "safe (start_loop cls e sc nodes b) (\<lambda>(rv, b'). rv = 0 \<and> bus_ok ok b' \<and> bus_current b' = bus_current b)"
      using a Cons.prems(2) by (intro Cons.IH) (simp_all add: ab)
    then show "safe (case a of (rv, bus) \<Rightarrow> if rv \<noteq> 0 \<and> \<not> bus_broadcast bus
        then if sc then bind_res (i2c_end_transfer cls bus) (\<lambda>bus. Inr (rv, bus)) else Inr (rv, bus)
        else start_loop cls e sc nodes bus) (\<lambda>(rv, b). rv = 0 \<and> bus_ok ok b \<and> bus_current b = bus_current bus)"
      using a by (simp add: ab)
  qed
qed simp

text \<open>A start finds devices, or fails and leaves the bus idle.\<close>

lemma start_safe:
  assumes "bus_ok ok bus" "bus_current bus = [] \<longrightarrow> \<not> bus_broadcast bus" "e \<noteq> I2C_START_SEND_ASYNC"
  shows "safe (i2c_do_start_transfer cls a e bus)
    (\<lambda>(rv, b). bus_ok ok b \<and> (if rv = 0 then bus_current b \<noteq> [] else bus_current bus = [] \<and> bus_idle ok b))"
proof -
  define b1 where "b1 = (if a = I2C_BROADCAST then bus\<lparr>bus_broadcast := True\<rparr> else bus)"
  define b2 where "b2 = (if bus_current b1 = [] then b1\<lparr>bus_current :=
      i2c_scan_bus 0 (bus_children b1) a (bus_broadcast b1) (bus_current b1)\<rparr> else b1)"
  have ok: "bus_ok ok b2"
    using assms(1) scan_bus_bounds [of _ 0 "bus_children b1" a "bus_broadcast b1" "[]"]
    by (auto simp: b2_def b1_def bus_ok_def)
  show ?thesis
  proof (cases "bus_current b2 = []")
    case True
    then have "bus_current bus = []" "\<not> bus_broadcast b2"
      using assms(1,2) scan_bus_broadcast [of "bus_children bus" "[]" 0 a]
      by (auto simp: b2_def b1_def bus_ok_def split: if_splits)
    then show ?thesis using True ok unfolding i2c_do_start_transfer_def Let_def b1_def [symmetric] b2_def [symmetric]
      by (simp add: bus_idle_def)
  next
    case False
    from start_loop_safe [OF ok subset_refl assms(3), of "bus_current b1 = []"] show ?thesis
      unfolding i2c_do_start_transfer_def Let_def b1_def [symmetric] b2_def [symmetric]
      using False by (auto elim!: safe_mono)
  qed
qed

lemma send_safe:
  assumes "bus_ok ok bus"
  shows "bus_ok ok (snd (i2c_send v bus)) \<and> bus_current (snd (i2c_send v bus)) = bus_current bus"
proof -
  let ?f = "\<lambda>n (ret, bus). if ret then (ret, bus)
        else let (rv, s) = smbus_i2c_send v (bus_children bus ! n)
             in (rv \<noteq> 0, bus\<lparr>bus_children := (bus_children bus)[n := s]\<rparr>)"
  have "bus_ok ok (snd (fold ?f ns (r, b))) \<and> bus_current (snd (fold ?f ns (r, b))) = bus_current b"
    if "bus_ok ok b" "set ns \<subseteq> set (bus_current b)" for ns r b
    using that
  proof (induction ns arbitrary: r b)
    case (Cons n ns)
    have "slave_ok ok (snd (smbus_i2c_send v (bus_children b ! n)))"
      using bus_ok_child [OF Cons.prems(1), of n] Cons.prems(2) by (auto simp: smbus_i2c_send_def slave_ok_def)
    then have "bus_ok ok (snd (?f n (r, b)))" "bus_current (snd (?f n (r, b))) = bus_current b"
      using Cons.prems bus_ok_update [OF Cons.prems(1), of n] by (auto simp: case_prod_beta Let_def)
    with Cons show ?case by (cases "?f n (r, b)") (auto simp del: split_paired_All)
  qed simp
  from this [OF assms subset_refl] show ?thesis by (simp add: i2c_send_def case_prod_beta Let_def)
qed

lemma recv_safe:
  assumes "bus_ok ok bus"
  shows "safe (i2c_recv cls bus) (\<lambda>(v, b). bus_ok ok b \<and> bus_current b = bus_current bus)"
proof (cases "bus_current bus = [] \<or> bus_broadcast bus")
  case True
  then show ?thesis using assms by (auto simp: i2c_recv_def split: list.splits)
next
  case False
  then obtain n ns where cur: "bus_current bus = n # ns" by (cases "bus_current bus") auto
  let ?s = "bus_children bus ! n"
  have s: "slave_ok ok ?s" using bus_ok_child [OF assms] cur by simp
  have "safe (smbus_i2c_recv (cls (sl_dev ?s)) ?s) (\<lambda>(v, s). slave_ok ok s)"
    using s rd [of "sl_dev ?s"]
    by (auto simp: smbus_i2c_recv_def slave_ok_def split: option.splits intro!: safe_bind [where P = "\<lambda>(v, d). ok d"])
  then have "safe (bind_res (smbus_i2c_recv (cls (sl_dev ?s)) ?s) (\<lambda>(v, s). Inr (v, bus\<lparr>bus_children := (bus_children bus)[n := s]\<rparr>)))
      (\<lambda>(v, b). bus_ok ok b \<and> bus_current b = bus_current bus)"
    by (rule safe_bind) (use bus_ok_update [OF assms, of n] cur in auto)
  then show ?thesis using False cur by (simp add: i2c_recv_def Let_def)
qed

lemma nack_safe:
  assumes "bus_ok ok bus"
  shows "safe (i2c_nack cls bus) (\<lambda>b. bus_ok ok b \<and> bus_current b = bus_current bus)"
  unfolding i2c_nack_def
proof (rule safe_fold [of "\<lambda>ys zs b. bus_ok ok b \<and> bus_current b = bus_current bus"])
  fix ys n zs b
  assume cur: "bus_current bus = ys @ n # zs" and b: "bus_ok ok b \<and> bus_current b = bus_current bus"
  then have "n \<in> set (bus_current b)" by simp
  show "safe (bind_res (bus_event cls I2C_NACK n b) (\<lambda>(rv, bus). Inr bus)) (\<lambda>b. bus_ok ok b \<and> bus_current b = bus_current bus)"
    by (rule safe_bind [OF bus_event_safe [OF conjunct1 [OF b] \<open>n \<in> set (bus_current b)\<close>]]) (use b in auto)
qed (use assms in simp)

lemma start_idle:
  assumes "bus_idle ok bus" "e \<noteq> I2C_START_SEND_ASYNC"
  shows "safe (i2c_do_start_transfer cls a e bus)
    (\<lambda>(rv, b). if rv = 0 then bus_ok ok b \<and> bus_current b \<noteq> [] else bus_idle ok b)"
  by (rule safe_mono [OF start_safe [OF _ _ assms(2)]]) (use assms(1) in \<open>auto simp: bus_idle_def split: if_splits\<close>)

lemma start_again:
  assumes "bus_ok ok bus" "bus_current bus \<noteq> []" "e \<noteq> I2C_START_SEND_ASYNC"
  shows "safe (i2c_do_start_transfer cls a e bus) (\<lambda>(rv, b). rv = 0 \<and> bus_ok ok b \<and> bus_current b \<noteq> [])"
  by (rule safe_mono [OF start_safe [OF assms(1) _ assms(3)]]) (use assms(2) in \<open>auto split: if_splits\<close>)

lemmas command_rules = safe_bind [OF nack_safe] safe_bind [OF end_transfer_safe]
  safe_bind_pair [OF start_again] safe_bind_pair [OF recv_safe]

lemma quick_command_safe:
  "bus_idle ok bus \<Longrightarrow> safe (smbus_quick_command cls a r bus) (\<lambda>(v, b). bus_idle ok b)"
  unfolding smbus_quick_command_def i2c_start_transfer_def
  by (rule safe_bind_pair [OF start_idle]) (auto intro!: command_rules)

lemma receive_byte_safe:
  "bus_idle ok bus \<Longrightarrow> safe (smbus_receive_byte cls a bus) (\<lambda>(v, b). bus_idle ok b)"
  unfolding smbus_receive_byte_def i2c_start_recv_def
  by (rule safe_bind_pair [OF start_idle]) (auto intro!: command_rules)

lemma send_byte_safe:
  "bus_idle ok bus \<Longrightarrow> safe (smbus_send_byte cls a v bus) (\<lambda>(v, b). bus_idle ok b)"
  unfolding smbus_send_byte_def i2c_start_send_def
  by (rule safe_bind_pair [OF start_idle]) (auto intro!: command_rules simp: send_safe)

lemma read_byte_safe:
  "bus_idle ok bus \<Longrightarrow> safe (smbus_read_byte cls a c bus) (\<lambda>(v, b). bus_idle ok b)"
  unfolding smbus_read_byte_def i2c_start_send_def i2c_start_recv_def
  by (rule safe_bind_pair [OF start_idle]) (auto intro!: command_rules simp: send_safe)

lemma write_byte_safe:
  "bus_idle ok bus \<Longrightarrow> safe (smbus_write_byte cls a c v bus) (\<lambda>(v, b). bus_idle ok b)"
  unfolding smbus_write_byte_def i2c_start_send_def Let_def
  by (rule safe_bind_pair [OF start_idle]) (auto intro!: command_rules simp: send_safe)

lemma read_word_safe:
  "bus_idle ok bus \<Longrightarrow> safe (smbus_read_word cls a c bus) (\<lambda>(v, b). bus_idle ok b)"
  unfolding smbus_read_word_def i2c_start_send_def i2c_start_recv_def
  by (rule safe_bind_pair [OF start_idle]) (auto intro!: command_rules simp: send_safe)

lemma write_word_safe:
  "bus_idle ok bus \<Longrightarrow> safe (smbus_write_word cls a c w bus) (\<lambda>(v, b). bus_idle ok b)"
  unfolding smbus_write_word_def i2c_start_send_def Let_def
  by (rule safe_bind_pair [OF start_idle]) (auto intro!: command_rules simp: send_safe)

text \<open>Block transfers stay within the data buffer.\<close>

lemma block_recv_safe:
  assumes "bus_ok ok bus" "rlen \<le> length data"
  shows "safe (fold_res (\<lambda>i (data, bus). bind_res (i2c_recv cls bus) (\<lambda>(v, bus).
      check (i < length data) OutOfBounds (Inr (data[i := v], bus)))) [0..<rlen] (data, bus))
    (\<lambda>(data', b). length data' = length data \<and> bus_ok ok b)"
proof (rule safe_fold [of "\<lambda>ys zs (data', b). length data' = length data \<and> bus_ok ok b"])
  fix ys i zs and s :: "u8 list \<times> 'd i2c_bus"
  assume "[0..<rlen] = ys @ i # zs" and s: "case s of (data', b) \<Rightarrow> length data' = length data \<and> bus_ok ok b"
  then have "i \<in> set [0..<rlen]" by simp
  then have "i < length data" using assms(2) by simp
  then show "safe (case s of (data, bus) \<Rightarrow> bind_res (i2c_recv cls bus) (\<lambda>(v, bus).
      check (i < length data) OutOfBounds (Inr (data[i := v], bus)))) (\<lambda>(data', b). length data' = length data \<and> bus_ok ok b)"
    using s by (auto intro!: safe_bind_pair [OF recv_safe])
qed (use assms in simp)

lemma read_block_safe:
  assumes "bus_idle ok bus" "len \<le> length data"
  shows "safe (smbus_read_block cls a c data len True True bus) (\<lambda>(v, data', b). length data' = length data \<and> bus_idle ok b)"
proof -
  have first: "safe (bind_res (i2c_do_start_transfer cls a I2C_START_SEND bus) (\<lambda>(rv, bus).
      if rv \<noteq> 0 then Inr (False, bus) else Inr (True, snd (i2c_send c bus))))
    (\<lambda>(ok', b). if ok' then bus_ok ok b \<and> bus_current b \<noteq> [] else bus_idle ok b)"
    by (rule safe_bind_pair [OF start_idle [OF assms(1)]]) (auto simp: send_safe)
  have tail: "safe (bind_res (bind_res (i2c_recv cls b) (\<lambda>(v, bus). Inr (unat v, bus))) (\<lambda>(rlen, bus).
        let rlen = (if rlen > len then 0 else rlen) in
        bind_res (fold_res (\<lambda>i (data, bus).
            bind_res (i2c_recv cls bus) (\<lambda>(v, bus).
            check (i < length data) OutOfBounds (Inr (data[i := v], bus)))) [0..<rlen] (data, bus)) (\<lambda>(data, bus).
        bind_res (i2c_nack cls bus) (\<lambda>bus.
        bind_res (i2c_end_transfer cls bus) (\<lambda>bus. Inr (int rlen, data, bus))))))
      (\<lambda>(v, data', b). length data' = length data \<and> bus_idle ok b)" if "bus_ok ok b" for b
  proof -
    have "safe (bind_res (i2c_recv cls b) (\<lambda>(v, bus). Inr (unat v, bus))) (\<lambda>(rlen, b). bus_ok ok b)"
      by (rule safe_bind_pair [OF recv_safe [OF that]]) simp
    then show ?thesis
      by (rule safe_bind_pair)
        (use assms(2) in \<open>auto simp: Let_def intro!: safe_bind_pair [OF block_recv_safe] command_rules\<close>)
  qed
  show ?thesis
    unfolding smbus_read_block_def i2c_start_send_def i2c_start_recv_def if_True
  proof (rule safe_bind_pair [OF first], goal_cases)
    case (1 started b)
    show ?case
    proof (cases started)
      case True
      then have "bus_ok ok b" "bus_current b \<noteq> []" using 1 by simp_all
      then have "safe (bind_res (i2c_do_start_transfer cls a I2C_START_RECV b) (\<lambda>(rv, bus).
          if rv \<noteq> 0 then bind_res (i2c_end_transfer cls bus) (\<lambda>bus. Inr (- 1, data, bus))
          else bind_res (bind_res (i2c_recv cls bus) (\<lambda>(v, bus). Inr (unat v, bus))) (\<lambda>(rlen, bus).
            let rlen = (if rlen > len then 0 else rlen) in
            bind_res (fold_res (\<lambda>i (data, bus).
                bind_res (i2c_recv cls bus) (\<lambda>(v, bus).
                check (i < length data) OutOfBounds (Inr (data[i := v], bus)))) [0..<rlen] (data, bus)) (\<lambda>(data, bus).
            bind_res (i2c_nack cls bus) (\<lambda>bus.
            bind_res (i2c_end_transfer cls bus) (\<lambda>bus. Inr (int rlen, data, bus)))))))
          (\<lambda>(v, data', b). length data' = length data \<and> bus_idle ok b)"
        by (rule safe_bind_pair [OF start_again]) (simp_all add: tail)
      with True show ?thesis by (simp only: not_True_eq_False if_False)
    qed (use 1 in simp)
  qed
qed

lemma write_block_safe:
  assumes "bus_idle ok bus" "32 \<le> length data"
  shows "safe (smbus_write_block cls a c data len sl bus) (\<lambda>(v, b). bus_idle ok b)"
proof -
  have loop: "safe (fold_res (\<lambda>i bus. check (i < length data) OutOfBounds (Inr (snd (i2c_send (data ! i) bus)))) [0..<n] b) (bus_ok ok)"
    if "bus_ok ok b" "n \<le> 32" for n b
  proof (rule safe_fold [of "\<lambda>ys zs b. bus_ok ok b"])
    fix ys i zs b
    assume "[0..<n] = ys @ i # zs" "bus_ok ok b"
    then have "i \<in> set [0..<n]" by simp
    then have "i < length data" using that(2) assms(2) by simp
    then show "safe (check (i < length data) OutOfBounds (Inr (snd (i2c_send (data ! i) b)))) (bus_ok ok)"
      using \<open>bus_ok ok b\<close> by (simp add: send_safe)
  qed (use that in simp)
  show ?thesis
    unfolding smbus_write_block_def i2c_start_send_def Let_def
    by (rule safe_bind_pair [OF start_idle [OF assms(1)]]) (auto intro!: safe_bind [OF loop] command_rules simp: send_safe)
qed

end

section \<open>A transaction is the handlers of the addressed device\<close>

text \<open>The scan of an idle bus for an address finds position \<open>n\<close>.\<close>

definition addressed :: "'d i2c_bus \<Rightarrow> u8 \<Rightarrow> nat \<Rightarrow> bool" where
  "addressed bus a n \<longleftrightarrow> a \<noteq> I2C_BROADCAST \<and> bus_current bus = [] \<and> \<not> bus_broadcast bus \<and> n < length (bus_children bus) \<and>
     slave_idle (bus_children bus ! n) \<and> i2c_scan_bus 0 (bus_children bus) a False [] = [n]"

definition set_dev :: "nat \<Rightarrow> 'd \<Rightarrow> 'd i2c_bus \<Rightarrow> 'd i2c_bus" where
  "set_dev n d bus = bus\<lparr>bus_children := (bus_children bus)[n := (bus_children bus ! n)\<lparr>sl_dev := d\<rparr>]\<rparr>"

definition get_dev :: "nat \<Rightarrow> 'd i2c_bus \<Rightarrow> 'd" where
  "get_dev n bus = sl_dev (bus_children bus ! n)"

lemma scan_bus_address:
  "map sl_address ss = map sl_address ts \<Longrightarrow> i2c_scan_bus k ss a b cur = i2c_scan_bus k ts a b cur"
proof (induction ss arbitrary: k ts cur)
  case (Cons s ss)
  then obtain t ts' where "ts = t # ts'" "sl_address s = sl_address t" "map sl_address ss = map sl_address ts'" by auto
  with Cons.IH [of ts'] show ?case by (simp only: i2c_scan_bus.simps i2c_slave_match_def)
qed simp

lemma set_dev_address: "map sl_address (bus_children (set_dev n d bus)) = map sl_address (bus_children bus)"
proof (rule nth_equalityI)
  fix i
  show "map sl_address (bus_children (set_dev n d bus)) ! i = map sl_address (bus_children bus) ! i"
    if "i < length (map sl_address (bus_children (set_dev n d bus)))"
    using that by (cases "i = n") (simp_all add: set_dev_def)
qed (simp add: set_dev_def)

lemma addressed_set_dev: "addressed bus a n \<Longrightarrow> addressed (set_dev n d bus) a n"
  using scan_bus_address [OF set_dev_address, of 0 n d bus a False "[]"]
  by (simp add: addressed_def) (simp add: set_dev_def slave_idle_def)

lemma get_set_dev: "addressed bus a n \<Longrightarrow> get_dev n (set_dev n d bus) = d"
  by (simp add: addressed_def get_dev_def set_dev_def)

lemma set_get_dev: "set_dev n (get_dev n bus) bus = bus"
  by (simp add: set_dev_def get_dev_def)

lemma set_set_dev: "addressed bus a n \<Longrightarrow> set_dev n e (set_dev n d bus) = set_dev n e bus"
  by (simp add: addressed_def set_dev_def)

lemma idle_slave:
  assumes "slave_idle s"
  shows "s\<lparr>sl_dev := d\<rparr> = \<lparr>sl_address = sl_address s, sl_mode = SMBUS_IDLE, sl_data = [], sl_dev = d\<rparr>"
    "s\<lparr>sl_mode := m\<rparr> = \<lparr>sl_address = sl_address s, sl_mode = m, sl_data = [], sl_dev = sl_dev s\<rparr>"
  using assms by (cases s, simp add: slave_idle_def)+

lemma idle_bus:
  "bus_current bus = [] \<Longrightarrow> \<not> bus_broadcast bus \<Longrightarrow>
    bus\<lparr>bus_children := x, bus_current := [], bus_broadcast := False\<rparr> = bus\<lparr>bus_children := x\<rparr>"
  by (cases bus) simp

lemma slave_idle_mode: "slave_idle s \<Longrightarrow> sl_mode s = SMBUS_IDLE"
  by (simp add: slave_idle_def)

text \<open>The bus during a transaction with the device at \<open>n\<close>.\<close>

definition active :: "nat \<Rightarrow> smbus_mode \<Rightarrow> u8 list \<Rightarrow> 'd \<Rightarrow> 'd i2c_bus \<Rightarrow> 'd i2c_bus" where
  "active n m buf d bus = bus\<lparr>bus_current := [n],
     bus_children := (bus_children bus)[n :=
       \<lparr>sl_address = sl_address (bus_children bus ! n), sl_mode = m, sl_data = buf, sl_dev = d\<rparr>]\<rparr>"

locale uniform_devices =
  fixes cls :: "'d \<Rightarrow> 'd smbus_class" and w :: "'d \<Rightarrow> u8 list \<Rightarrow> 'd res" and rb :: "'d \<Rightarrow> (u8 \<times> 'd) res"
  assumes cls_write: "write_data (cls d) = Some w" and cls_receive: "receive_byte (cls d) = Some rb"
    and cls_quick: "quick_cmd (cls d) = Some q \<Longrightarrow> q d r = d"
begin

lemma start_send:
  assumes "addressed bus a n"
  shows "i2c_start_send cls a bus = Inr (0, active n SMBUS_WRITE_DATA [] (get_dev n bus) bus)"
  using assms
  by (simp add: i2c_start_send_def i2c_do_start_transfer_def addressed_def bus_event_def smbus_i2c_event_def idle_slave
    slave_idle_mode active_def get_dev_def Let_def)

lemma send_active:
  assumes "addressed bus a n" "length buf < SMBUS_DATA_MAX_LEN"
  shows "snd (i2c_send v (active n SMBUS_WRITE_DATA buf d bus)) = active n SMBUS_WRITE_DATA (buf @ [v]) d bus"
  using assms by (simp add: i2c_send_def active_def addressed_def smbus_i2c_send_def)

lemma end_write:
  assumes "addressed bus a n" "buf \<noteq> []"
  shows "i2c_end_transfer cls (active n SMBUS_WRITE_DATA buf d bus) = bind_res (w d buf) (\<lambda>d. Inr (set_dev n d bus))"
  using assms
  by (cases "w d buf")
    (simp_all add: i2c_end_transfer_def active_def addressed_def bus_event_def smbus_i2c_event_def smbus_do_write_def
      cls_write Let_def set_dev_def idle_slave)

lemma start_read:
  assumes "addressed bus a n" "buf \<noteq> []"
  shows "i2c_start_recv cls a (active n SMBUS_WRITE_DATA buf d bus) =
    bind_res (w d buf) (\<lambda>d. Inr (0, active n SMBUS_READ_DATA buf d bus))"
  using assms
  by (cases "w d buf")
    (simp_all add: i2c_start_recv_def i2c_do_start_transfer_def active_def addressed_def bus_event_def smbus_i2c_event_def
      smbus_do_write_def cls_write Let_def)

lemma recv_active:
  assumes "addressed bus a n"
  shows "i2c_recv cls (active n SMBUS_READ_DATA buf d bus) =
    bind_res (rb d) (\<lambda>(v, d). Inr (v, active n SMBUS_READ_DATA buf d bus))"
  using assms
  by (cases "rb d") (auto simp: i2c_recv_def active_def addressed_def smbus_i2c_recv_def cls_receive Let_def)

lemma nack_active:
  assumes "addressed bus a n"
  shows "i2c_nack cls (active n SMBUS_READ_DATA buf d bus) = Inr (active n SMBUS_DONE buf d bus)"
  using assms by (simp add: i2c_nack_def active_def addressed_def bus_event_def smbus_i2c_event_def Let_def)

lemma end_read:
  assumes "addressed bus a n"
  shows "i2c_end_transfer cls (active n SMBUS_DONE buf d bus) = Inr (set_dev n d bus)"
  using assms
  by (simp add: i2c_end_transfer_def active_def addressed_def bus_event_def smbus_i2c_event_def Let_def set_dev_def
      idle_slave)

lemma write_byte_device:
  assumes "addressed bus a n"
  shows "smbus_write_byte cls a c v bus = bind_res (w (get_dev n bus) [c, v]) (\<lambda>d. Inr (0, set_dev n d bus))"
  using assms by (simp add: smbus_write_byte_def start_send send_active [OF assms] end_write [OF assms] bind_res_assoc)

lemma read_byte_device:
  assumes "addressed bus a n"
  shows "smbus_read_byte cls a c bus =
    bind_res (w (get_dev n bus) [c]) (\<lambda>d. bind_res (rb d) (\<lambda>(v, d). Inr (uint v, set_dev n d bus)))"
  using assms
  by (simp add: smbus_read_byte_def start_send send_active [OF assms] start_read [OF assms] recv_active [OF assms]
    nack_active [OF assms] end_read [OF assms] bind_res_assoc case_prod_unfold)

lemma read_word_device:
  assumes "addressed bus a n"
  shows "smbus_read_word cls a c bus =
    bind_res (w (get_dev n bus) [c]) (\<lambda>d. bind_res (rb d) (\<lambda>(lo, d). bind_res (rb d) (\<lambda>(hi, d).
      Inr (uint (ucast lo OR push_bit 8 (ucast hi) :: u16), set_dev n d bus))))"
  using assms
  by (simp add: smbus_read_word_def start_send send_active [OF assms] start_read [OF assms] recv_active [OF assms]
    nack_active [OF assms] end_read [OF assms] bind_res_assoc case_prod_unfold)

lemma write_word_device:
  assumes "addressed bus a n"
  shows "smbus_write_word cls a c v bus =
    bind_res (w (get_dev n bus) [c, ucast (v AND 0xff), ucast (drop_bit 8 v)]) (\<lambda>d. Inr (0, set_dev n d bus))"
  using assms by (simp add: smbus_write_word_def start_send send_active [OF assms] end_write [OF assms] bind_res_assoc)

lemma send_block_active:
  assumes "addressed bus a n" "k \<le> length data" "length buf + k \<le> SMBUS_DATA_MAX_LEN"
  shows "fold_res (\<lambda>i bus. check (i < length data) OutOfBounds (Inr (snd (i2c_send (data ! i) bus)))) [0..<k]
      (active n SMBUS_WRITE_DATA buf d bus) = Inr (active n SMBUS_WRITE_DATA (buf @ take k data) d bus)"
  using assms(2,3)
proof (induction k)
  case (Suc k)
  then show ?case using send_active [OF assms(1), of "buf @ take k data"]
    by (simp add: fold_res_append take_Suc_conv_app_nth)
qed simp

lemma write_block_device:
  assumes "addressed bus a n" "length data = 32"
  shows "smbus_write_block cls a c data len True bus =
    bind_res (w (get_dev n bus) ([c, of_nat (min len 32)] @ take len data)) (\<lambda>d. Inr (0, set_dev n d bus))"
proof -
  have k: "take (min len 32) data = take len data" "(if len > 32 then 32 else len) = min len 32"
    using assms(2) by (simp_all add: min_def)
  have block: "fold_res (\<lambda>i bus. check (i < length data) OutOfBounds (Inr (snd (i2c_send (data ! i) bus)))) [0..<min len 32]
      (active n SMBUS_WRITE_DATA [c, of_nat (min len 32)] d bus) =
      Inr (active n SMBUS_WRITE_DATA ([c, of_nat (min len 32)] @ take len data) d bus)" for d
    using send_block_active [OF assms(1), of "min len 32" data "[c, of_nat (min len 32)]" d] assms(2)
    by (simp only: k) simp
  show ?thesis unfolding smbus_write_block_def k(2)
    using assms
    by (simp add: start_send send_active [OF assms(1)] block [unfolded assms(2)] end_write [OF assms(1)] bind_res_assoc Let_def del: of_nat_min)
qed

lemma start_recv_idle:
  assumes "addressed bus a n"
  shows "i2c_start_recv cls a bus = Inr (0, active n SMBUS_READ_DATA [] (get_dev n bus) bus)"
  using assms
  by (simp add: i2c_start_recv_def i2c_do_start_transfer_def addressed_def bus_event_def smbus_i2c_event_def idle_slave
    slave_idle_mode active_def get_dev_def Let_def)

lemma end_quick:
  assumes "addressed bus a n" "m = SMBUS_WRITE_DATA \<or> m = SMBUS_READ_DATA"
  shows "i2c_end_transfer cls (active n m [] d bus) = Inr (set_dev n d bus)"
proof -
  have quick: "smbus_do_quick_cmd (cls (sl_dev s)) r s = s" for r s
  proof (cases "quick_cmd (cls (sl_dev s))")
    case (Some q)
    then show ?thesis using cls_quick [OF Some, of r] by (cases s) (simp add: smbus_do_quick_cmd_def)
  qed (simp add: smbus_do_quick_cmd_def)
  let ?s = "\<lparr>sl_address = sl_address (bus_children bus ! n), sl_mode = m, sl_data = [], sl_dev = d\<rparr>"
  show ?thesis using assms quick [of ?s]
    by (auto simp: i2c_end_transfer_def active_def addressed_def bus_event_def smbus_i2c_event_def Let_def set_dev_def
      idle_slave idle_bus)
qed

lemma quick_device:
  assumes "addressed bus a n"
  shows "smbus_quick_command cls a r bus = Inr (0, set_dev n (get_dev n bus) bus)"
  using start_send [OF assms] start_recv_idle [OF assms] end_quick [OF assms]
  by (cases r) (simp_all add: smbus_quick_command_def i2c_start_transfer_def i2c_start_send_def i2c_start_recv_def)

lemma receive_byte_device:
  assumes "addressed bus a n"
  shows "smbus_receive_byte cls a bus = bind_res (rb (get_dev n bus)) (\<lambda>(v, d). Inr (uint v, set_dev n d bus))"
  using assms
  by (simp add: smbus_receive_byte_def start_recv_idle recv_active [OF assms] nack_active [OF assms] end_read [OF assms]
    bind_res_assoc case_prod_unfold)

lemma send_byte_device:
  assumes "addressed bus a n"
  shows "smbus_send_byte cls a c bus = bind_res (w (get_dev n bus) [c]) (\<lambda>d. Inr (0, set_dev n d bus))"
  using assms by (simp add: smbus_send_byte_def start_send send_active [OF assms] end_write [OF assms] bind_res_assoc)

lemma recv_block_active:
  assumes "addressed bus a n"
  shows "fold_res (\<lambda>i (data, bus). bind_res (i2c_recv cls bus) (\<lambda>(v, bus).
        check (i < length data) OutOfBounds (Inr (data[i := v], bus)))) is (data, active n SMBUS_READ_DATA buf d bus) =
    bind_res (fold_res (\<lambda>i (data, d). bind_res (rb d) (\<lambda>(v, d).
        check (i < length data) OutOfBounds (Inr (data[i := v], d)))) is (data, d))
      (\<lambda>(data, d). Inr (data, active n SMBUS_READ_DATA buf d bus))"
proof (induction "is" arbitrary: data d)
  case (Cons i "is")
  show ?case
    by (cases "rb d"; cases "i < length data") (auto simp: recv_active [OF assms] Cons.IH)
qed simp

lemma read_block_device:
  assumes "addressed bus a n"
  shows "smbus_read_block cls a c data len True True bus =
    bind_res (w (get_dev n bus) [c]) (\<lambda>d. bind_res (rb d) (\<lambda>(v, d).
      let rlen = (if unat v > len then 0 else unat v) in
      bind_res (fold_res (\<lambda>i (data, d). bind_res (rb d) (\<lambda>(v, d).
          check (i < length data) OutOfBounds (Inr (data[i := v], d)))) [0..<rlen] (data, d)) (\<lambda>(data, d).
      Inr (int rlen, data, set_dev n d bus))))"
  using assms
  by (simp add: smbus_read_block_def start_send send_active [OF assms] start_read [OF assms] recv_active [OF assms]
    nack_active [OF assms] end_read [OF assms] recv_block_active [OF assms, unfolded case_prod_unfold] bind_res_assoc case_prod_unfold Let_def
    cong: if_cong)

lemmas device_commands = quick_device receive_byte_device send_byte_device read_byte_device write_byte_device
  read_word_device write_word_device read_block_device write_block_device

end

end
