(* ===== verification/Xbox_SMBus_Spec.thy ===== *)
theory Xbox_SMBus_Spec
  imports Xbox_SMBus I2C_Spec
begin

unbundle bit_operations_syntax

text \<open>
  What the guest sees of the system management bus: every run of port accesses keeps the controller and the devices
  well-formed, a cycle is the transaction of the addressed device alone, an address without a device
  gives a protocol error, and registers written are read back.
\<close>

section \<open>The controller\<close>

definition smb_wf :: "('d \<Rightarrow> bool) \<Rightarrow> 'd amd_smbus \<Rightarrow> bool" where
  "smb_wf ok s \<longleftrightarrow> bus_idle ok (smb_bus s) \<and> length (smb_data s) = 32 \<and> smb_index s < 32"

text \<open>An access of the guest and a run of accesses, with the values read.\<close>

datatype smb_access = Rd u32 | Wr u32 u32

fun smb_run :: "('d \<Rightarrow> 'd smbus_class) \<Rightarrow> smb_access list \<Rightarrow> 'd amd_smbus \<Rightarrow> (u32 list \<times> 'd amd_smbus) res" where
  "smb_run cls [] s = Inr ([], s)"
| "smb_run cls (Rd a # xs) s =
    bind_res (amd756_smb_ioport_readb a s) (\<lambda>(v, s). bind_res (smb_run cls xs s) (\<lambda>(vs, s). Inr (v # vs, s)))"
| "smb_run cls (Wr a v # xs) s = bind_res (amd756_smb_ioport_writeb cls a v s) (smb_run cls xs)"

lemma smb_index_step: "smb_index s < 32 \<Longrightarrow> smb_index (smb_step_index s) < 32"
  by (simp add: smb_step_index_def Let_def not_less) (unat_arith)

context smbus_devices
begin

lemma transaction_safe:
  assumes "smb_wf ok s"
  shows "safe (amd756_smb_transaction cls s) (smb_wf ok)"
proof -
  have wf: "smb_wf ok (smb_done r (s\<lparr>smb_bus := b\<rparr>))" "smb_wf ok (smb_data8 r (s\<lparr>smb_bus := b\<rparr>))"
    "smb_wf ok (smb_data16 r (s\<lparr>smb_bus := b\<rparr>))"
    if "bus_idle ok b" for r b
    using that assms by (simp_all add: smb_wf_def smb_done_def smb_data8_def smb_data16_def)
  have bus: "bus_idle ok (smb_bus s)" and data: "length (smb_data s) = 32" using assms by (simp_all add: smb_wf_def)
  note cmds = quick_command_safe [OF bus] receive_byte_safe [OF bus] send_byte_safe [OF bus] read_byte_safe [OF bus]
    write_byte_safe [OF bus] read_word_safe [OF bus] write_word_safe [OF bus] write_block_safe [OF bus]
  have block: "safe (bind_res (smbus_read_block cls a c (smb_data s) 32 True True (smb_bus s)) (\<lambda>(ret, data, bus).
      Inr (smb_data8 ret (s\<lparr>smb_bus := bus, smb_data := data\<rparr>)))) (smb_wf ok)" for a c
    by (rule safe_bind [OF read_block_safe [OF bus]])
      (use data assms in \<open>auto simp: smb_wf_def smb_done_def smb_data8_def\<close>)
  show ?thesis
    unfolding amd756_smb_transaction_def Let_def
    using block data assms
    by (auto simp: wf smb_wf_def [of ok "s\<lparr>smb_stat := _\<rparr>"] smb_wf_def [of ok s] intro!: cmds [THEN safe_bind_pair])
qed

lemma writeb_safe:
  assumes "smb_wf ok s"
  shows "safe (amd756_smb_ioport_writeb cls a v s) (smb_wf ok)"
proof -
  have enable: "safe (smb_enable_write cls w s) (smb_wf ok)" for w
  proof -
    let ?s = "let s = s\<lparr>smb_ctl := w\<rparr> in if w AND GE_ABORT \<noteq> 0 then s\<lparr>smb_stat := smb_stat s OR GS_ABRT_STS\<rparr> else s"
    have "smb_wf ok ?s" using assms by (simp add: smb_wf_def Let_def)
    from transaction_safe [OF this] this show ?thesis unfolding smb_enable_write_def Let_def
      by (auto elim!: safe_bind simp: smb_wf_def smb_set_irq_def)
  qed
  have "smb_wf ok (smb_status_write w s)" for w
    using assms by (simp add: smb_wf_def smb_status_write_def smb_set_irq_def Let_def)
  then show ?thesis
    using assms enable smb_index_step [of s]
    by (auto simp: amd756_smb_ioport_writeb_def Let_def smb_wf_def smb_step_index_def word_less_nat_alt)
qed

lemma readb_safe:
  assumes "smb_wf ok s"
  shows "safe (amd756_smb_ioport_readb a s) (\<lambda>(v, s). smb_wf ok s)"
  using assms smb_index_step [of s]
  by (auto simp: amd756_smb_ioport_readb_def Let_def smb_wf_def smb_step_index_def word_less_nat_alt)

lemma run_safe: "smb_wf ok s \<Longrightarrow> safe (smb_run cls xs s) (\<lambda>(vs, s). smb_wf ok s)"
proof (induction xs arbitrary: s)
  case (Cons x xs)
  show ?case
  proof (cases x)
    case (Rd a)
    have "safe (bind_res (smb_run cls xs s') (\<lambda>(vs, s). Inr (v # vs, s))) (\<lambda>(vs, s). smb_wf ok s)"
      if "smb_wf ok s'" for v s'
      by (rule safe_bind_pair [OF Cons.IH [OF that]]) simp
    with Cons.prems Rd show ?thesis by (auto intro!: safe_bind_pair [OF readb_safe])
  next
    case (Wr a v)
    then show ?thesis using safe_bind [OF writeb_safe [OF Cons.prems] Cons.IH] by simp
  qed
qed simp

end


section \<open>The devices of the machine\<close>

text \<open>The sizes of the arrays, and cursors inside them.\<close>

fun dev_ok :: "xbox_device \<Rightarrow> bool" where
  "dev_ok (Dev_SMC d) \<longleftrightarrow> length (version_string d) = SMC_VERSION_LENGTH \<and> 0 \<le> version_string_index d"
| "dev_ok (Dev_Storage d) \<longleftrightarrow> length (st_data d) = unat (st_size d) \<and> 256 \<le> unat (st_size d) \<and> st_offset d < st_size d"
| "dev_ok (Dev_ADM1032 d) \<longleftrightarrow> True"
| "dev_ok (Dev_CX25871 d) \<longleftrightarrow> length (enc_registers d) = 256"
| "dev_ok (Dev_FS454 d) \<longleftrightarrow> length (enc_registers d) = 256"
| "dev_ok (Dev_Xcalibur d) \<longleftrightarrow> length (enc_registers d) = 256"

lemma ucast_u8: "(ucast (ucast (x :: u8) :: u32) :: u8) = x"
  by (rule bit_word_eqI) (auto simp: bit_simps dest: bit_imp_le_length)

lemma u8_less: "unat (c :: u8) < 256"
  using unsigned_less [where ?'a = nat, of c] by simp

lemma smc_write_ok: "dev_ok (Dev_SMC d) \<Longrightarrow> buf \<noteq> [] \<Longrightarrow> safe (smc_write_data d buf) (\<lambda>d. dev_ok (Dev_SMC d))"
  by (simp add: smc_write_data_def Let_def)

lemma smc_receive_ok: "dev_ok (Dev_SMC d) \<Longrightarrow> safe (smc_receive_byte d) (\<lambda>(v, d). dev_ok (Dev_SMC d))"
proof -
  have "nat (i mod 3) < 3" for i :: int by simp
  then show "dev_ok (Dev_SMC d) \<Longrightarrow> ?thesis"
    by (auto simp: smc_receive_byte_def Let_def check_def safe_def)
qed

lemma storage_offset_ok:
  assumes "dev_ok (Dev_Storage d)"
  shows "st_size d \<noteq> 0" "unat ((st_offset d + 1) mod st_size d) < unat (st_size d)"
proof -
  have "0 < unat (st_size d)" using assms by simp
  then show "st_size d \<noteq> 0" "unat ((st_offset d + 1) mod st_size d) < unat (st_size d)" by (auto simp: unat_mod)
qed

lemma storage_put_ok: "dev_ok (Dev_Storage d) \<Longrightarrow> safe (storage_put v d) (\<lambda>d. dev_ok (Dev_Storage d))"
  using storage_offset_ok [of d] by (auto simp: storage_put_def word_less_nat_alt)

lemma storage_write_ok:
  assumes "dev_ok (Dev_Storage d)" "buf \<noteq> []"
  shows "safe (smbus_storage_write_data d buf) (\<lambda>d. dev_ok (Dev_Storage d))"
proof -
  have "unat (hd buf) < unat (st_size d)" using assms(1) u8_less [of "hd buf"] by simp
  then have "dev_ok (Dev_Storage (d\<lparr>st_offset := ucast (hd buf)\<rparr>))"
    using assms(1) by (simp add: word_less_nat_alt)
  then have "safe (fold_res storage_put (tl buf) (d\<lparr>st_offset := ucast (hd buf)\<rparr>)) (\<lambda>d. dev_ok (Dev_Storage d))"
    by (rule safe_fold [of "\<lambda>ys zs d. dev_ok (Dev_Storage d)"]) (rule storage_put_ok)
  then have "safe (bind_res (fold_res storage_put (tl buf) (d\<lparr>st_offset := ucast (hd buf)\<rparr>)) (\<lambda>s.
        Inr (if tl buf \<noteq> [] \<and> st_file s \<noteq> None \<and> st_persist s \<and> st_writable s
             then s\<lparr>st_file := Some (st_data s)\<rparr> else s))) (\<lambda>d. dev_ok (Dev_Storage d))"
    by (rule safe_bind) simp
  then show ?thesis using assms(2) by (simp add: smbus_storage_write_data_def)
qed

lemma storage_receive_ok: "dev_ok (Dev_Storage d) \<Longrightarrow> safe (smbus_storage_receive_byte d) (\<lambda>(v, d). dev_ok (Dev_Storage d))"
  using storage_offset_ok [of d] by (auto simp: smbus_storage_receive_byte_def word_less_nat_alt)

lemma encoder_write_ok:
  "length (enc_registers d) = 256 \<Longrightarrow> buf \<noteq> [] \<Longrightarrow> safe (smbus_cx25871_write_data d buf) (\<lambda>d. length (enc_registers d) = 256)"
  using u8_less [of "hd buf"] by (auto simp: smbus_cx25871_write_data_def Let_def min_def)

lemma encoder_receive_ok:
  "length (enc_registers d) = 256 \<Longrightarrow> safe (smbus_cx25871_receive_byte d) (\<lambda>(v, d). length (enc_registers d) = 256)"
  by (simp add: smbus_cx25871_receive_byte_def u8_less)

lemma xbox_write_ok: "dev_ok d \<Longrightarrow> buf \<noteq> [] \<Longrightarrow> safe (xbox_write_data d buf) dev_ok"
  by (cases d) (auto simp: smbus_fs454_write_data_def smbus_xcalibur_write_data_def smbus_adm1032_write_data_def
    simp del: dev_ok.simps(1,2)
    intro!: safe_bind [OF smc_write_ok] safe_bind [OF storage_write_ok] safe_bind [OF encoder_write_ok])

lemma xbox_receive_ok: "dev_ok d \<Longrightarrow> safe (xbox_receive_byte d) (\<lambda>(v, d). dev_ok d)"
  by (cases d) (auto simp: smbus_fs454_receive_byte_def smbus_xcalibur_receive_byte_def smbus_adm1032_receive_byte_def Let_def
    simp del: dev_ok.simps(1,2)
    intro!: safe_bind_pair [OF smc_receive_ok] safe_bind_pair [OF storage_receive_ok] safe_bind_pair [OF encoder_receive_ok])

interpretation xbox: smbus_devices xbox_class dev_ok
  by unfold_locales (auto simp: xbox_class_def xbox_write_ok xbox_receive_ok split: xbox_device.splits)

text \<open>C6: Any run of port accesses of the guest keeps the controller, its bus and its devices well-formed:
  the transaction ends with every slave idle, the block index inside its buffer and every device
  cursor inside its array.  The only fault a run can meet is the overflow of the version counter.\<close>

theorem smb_run_well_formed:
  "smb_wf dev_ok s \<Longrightarrow>
    (case smb_run xbox_class xs s of Inl f \<Rightarrow> f = SignedOverflow | Inr (vs, s') \<Rightarrow> smb_wf dev_ok s')"
  using xbox.run_safe [of s xs] by (auto simp: safe_def split: sum.splits)


text \<open>A controller with an EEPROM of 256 bytes at 0x54, in the middle of a block write.\<close>

definition demo_storage :: xbox_device where
  "demo_storage = Dev_Storage \<lparr>st_file = None, st_writable = False, st_data = replicate 256 0, st_size = 256,
     st_offset = 0, st_persist = False\<rparr>"

definition demo_smbus :: "xbox_device amd_smbus" where
  "demo_smbus = \<lparr>smb_bus = \<lparr>bus_children = [\<lparr>sl_address = 0x54, sl_mode = SMBUS_IDLE, sl_data = [], sl_dev = demo_storage\<rparr>],
       bus_current = [], bus_broadcast = False\<rparr>,
     smb_stat = 0, smb_ctl = 0, smb_cmd = 0, smb_addr = 0, smb_data0 = 0, smb_data1 = 0, smb_data = replicate 32 0,
     smb_index = 31, smb_irq = True, smb_irq_level = False\<rparr>"

lemma demo_smbus_wf: "smb_wf dev_ok demo_smbus"
  by (simp add: smb_wf_def demo_smbus_def demo_storage_def bus_idle_def bus_ok_def slave_ok_def slave_idle_def)

theorem smb_run_well_formed_witness:
  "smb_wf dev_ok demo_smbus \<and>
    (case smb_run xbox_class [Wr 9 7, Rd 9] demo_smbus of Inl f \<Rightarrow> f = SignedOverflow | Inr (vs, s') \<Rightarrow> smb_wf dev_ok s')"
  using smb_run_well_formed [OF demo_smbus_wf] demo_smbus_wf by blast

interpretation xbox_uniform: uniform_devices xbox_class xbox_write_data xbox_receive_byte
  by unfold_locales (auto simp: xbox_class_def split: xbox_device.splits)

text \<open>
  What the nine commands promise about the device alone: the result, the block buffer and the device
  after it.  \<open>smb_report\<close> is what the guest then finds in the registers of the controller.
\<close>

definition device_transaction ::
  "('d \<Rightarrow> u8 list \<Rightarrow> 'd res) \<Rightarrow> ('d \<Rightarrow> (u8 \<times> 'd) res) \<Rightarrow> u8 \<Rightarrow> bool \<Rightarrow> u8 \<Rightarrow> u8 \<Rightarrow> u8 \<Rightarrow> u8 list \<Rightarrow> 'd \<Rightarrow>
    (int \<times> u8 list \<times> 'd) res" where
  "device_transaction w rb prot is_read cmd d0 d1 data d =
    (let wr = (\<lambda>buf. bind_res (w d buf) (\<lambda>d. Inr (0, data, d)))
     in if prot = 0 then Inr (0, data, d)
        else if prot = 1 then (if is_read then bind_res (rb d) (\<lambda>(v, d). Inr (uint v, data, d)) else wr [cmd])
        else if prot = 2 then
          (if is_read then bind_res (w d [cmd]) (\<lambda>d. bind_res (rb d) (\<lambda>(v, d). Inr (uint v, data, d))) else wr [cmd, d0])
        else if prot = 3 then
          (if is_read then bind_res (w d [cmd]) (\<lambda>d. bind_res (rb d) (\<lambda>(lo, d). bind_res (rb d) (\<lambda>(hi, d).
             Inr (uint (ucast lo OR push_bit 8 (ucast hi) :: u16), data, d)))) else wr [cmd, d0, d1])
        else if prot = 5 then
          (if is_read then bind_res (w d [cmd]) (\<lambda>d. bind_res (rb d) (\<lambda>(v, d).
             let len = (if unat v > 32 then 0 else unat v) in
             bind_res (fold_res (\<lambda>i (data, d). bind_res (rb d) (\<lambda>(v, d).
                 check (i < length data) OutOfBounds (Inr (data[i := v], d)))) [0..<len] (data, d)) (\<lambda>(data, d).
             Inr (int len, data, d))))
           else wr ([cmd, of_nat (min (unat d0) 32)] @ take (unat d0) data))
        else Inr (- 1, data, d))"

definition smb_report :: "u8 \<Rightarrow> bool \<Rightarrow> int \<Rightarrow> 'd amd_smbus \<Rightarrow> 'd amd_smbus" where
  "smb_report prot is_read ret s =
    (if ret < 0 then s\<lparr>smb_stat := smb_stat s OR GS_PRERR_STS\<rparr>
     else let s = (if is_read \<and> prot = 3 then s\<lparr>smb_data1 := word_of_int (ret div 256)\<rparr> else s);
              s = (if is_read \<and> prot \<noteq> 0 then s\<lparr>smb_data0 := word_of_int ret\<rparr> else s)
          in s\<lparr>smb_stat := smb_stat s OR GS_HCYC_STS\<rparr>)"

lemma word_bytes:
  "ucast ((push_bit 8 (ucast (hi :: u8)) OR ucast (lo :: u8) :: u16) AND 0xff) = lo"
  "ucast (drop_bit 8 (push_bit 8 (ucast (hi :: u8)) OR ucast (lo :: u8) :: u16)) = hi"
proof -
  have m: "(0xff :: u16) = mask 8" by (simp add: mask_eq_exp_minus_1)
  show "ucast ((push_bit 8 (ucast hi) OR ucast lo :: u16) AND 0xff) = lo"
    unfolding m by (rule bit_word_eqI) (auto simp: bit_simps)
  show "ucast (drop_bit 8 (push_bit 8 (ucast hi) OR ucast lo :: u16)) = hi"
    by (rule bit_word_eqI) (auto simp: bit_simps dest: bit_imp_le_length)
qed

lemma transaction_device:
  assumes "addressed (smb_bus s) (drop_bit 1 (smb_addr s) AND 0x7f) n" "length (smb_data s) = 32"
  shows "amd756_smb_transaction xbox_class s =
    (let prot = smb_ctl s AND 7; is_read = (smb_addr s AND 1 \<noteq> 0) in
     bind_res (device_transaction xbox_write_data xbox_receive_byte prot is_read (smb_cmd s) (smb_data0 s) (smb_data1 s)
        (smb_data s) (get_dev n (smb_bus s))) (\<lambda>(ret, data, d).
      Inr (smb_report prot is_read ret (s\<lparr>smb_bus := set_dev n d (smb_bus s), smb_data := data\<rparr>))))"
proof -
  note cmds = xbox_uniform.device_commands(1-8) [OF assms(1)] xbox_uniform.write_block_device [OF assms]
  note ctl = device_transaction_def smb_report_def smb_done_def smb_data8_def smb_data16_def
  show ?thesis
    by (simp add: amd756_smb_transaction_def cmds ctl word_bytes bind_res_assoc Let_def case_prod_unfold set_get_dev
      del: One_nat_def drop_bit_or)
qed


lemma smb_report_stat: "smb_stat (smb_report prot is_read ret s) AND GS_CLEAR_STS \<noteq> 0"
proof -
  have "bit (smb_stat (smb_report prot is_read ret s) AND GS_CLEAR_STS) (if ret < 0 then 2 else 4)"
    by (simp add: smb_report_def Let_def smb_bits bit_simps)
  then show ?thesis by (metis bit_0_eq bot_apply bot_bool_def)
qed

lemma smb_report_irq [simp]: "smb_irq (smb_report prot is_read ret s) = smb_irq s"
  "smb_irq_level (smb_report prot is_read ret s) = smb_irq_level s"
  by (simp_all add: smb_report_def Let_def)

text \<open>C5: Starting a cycle on the enable port, whatever the protocol, runs the transaction of the addressed device
  alone: no other slave changes, the outcome is reported in the status and data registers, and the completion
  interrupt is raised exactly when it is connected and enabled.\<close>

theorem smb_start_refines:
  assumes "addressed (smb_bus s) (drop_bit 1 (smb_addr s) AND 0x7f) n" "length (smb_data s) = 32"
    and "v AND GE_HOST_STC \<noteq> 0"
  shows "amd756_smb_ioport_writeb xbox_class 2 (ucast (v :: u8)) s =
    (let is_read = (smb_addr s AND 1 \<noteq> 0);
         s1 = s\<lparr>smb_ctl := v, smb_stat := (if v AND GE_ABORT \<noteq> 0 then smb_stat s OR GS_ABRT_STS else smb_stat s)\<rparr> in
     bind_res (device_transaction xbox_write_data xbox_receive_byte (v AND 7) is_read (smb_cmd s) (smb_data0 s) (smb_data1 s)
        (smb_data s) (get_dev n (smb_bus s))) (\<lambda>(ret, data, d).
      let s2 = smb_report (v AND 7) is_read ret (s1\<lparr>smb_bus := set_dev n d (smb_bus s), smb_data := data\<rparr>) in
      Inr (if smb_irq s \<and> v AND GE_HCYC_EN \<noteq> 0 then s2\<lparr>smb_irq_level := True\<rparr> else s2)))"
proof -
  let ?s1 = "s\<lparr>smb_ctl := v, smb_stat := (if v AND GE_ABORT \<noteq> 0 then smb_stat s OR GS_ABRT_STS else smb_stat s)\<rparr>"
  have s1: "(let s = s\<lparr>smb_ctl := v\<rparr> in if v AND GE_ABORT \<noteq> 0 then s\<lparr>smb_stat := smb_stat s OR GS_ABRT_STS\<rparr> else s) = ?s1"
    by (cases s) (simp add: Let_def)
  have "amd756_smb_ioport_writeb xbox_class 2 (ucast v) s = bind_res (amd756_smb_transaction xbox_class ?s1) (\<lambda>s.
      Inr (if smb_irq s \<and> v AND GE_HCYC_EN \<noteq> 0 \<and> smb_stat s AND GS_CLEAR_STS \<noteq> 0 then s\<lparr>smb_irq_level := True\<rparr> else s))"
    using assms(3) s1
    by (simp add: amd756_smb_ioport_writeb_def smb_enable_write_def smb_set_irq_def ucast_u8 Let_def cong: if_cong)
  then show ?thesis
    using transaction_device [of ?s1 n] assms(1,2)
    by (simp add: bind_res_assoc case_prod_unfold Let_def smb_report_stat del: One_nat_def)
qed

theorem smb_start_refines_witness:
  "amd756_smb_ioport_writeb xbox_class 2 (ucast (0x1A :: u8)) (demo_smbus\<lparr>smb_addr := 0xA8, smb_cmd := 2, smb_data0 := 9\<rparr>) =
    (let s1 = demo_smbus\<lparr>smb_addr := 0xA8, smb_cmd := 2, smb_data0 := 9, smb_ctl := 0x1A\<rparr> in
     bind_res (device_transaction xbox_write_data xbox_receive_byte 2 False 2 9 0 (replicate 32 0) demo_storage) (\<lambda>(ret, data, d).
      Inr ((smb_report 2 False ret (s1\<lparr>smb_bus := set_dev 0 d (smb_bus s1), smb_data := data\<rparr>))\<lparr>smb_irq_level := True\<rparr>)))"
proof -
  let ?s = "demo_smbus\<lparr>smb_addr := 0xA8, smb_cmd := 2, smb_data0 := 9\<rparr>"
  have "addressed (smb_bus ?s) (drop_bit 1 (smb_addr ?s) AND 0x7f) 0" "length (smb_data ?s) = 32" "(0x1A :: u8) AND GE_HOST_STC \<noteq> 0"
    by (simp_all add: addressed_def demo_smbus_def I2C_BROADCAST_def slave_idle_def i2c_slave_match_def GE_HOST_STC_def)
  from smb_start_refines [OF this] show ?thesis
    by (simp add: demo_smbus_def get_dev_def Let_def smb_bits)
qed

text \<open>C11: No device answers: every protocol reports a protocol error and changes nothing else.\<close>

theorem smb_absent_device:
  assumes "smb_wf dev_ok s" "drop_bit 1 (smb_addr s) AND 0x7f \<noteq> 0"
    and "\<forall>d \<in> set (bus_children (smb_bus s)). sl_address d \<noteq> drop_bit 1 (smb_addr s) AND 0x7f"
  shows "amd756_smb_transaction xbox_class s = Inr (s\<lparr>smb_stat := smb_stat s OR GS_PRERR_STS\<rparr>)"
proof -
  let ?a = "drop_bit 1 (smb_addr s) AND 0x7f"
  have bus: "bus_current (smb_bus s) = []" "\<not> bus_broadcast (smb_bus s)" using assms(1) by (simp_all add: smb_wf_def bus_idle_def)
  have "i2c_scan_bus k ss a False [] = []" if "\<forall>d \<in> set ss. sl_address d \<noteq> a" for k ss and a :: u8
    using that by (induction ss arbitrary: k) (simp_all add: i2c_slave_match_def)
  from this [OF assms(3)] have start: "i2c_do_start_transfer xbox_class ?a e (smb_bus s) = Inr (1, smb_bus s)" for e
    using bus assms(2) by (cases "smb_bus s") (simp add: i2c_do_start_transfer_def I2C_BROADCAST_def Let_def)
  show ?thesis
    by (simp add: amd756_smb_transaction_def start i2c_start_transfer_def i2c_start_send_def i2c_start_recv_def
      smbus_quick_command_def smbus_receive_byte_def smbus_send_byte_def smbus_read_byte_def smbus_write_byte_def
      smbus_read_word_def smbus_write_word_def smbus_read_block_def smbus_write_block_def smb_done_def smb_data8_def
      smb_data16_def Let_def del: One_nat_def)
qed

theorem smb_absent_device_witness:
  "amd756_smb_transaction xbox_class (demo_smbus\<lparr>smb_addr := 0x21, smb_ctl := 0x0D\<rparr>) =
    Inr (demo_smbus\<lparr>smb_addr := 0x21, smb_ctl := 0x0D, smb_stat := GS_PRERR_STS\<rparr>)"
proof -
  let ?s = "demo_smbus\<lparr>smb_addr := 0x21, smb_ctl := 0x0D\<rparr>"
  have "smb_wf dev_ok ?s" using demo_smbus_wf by (simp add: smb_wf_def)
  from smb_absent_device [OF this] show ?thesis by (simp add: demo_smbus_def)
qed

section \<open>Registers\<close>

text \<open>
  A device with a byte register for each command: a write selects the register and stores into it, a write
  of the command alone selects it for the next read.
\<close>

locale register_device =
  fixes w :: "'d \<Rightarrow> u8 list \<Rightarrow> 'd res" and rb :: "'d \<Rightarrow> (u8 \<times> 'd) res" and ok :: "'d \<Rightarrow> bool" and reg :: "'d \<Rightarrow> u8 \<Rightarrow> u8"
  assumes store: "ok d \<Longrightarrow> \<exists>d'. w d [c, v] = Inr d' \<and> ok d' \<and> reg d' = (reg d)(c := v)"
    and fetch: "ok d \<Longrightarrow> \<exists>d1 d2. w d [c] = Inr d1 \<and> rb d1 = Inr (reg d c, d2) \<and> ok d2 \<and> reg d2 = reg d"
begin

lemma write_byte_register:
  "ok d \<Longrightarrow> \<exists>d'. device_transaction w rb 2 False c v v1 data d = Inr (0, data, d') \<and> ok d' \<and> reg d' = (reg d)(c := v)"
  using store [of d c v] by (auto simp: device_transaction_def Let_def)

lemma read_byte_register:
  "ok d \<Longrightarrow> \<exists>d'. device_transaction w rb 2 True c v0 v1 data d = Inr (uint (reg d c), data, d') \<and> ok d' \<and> reg d' = reg d"
  using fetch [of d c] by (auto simp: device_transaction_def Let_def)

end

text \<open>The EEPROM of 256 bytes and the three encoders are such devices.\<close>

fun reg_ok :: "xbox_device \<Rightarrow> bool" where
  "reg_ok (Dev_Storage d) \<longleftrightarrow> length (st_data d) = 256 \<and> st_size d = 256"
| "reg_ok (Dev_CX25871 d) \<longleftrightarrow> length (enc_registers d) = 256"
| "reg_ok (Dev_FS454 d) \<longleftrightarrow> length (enc_registers d) = 256"
| "reg_ok (Dev_Xcalibur d) \<longleftrightarrow> length (enc_registers d) = 256"
| "reg_ok _ \<longleftrightarrow> False"

fun reg_file :: "xbox_device \<Rightarrow> u8 list" where
  "reg_file (Dev_Storage d) = st_data d"
| "reg_file (Dev_CX25871 d) = enc_registers d"
| "reg_file (Dev_FS454 d) = enc_registers d"
| "reg_file (Dev_Xcalibur d) = enc_registers d"
| "reg_file _ = []"

definition reg_read :: "xbox_device \<Rightarrow> u8 \<Rightarrow> u8" where
  "reg_read d c = reg_file d ! unat c"

lemma list_update_splice: "i < length xs \<Longrightarrow> take i xs @ v # drop (Suc i) xs = xs[i := v]"
  by (simp add: upd_conv_take_nth_drop)

lemma nth_update_fun: "length xs = 256 \<Longrightarrow> (\<lambda>c. xs[unat (a :: u8) := v] ! unat c) = (\<lambda>c. xs ! unat c)(a := v)"
  by (rule ext) (auto simp: nth_list_update u8_less word_unat_eq_iff)

lemma encoder_store:
  "length (enc_registers d) = 256 \<Longrightarrow>
    smbus_cx25871_write_data d [c, v] = Inr (d\<lparr>enc_cmd := c, enc_registers := (enc_registers d)[unat c := v]\<rparr>)"
  using u8_less [of c] by (simp add: smbus_cx25871_write_data_def Let_def list_update_splice min_def)

lemma storage_store:
  "length (st_data d) = 256 \<Longrightarrow> st_size d = 256 \<Longrightarrow>
    \<exists>d'. smbus_storage_write_data d [c, v] = Inr d' \<and> st_size d' = 256 \<and> st_data d' = (st_data d)[unat c := v]"
  using u8_less [of c] by (simp add: smbus_storage_write_data_def storage_put_def)

interpretation xbox_register: register_device xbox_write_data xbox_receive_byte reg_ok reg_read
proof
  fix d c v
  assume ok: "reg_ok d"
  show "\<exists>d'. xbox_write_data d [c, v] = Inr d' \<and> reg_ok d' \<and> reg_read d' = (reg_read d)(c := v)"
  proof (cases d)
    case (Dev_Storage e)
    then obtain e' where "smbus_storage_write_data e [c, v] = Inr e'" "st_size e' = 256" "st_data e' = (st_data e)[unat c := v]"
      using storage_store [of e c v] ok by auto
    then show ?thesis using Dev_Storage ok by (auto simp: reg_read_def [abs_def] nth_update_fun)
  qed (use ok in \<open>auto simp: reg_read_def [abs_def] nth_update_fun encoder_store smbus_fs454_write_data_def
        smbus_xcalibur_write_data_def\<close>)
  show "\<exists>d1 d2. xbox_write_data d [c] = Inr d1 \<and> xbox_receive_byte d1 = Inr (reg_read d c, d2) \<and> reg_ok d2 \<and>
      reg_read d2 = reg_read d"
    using ok u8_less [of c]
    by (cases d) (auto simp: reg_read_def [abs_def] smbus_storage_write_data_def smbus_storage_receive_byte_def
      smbus_cx25871_write_data_def smbus_cx25871_receive_byte_def smbus_fs454_write_data_def smbus_fs454_receive_byte_def
      smbus_xcalibur_write_data_def smbus_xcalibur_receive_byte_def Let_def)
qed


section \<open>A register written and read through the ports\<close>

lemma smb_addr_decode:
  assumes "(a :: u8) < 0x80"
  shows "drop_bit 1 (push_bit 1 a) AND 0x7f = a" "drop_bit 1 (push_bit 1 a OR 1) AND 0x7f = a"
    "push_bit 1 a AND 1 = 0" "(push_bit 1 a OR 1) AND 1 = 1"
proof -
  have m: "(0x7f :: u8) = mask 7" by (simp add: mask_eq_exp_minus_1)
  have "unat (take_bit 7 a) = unat a"
    using assms by (simp add: unsigned_take_bit_eq take_bit_nat_eq_self_iff word_less_nat_alt)
  then have "take_bit 7 a = a" by (simp add: word_unat_eq_iff)
  then have b: "bit a k \<Longrightarrow> k < 7" for k by (metis bit_take_bit_iff)
  show "drop_bit 1 (push_bit 1 a) AND 0x7f = a" "drop_bit 1 (push_bit 1 a OR 1) AND 0x7f = a"
    "push_bit 1 a AND 1 = 0" "(push_bit 1 a OR 1) AND 1 = 1"
    unfolding m by (rule bit_word_eqI, auto simp: bit_simps simp del: push_bit_Suc One_nat_def dest: b)+
qed

lemma smb_start_byte:
  assumes "addressed (smb_bus s) (drop_bit 1 (smb_addr s) AND 0x7f) n" "length (smb_data s) = 32"
  shows "amd756_smb_ioport_writeb xbox_class 2 0x0A s =
    (let is_read = (smb_addr s AND 1 \<noteq> 0) in
     bind_res (device_transaction xbox_write_data xbox_receive_byte 2 is_read (smb_cmd s) (smb_data0 s) (smb_data1 s)
        (smb_data s) (get_dev n (smb_bus s))) (\<lambda>(ret, data, d).
      Inr (smb_report 2 is_read ret (s\<lparr>smb_ctl := 0x0A, smb_bus := set_dev n d (smb_bus s), smb_data := data\<rparr>))))"
proof -
  have "amd756_smb_ioport_writeb xbox_class 2 0x0A s = amd756_smb_transaction xbox_class (s\<lparr>smb_ctl := 0x0A\<rparr>)"
    by (cases "amd756_smb_transaction xbox_class (s\<lparr>smb_ctl := 0x0A\<rparr>)")
      (simp_all add: amd756_smb_ioport_writeb_def smb_enable_write_def smb_bits)
  then show ?thesis using transaction_device [of "s\<lparr>smb_ctl := 0x0A\<rparr>" n] assms by (simp add: Let_def)
qed

lemma smb_write_register:
  assumes "addressed (smb_bus s) a n" "length (smb_data s) = 32" "a < 0x80" "reg_ok (get_dev n (smb_bus s))"
    and "smb_addr s = push_bit 1 a"
  shows "\<exists>d s'. amd756_smb_ioport_writeb xbox_class 2 0x0A s = Inr s' \<and> smb_bus s' = set_dev n d (smb_bus s) \<and>
    smb_data s' = smb_data s \<and> reg_ok d \<and> reg_read d = (reg_read (get_dev n (smb_bus s)))(smb_cmd s := smb_data0 s)"
proof -
  obtain d where d: "device_transaction xbox_write_data xbox_receive_byte 2 False (smb_cmd s) (smb_data0 s) (smb_data1 s)
      (smb_data s) (get_dev n (smb_bus s)) = Inr (0, smb_data s, d)" "reg_ok d"
      "reg_read d = (reg_read (get_dev n (smb_bus s)))(smb_cmd s := smb_data0 s)"
    using xbox_register.write_byte_register [OF assms(4)] by blast
  then show ?thesis using smb_start_byte [of s n] assms smb_addr_decode [OF assms(3)]
    by (auto simp: smb_report_def Let_def)
qed

lemma smb_read_register:
  assumes "addressed (smb_bus s) a n" "length (smb_data s) = 32" "a < 0x80" "reg_ok (get_dev n (smb_bus s))"
    and "smb_addr s = push_bit 1 a OR 1"
  shows "\<exists>s'. amd756_smb_ioport_writeb xbox_class 2 0x0A s = Inr s' \<and> smb_data0 s' = reg_read (get_dev n (smb_bus s)) (smb_cmd s)"
proof -
  obtain d where d: "device_transaction xbox_write_data xbox_receive_byte 2 True (smb_cmd s) (smb_data0 s) (smb_data1 s)
      (smb_data s) (get_dev n (smb_bus s)) = Inr (uint (reg_read (get_dev n (smb_bus s)) (smb_cmd s)), smb_data s, d)"
    using xbox_register.read_byte_register [OF assms(4)] by blast
  then show ?thesis using smb_start_byte [of s n] assms smb_addr_decode [OF assms(3)]
    by (auto simp: smb_report_def Let_def)
qed

text \<open>C7: A byte the guest writes to a register of the EEPROM or of a video encoder through the ports is the byte
  it reads back, and every other register reads as before.\<close>

theorem smb_register_round_trip:
  assumes "addressed (smb_bus s) a n" "length (smb_data s) = 32" "a < 0x80" "reg_ok (get_dev n (smb_bus s))"
  shows "\<exists>s'. smb_run xbox_class
      [Wr 4 (ucast (push_bit 1 a)), Wr 8 (ucast c), Wr 6 (ucast (v :: u8)), Wr 2 0x0A,
       Wr 4 (ucast (push_bit 1 a OR 1)), Wr 8 (ucast (c' :: u8)), Wr 2 0x0A, Rd 6] s =
      Inr ([ucast (if c' = c then v else reg_read (get_dev n (smb_bus s)) c')], s')"
proof -
  let ?s = "s\<lparr>smb_addr := push_bit 1 a, smb_cmd := c, smb_data0 := v\<rparr>"
  obtain d s1 where s1: "amd756_smb_ioport_writeb xbox_class 2 0x0A ?s = Inr s1" "smb_bus s1 = set_dev n d (smb_bus s)"
      "smb_data s1 = smb_data s" "reg_ok d" "reg_read d = (reg_read (get_dev n (smb_bus s)))(c := v)"
    using smb_write_register [of ?s a n] assms by auto
  let ?s1 = "s1\<lparr>smb_addr := push_bit 1 a OR 1, smb_cmd := c'\<rparr>"
  obtain s2 where s2: "amd756_smb_ioport_writeb xbox_class 2 0x0A ?s1 = Inr s2" "smb_data0 s2 = reg_read d c'"
    using smb_read_register [of ?s1 a n] s1 assms by (auto simp: addressed_set_dev get_set_dev)
  have set: "amd756_smb_ioport_writeb xbox_class 4 (ucast x) t = Inr (t\<lparr>smb_addr := x\<rparr>)"
    "amd756_smb_ioport_writeb xbox_class 8 (ucast x) t = Inr (t\<lparr>smb_cmd := x\<rparr>)"
    "amd756_smb_ioport_writeb xbox_class 6 (ucast x) t = Inr (t\<lparr>smb_data0 := x\<rparr>)"
    "amd756_smb_ioport_readb 6 t = Inr (ucast (smb_data0 t), t)" for x :: u8 and t
    by (simp_all add: amd756_smb_ioport_writeb_def amd756_smb_ioport_readb_def ucast_u8)
  show ?thesis using s1 s2 by (simp only: smb_run.simps set bind_res_simps) simp
qed

theorem smb_register_round_trip_witness:
  "\<exists>s'. smb_run xbox_class
      [Wr 4 (ucast (push_bit 1 0x54 :: u8)), Wr 8 (ucast (0x30 :: u8)), Wr 6 (ucast (0x99 :: u8)), Wr 2 0x0A,
       Wr 4 (ucast (push_bit 1 0x54 OR 1 :: u8)), Wr 8 (ucast (0x30 :: u8)), Wr 2 0x0A, Rd 6] demo_smbus =
      Inr ([ucast (0x99 :: u8)], s')"
proof -
  have "addressed (smb_bus demo_smbus) 0x54 0" "length (smb_data demo_smbus) = 32" "(0x54 :: u8) < 0x80"
    "reg_ok (get_dev 0 (smb_bus demo_smbus))"
    by (simp_all add: addressed_def demo_smbus_def I2C_BROADCAST_def slave_idle_def i2c_slave_match_def get_dev_def demo_storage_def)
  from smb_register_round_trip [OF this, of "0x30" "0x99" "0x30"] show ?thesis by (simp only: if_True simp_thms)
qed

end
