(* ===== verification/Crypto.thy ===== *)
theory Crypto
  imports Xbox_Prelude
begin

unbundle bit_operations_syntax

text \<open>
  The hash and the cipher of the EEPROM (\<open>util/sha1.c\<close>, \<open>util/rc4.c\<close>).  The arrays of the contexts are lists
  of their fixed length; a store at an index the code does not bound is checked.
\<close>

section \<open>SHA-1\<close>

record sha1_context =
  intermediate :: "u32 list"
  msg_blk :: "u8 list"
  msg_blk_index :: u32
  sha_length :: u32
  computed :: bool

definition sha1_rotate :: "nat \<Rightarrow> u32 \<Rightarrow> u32" where
  "sha1_rotate bits val = push_bit bits val OR drop_bit (32 - bits) val"

definition sha1_fill :: "u32 \<Rightarrow> u32 \<Rightarrow> u32 \<Rightarrow> u32 \<Rightarrow> u32 \<Rightarrow> sha1_context \<Rightarrow> sha1_context" where
  "sha1_fill a b c d e ctx = ctx\<lparr>intermediate := [a, b, c, d, e]\<rparr>"

text \<open>A word of the block is stored with its first byte most significant.\<close>

definition be32_at :: "u8 list \<Rightarrow> nat \<Rightarrow> u32" where
  "be32_at m i = le32 (m ! (i + 3)) (m ! (i + 2)) (m ! (i + 1)) (m ! i)"

definition be32_bytes :: "u32 \<Rightarrow> u8 list" where
  "be32_bytes w = [byte_of w 3, byte_of w 2, byte_of w 1, byte_of w 0]"

definition sha1_schedule :: "u8 list \<Rightarrow> u32 list" where
  "sha1_schedule m =
    fold (\<lambda>i w. w @ [sha1_rotate 1 (w ! (i - 3) XOR w ! (i - 8) XOR w ! (i - 14) XOR w ! (i - 16))]) [16..<80]
      (map (\<lambda>i. be32_at m (4 * i)) [0..<16])"

definition sha1_mix :: "nat \<Rightarrow> u32 \<Rightarrow> u32 \<Rightarrow> u32 \<Rightarrow> u32" where
  "sha1_mix i b c d =
    (let q = i div 20 in
     if q = 0 then 0x5A827999 + ((b AND c) OR (NOT b AND d))
     else if q = 1 then 0x6ED9EBA1 + (b XOR c XOR d)
     else if q = 2 then 0x8F1BBCDC + ((b AND c) OR (b AND d) OR (c AND d))
     else if q = 3 then 0xCA62C1D6 + (b XOR c XOR d)
     else 0)"

definition sha1_round :: "u32 list \<Rightarrow> nat \<Rightarrow> u32 \<times> u32 \<times> u32 \<times> u32 \<times> u32 \<Rightarrow> u32 \<times> u32 \<times> u32 \<times> u32 \<times> u32" where
  "sha1_round w i = (\<lambda>(a, b, c, d, e).
    (sha1_rotate 5 a + w ! i + e + sha1_mix i b c d, a, sha1_rotate 30 b, c, d))"

definition sha1_compress :: "u8 list \<Rightarrow> u32 list \<Rightarrow> u32 list" where
  "sha1_compress m h =
    (let (a, b, c, d, e) = fold (sha1_round (sha1_schedule m)) [0..<80] (h ! 0, h ! 1, h ! 2, h ! 3, h ! 4)
     in [h ! 0 + a, h ! 1 + b, h ! 2 + c, h ! 3 + d, h ! 4 + e])"

definition sha1_process :: "sha1_context \<Rightarrow> sha1_context" where
  "sha1_process ctx = ctx\<lparr>intermediate := sha1_compress (msg_blk ctx) (intermediate ctx), msg_blk_index := 0\<rparr>"

text \<open>\<open>ctx->msg_blk[ctx->msg_blk_index++] = v\<close>, and the loop that stores zeros up to an index.\<close>

definition sha1_put :: "u8 \<Rightarrow> sha1_context \<Rightarrow> sha1_context res" where
  "sha1_put v ctx =
    check (unat (msg_blk_index ctx) < length (msg_blk ctx)) OutOfBounds
      (Inr (ctx\<lparr>msg_blk := (msg_blk ctx)[unat (msg_blk_index ctx) := v], msg_blk_index := msg_blk_index ctx + 1\<rparr>))"

function sha1_zeros :: "u32 \<Rightarrow> sha1_context \<Rightarrow> sha1_context res" where
  "sha1_zeros n ctx =
    (if msg_blk_index ctx < n
     then (case sha1_put 0 ctx of Inl f \<Rightarrow> Inl f | Inr ctx \<Rightarrow> sha1_zeros n ctx)
     else Inr ctx)"
  by pat_completeness auto
termination
proof (relation "measure (\<lambda>(n, ctx). unat n - unat (msg_blk_index ctx))", goal_cases)
  case (2 n ctx ctx')
  then have "msg_blk_index ctx' = msg_blk_index ctx + 1" by (auto simp: sha1_put_def)
  moreover have "unat (msg_blk_index ctx + 1) = unat (msg_blk_index ctx) + 1"
    using 2(1) unsigned_less [where ?'a = nat, of n] by (simp add: word_less_nat_alt unat_word_ariths)
  ultimately show ?case using 2(1) by (simp add: word_less_nat_alt)
qed simp

declare sha1_zeros.simps [simp del]

definition sha1_pad :: "sha1_context \<Rightarrow> sha1_context res" where
  "sha1_pad ctx =
    bind_res (sha1_put 0x80 ctx) (\<lambda>ctx.
    bind_res (if msg_blk_index ctx > 56 then bind_res (sha1_zeros 64 ctx) (\<lambda>ctx. Inr (sha1_process ctx)) else Inr ctx) (\<lambda>ctx.
    bind_res (sha1_zeros 56 ctx) (\<lambda>ctx.
    Inr (sha1_process (ctx\<lparr>msg_blk := take 56 (msg_blk ctx) @ replicate 4 0 @ be32_bytes (sha_length ctx)\<rparr>)))))"

text \<open>
  The bytes of the input are read one by one, so the input may be the buffer of the context itself: \<open>src\<close> gives
  \<open>data[i]\<close> in the present state.
\<close>

type_synonym sha1_source = "sha1_context \<Rightarrow> nat \<Rightarrow> u8 res"

definition buffer :: "u8 list \<Rightarrow> sha1_source" where
  "buffer data ctx i = check (i < length data) OutOfBounds (Inr (data ! i))"

definition own_block :: sha1_source where
  "own_block ctx i = check (i < length (msg_blk ctx)) OutOfBounds (Inr (msg_blk ctx ! i))"

definition sha1_step :: "sha1_source \<Rightarrow> nat \<Rightarrow> sha1_context \<Rightarrow> sha1_context res" where
  "sha1_step src i ctx =
    bind_res (src ctx i) (\<lambda>v. bind_res (sha1_put v ctx) (\<lambda>ctx.
    Inr (if msg_blk_index ctx = 64 then sha1_process ctx else ctx)))"

definition sha1_input :: "sha1_source \<Rightarrow> nat \<Rightarrow> sha1_context \<Rightarrow> sha1_context res" where
  "sha1_input src len ctx = int_loop len (sha1_step src) (ctx\<lparr>sha_length := sha_length ctx + of_nat (len * 8)\<rparr>)"

definition sha1_digest :: "u32 list \<Rightarrow> u8 list" where
  "sha1_digest h = map (\<lambda>i. ucast (drop_bit (8 * (3 - i mod 4)) (h ! (i div 4)))) [0..<20]"

text \<open>The 20 bytes stored at \<open>data\<close> and the context.\<close>

definition sha1_result :: "sha1_context \<Rightarrow> (u8 list \<times> sha1_context) res" where
  "sha1_result ctx =
    bind_res (if \<not> computed ctx then bind_res (sha1_pad ctx) (\<lambda>ctx. Inr (ctx\<lparr>sha_length := 0, computed := True\<rparr>)) else Inr ctx)
      (\<lambda>ctx. Inr (sha1_digest (intermediate ctx), ctx))"

definition sha1_reset :: "sha1_context \<Rightarrow> sha1_context" where
  "sha1_reset ctx = (sha1_fill 0x67452301 0xEFCDAB89 0x98BADCFE 0x10325476 0xC3D2E1F0 ctx)
    \<lparr>msg_blk_index := 0, computed := False, sha_length := 0\<rparr>"

section \<open>RC4\<close>

definition rc4_swap :: "nat \<Rightarrow> nat \<Rightarrow> u8 list \<Rightarrow> u8 list" where
  "rc4_swap first second s = (let temp = s ! first in (s[first := s ! second])[second := temp])"

definition rc4_init :: "u8 list \<Rightarrow> u8 list res" where
  "rc4_init data =
    check (length data \<noteq> 0) DivByZero
      (Inr (snd (fold (\<lambda>i (j, s).
        let j = (j + unat (s ! i) + unat (data ! (i mod length data))) mod 256
        in (j, rc4_swap i j s)) [0..<256] (0, map of_nat [0..<256]))))"

definition rc4_step :: "nat \<Rightarrow> nat \<times> nat \<times> u8 list \<times> u8 list \<Rightarrow> nat \<times> nat \<times> u8 list \<times> u8 list" where
  "rc4_step k = (\<lambda>(i, j, s, data).
    let i = (i + 1) mod 256; j = (j + unat (s ! i)) mod 256; s = rc4_swap i j s
    in (i, j, s, data[k := data ! k XOR s ! ((unat (s ! i) + unat (s ! j)) mod 256)]))"

definition rc4_crypt :: "u8 list \<Rightarrow> u8 list \<Rightarrow> (u8 list \<times> u8 list) res" where
  "rc4_crypt s data =
    bind_res (int_loop (length data) (\<lambda>k st. Inr (rc4_step k st)) (0, 0, s, data)) (\<lambda>(i, j, s, data). Inr (s, data))"

end
