(* ===== verification/EEPROM.thy ===== *)
theory EEPROM
  imports Crypto
begin

unbundle bit_operations_syntax

text \<open>
  The generator of EEPROM images (\<open>hw/xbox/eeprom_generation.c\<close>).  \<open>XboxEEPROM\<close> is a packed structure and the code
  works across its fields, so an image is its 256 bytes and a field the offset of it.  The bytes of
  \<open>qcrypto_random_bytes\<close>, which ends the process when it fails, are arguments.
\<close>

datatype eeprom_version = XBOX_EEPROM_VERSION_D | XBOX_EEPROM_VERSION_R1 | XBOX_EEPROM_VERSION_R2 | XBOX_EEPROM_VERSION_R3

datatype eeprom_field = F_hash | F_confounder | F_hdd_key | F_region | F_checksum | F_serial | F_mac | F_online_key
  | F_video_standard | F_user_checksum | F_user_section

fun offset_of :: "eeprom_field \<Rightarrow> nat" where
  "offset_of F_hash = 0"
| "offset_of F_confounder = 20"
| "offset_of F_hdd_key = 28"
| "offset_of F_region = 44"
| "offset_of F_checksum = 48"
| "offset_of F_serial = 52"
| "offset_of F_mac = 64"
| "offset_of F_online_key = 72"
| "offset_of F_video_standard = 88"
| "offset_of F_user_checksum = 96"
| "offset_of F_user_section = 100"

definition put_bytes :: "nat \<Rightarrow> u8 list \<Rightarrow> u8 list \<Rightarrow> u8 list" where
  "put_bytes off bs e = take off e @ bs @ drop (off + length bs) e"

definition get_bytes :: "nat \<Rightarrow> nat \<Rightarrow> u8 list \<Rightarrow> u8 list" where
  "get_bytes off n e = take n (drop off e)"

definition le32_list :: "u32 \<Rightarrow> u8 list" where
  "le32_list w = [byte_of w 0, byte_of w 1, byte_of w 2, byte_of w 3]"

section \<open>Checksums\<close>

definition crc_step :: "u8 list \<Rightarrow> nat \<Rightarrow> u32 \<times> u32 \<Rightarrow> u32 \<times> u32" where
  "crc_step data i = (\<lambda>(high, low).
    let val = le32 (data ! (4 * i)) (data ! (4 * i + 1)) (data ! (4 * i + 2)) (data ! (4 * i + 3));
        sum = push_bit 32 (ucast high :: u64) OR ucast low
    in (ucast (drop_bit 32 (sum + ucast val)), low + val))"

definition xbox_eeprom_crc :: "u8 list \<Rightarrow> u32 res" where
  "xbox_eeprom_crc data =
    bind_res (int_loop (length data div 4) (\<lambda>i st. Inr (crc_step data i st)) (0, 0)) (\<lambda>(high, low). Inr (NOT (high + low)))"

section \<open>The hash of the security section\<close>

definition xbox_sha1_reset :: "eeprom_version \<Rightarrow> bool \<Rightarrow> sha1_context \<Rightarrow> sha1_context" where
  "xbox_sha1_reset ver first ctx =
    (let ctx = ctx\<lparr>msg_blk_index := 0, computed := False, sha_length := 512\<rparr> in
     case ver of
       XBOX_EEPROM_VERSION_D \<Rightarrow>
         (if first then sha1_fill 0x85F9E51A 0xE04613D2 0x6D86A50C 0x77C32E3C 0x4BD717A4 ctx
          else sha1_fill 0x5D7A9C6B 0xE1922BEB 0xB82CCDBC 0x3137AB34 0x486B52B3 ctx)
     | XBOX_EEPROM_VERSION_R2 \<Rightarrow>
         (if first then sha1_fill 0x39B06E79 0xC9BD25E8 0xDBC6B498 0x40B4389D 0x86BBD7ED ctx
          else sha1_fill 0x9B49BED3 0x84B430FC 0x6B8749CD 0xEBFE5FE5 0xD96E7393 ctx)
     | XBOX_EEPROM_VERSION_R3 \<Rightarrow>
         (if first then sha1_fill 0x8058763A 0xF97D4E0E 0x865A9762 0x8A3D920D 0x08995B2C ctx
          else sha1_fill 0x01075307 0xA2f1E037 0x1186EEEA 0x88DA9992 0x168A5609 ctx)
     | _ \<Rightarrow>
         (if first then sha1_fill 0x72127625 0x336472B9 0xBE609BEA 0xF55E226B 0x99958DAC ctx
          else sha1_fill 0x76441D41 0x4DE82659 0x2E8EF85E 0xB256FACA 0xC4FE2DE8 ctx))"

text \<open>The first digest is stored in the block buffer and is the input of the second hash from there.\<close>

definition xbox_sha1_compute :: "eeprom_version \<Rightarrow> u8 list \<Rightarrow> sha1_context \<Rightarrow> (u8 list \<times> sha1_context) res" where
  "xbox_sha1_compute ver data ctx =
    bind_res (sha1_input (buffer data) (length data) (xbox_sha1_reset ver True ctx)) (\<lambda>ctx.
    bind_res (sha1_result ctx) (\<lambda>(h, ctx).
    bind_res (sha1_input own_block 20 (xbox_sha1_reset ver False (ctx\<lparr>msg_blk := put_bytes 0 h (msg_blk ctx)\<rparr>)))
      sha1_result))"

section \<open>An image\<close>

definition user_section_default :: "u8 list" where
  "user_section_default =
    [0x00, 0x00, 0x00, 0x00, 0x47, 0x4D, 0x54, 0x00, 0x42, 0x53, 0x54, 0x00,
     0x00, 0x00, 0x00, 0x00, 0x00, 0x00, 0x00, 0x00, 0x0A, 0x05, 0x00, 0x02, 0x03, 0x05, 0x00, 0x01, 0x00, 0x00,
     0x00, 0x00, 0x00, 0x00, 0x00, 0x00, 0x00, 0x00, 0x00, 0x00, 0xC4, 0xFF, 0xFF, 0xFF]"

text \<open>The fields before the checksums, from the random confounder, keys, address and serial number.\<close>

definition eeprom_fields :: "u8 list \<Rightarrow> u8 list \<Rightarrow> u8 list \<Rightarrow> u8 list \<Rightarrow> u8 list \<Rightarrow> u8 list" where
  "eeprom_fields confounder hdd_key online_key mac serial =
    (let e = replicate 256 0;
         e = put_bytes (offset_of F_region) (le32_list 1) e;
         e = put_bytes (offset_of F_video_standard) (le32_list 0x00400100) e;
         e = put_bytes (offset_of F_confounder) confounder e;
         e = put_bytes (offset_of F_hdd_key) hdd_key e;
         e = put_bytes (offset_of F_online_key) online_key e;
         e = put_bytes (offset_of F_mac) [0x00, 0x50, 0xF2] e;
         e = put_bytes (offset_of F_mac + 3) mac e;
         e = put_bytes (offset_of F_serial) serial e;
         e = put_bytes (offset_of F_serial) (map (\<lambda>b. 0x30 + b mod 10) (get_bytes (offset_of F_serial) 12 e)) e;
         e = put_bytes (offset_of F_user_section) user_section_default e
     in put_bytes (offset_of F_user_section + 0x2C) (le32_list 1) e)"

definition eeprom_checksums :: "u8 list \<Rightarrow> u8 list res" where
  "eeprom_checksums e =
    bind_res (xbox_eeprom_crc (get_bytes (offset_of F_serial) 0x2C e)) (\<lambda>c.
    let e = put_bytes (offset_of F_checksum) (le32_list c) e in
    bind_res (xbox_eeprom_crc (get_bytes (offset_of F_user_section) 0x5C e)) (\<lambda>c.
    Inr (put_bytes (offset_of F_user_checksum) (le32_list c) e)))"

definition eeprom_encrypt :: "eeprom_version \<Rightarrow> sha1_context \<Rightarrow> u8 list \<Rightarrow> u8 list res" where
  "eeprom_encrypt ver sctx e =
    bind_res (xbox_sha1_compute ver (get_bytes (offset_of F_confounder) 0x1C e) sctx) (\<lambda>(h, sctx).
    let e = put_bytes (offset_of F_hash) h e in
    bind_res (xbox_sha1_compute ver (get_bytes (offset_of F_hash) 20 e) sctx) (\<lambda>(seed, sctx).
    bind_res (rc4_init seed) (\<lambda>s.
    bind_res (rc4_crypt s (get_bytes (offset_of F_confounder) 0x1C e)) (\<lambda>(s, bs).
    Inr (put_bytes (offset_of F_confounder) bs e)))))"

text \<open>
  \<open>sctx\<close> is the uninitialised context on the stack, \<open>can_open\<close> and \<open>can_write\<close> say whether opening and writing the
  file succeeds.  The result is the return value and the bytes written.
\<close>

definition xbox_eeprom_generate ::
  "eeprom_version \<Rightarrow> sha1_context \<Rightarrow> bool \<Rightarrow> bool \<Rightarrow> u8 list \<Rightarrow> u8 list \<Rightarrow> u8 list \<Rightarrow> u8 list \<Rightarrow> u8 list \<Rightarrow>
    (bool \<times> u8 list option) res" where
  "xbox_eeprom_generate ver sctx can_open can_write confounder hdd_key online_key mac serial =
    bind_res (eeprom_checksums (eeprom_fields confounder hdd_key online_key mac serial)) (\<lambda>e.
    bind_res (eeprom_encrypt ver sctx e) (\<lambda>e.
    if \<not> can_open then Inr (False, None)
    else if can_write then Inr (True, Some e) else Inr (False, None)))"

end
