(* ===== verification/EEPROM_Spec.thy ===== *)
theory EEPROM_Spec
  imports EEPROM "HOL-Library.Multiset"
begin

unbundle bit_operations_syntax

text \<open>
  The hash of the code against the standard, RC4 as a stream cipher over a permutation, the checksum as a sum with
  end-around carries, and the images of the generator against what the kernel checks.
\<close>

section \<open>SHA-1\<close>

text \<open>A message padded for a hash that has already seen \<open>n0\<close> bytes, and its blocks.\<close>

definition sha1_padding :: "nat \<Rightarrow> nat \<Rightarrow> u8 list" where
  "sha1_padding n0 n = 0x80 # replicate ((119 - n mod 64) mod 64) 0 @ replicate 4 0 @ be32_bytes (of_nat ((n0 + n) * 8))"

function chunks :: "'a list \<Rightarrow> 'a list list" where
  "chunks xs = (if xs = [] then [] else take 64 xs # chunks (drop 64 xs))"
  by pat_completeness auto
termination by (relation "measure length") auto

declare chunks.simps [simp del]

definition sha1_spec :: "nat \<Rightarrow> u32 list \<Rightarrow> u8 list \<Rightarrow> u8 list" where
  "sha1_spec n0 iv xs = sha1_digest (fold sha1_compress (chunks (xs @ sha1_padding n0 (length xs))) iv)"

lemma chunks_Nil [simp]: "chunks [] = []"
  by (simp add: chunks.simps)

lemma chunks_block: "length b = 64 \<Longrightarrow> chunks (b @ xs) = b # chunks xs"
  by (subst chunks.simps) auto

lemma chunks_concat: "(\<forall>b \<in> set bs. length b = 64) \<Longrightarrow> chunks (concat bs @ xs) = bs @ chunks xs"
  by (induction bs) (simp_all add: chunks_block)

text \<open>The context has hashed the blocks \<open>bs\<close> and holds the bytes \<open>r\<close>.\<close>

definition loaded :: "u32 list \<Rightarrow> u8 list list \<Rightarrow> u8 list \<Rightarrow> sha1_context \<Rightarrow> bool" where
  "loaded iv bs r ctx \<longleftrightarrow> (\<forall>b \<in> set bs. length b = 64) \<and> length (msg_blk ctx) = 64 \<and> length r \<le> 64 \<and>
     msg_blk_index ctx = of_nat (length r) \<and> take (length r) (msg_blk ctx) = r \<and> intermediate ctx = fold sha1_compress bs iv"

lemma unat_small: "n \<le> 64 \<Longrightarrow> unat (of_nat n :: u32) = n"
  by (simp add: unat_of_nat)

lemma loaded_put:
  assumes "loaded iv bs r ctx" "length r < 64"
  shows "\<exists>ctx'. sha1_put v ctx = Inr ctx' \<and> loaded iv bs (r @ [v]) ctx' \<and> sha_length ctx' = sha_length ctx \<and> computed ctx' = computed ctx"
proof -
  have i: "unat (msg_blk_index ctx) = length r" using assms by (simp add: loaded_def unat_small)
  have "take (Suc (length r)) ((msg_blk ctx)[length r := v]) = r @ [v]"
    using assms by (simp add: loaded_def take_Suc_conv_app_nth)
  then show ?thesis using assms i by (auto simp: sha1_put_def loaded_def)
qed

lemma loaded_process:
  "loaded iv bs r ctx \<Longrightarrow> length r = 64 \<Longrightarrow> loaded iv (bs @ [r]) [] (sha1_process ctx)"
  by (auto simp: loaded_def sha1_process_def)

lemma loaded_zeros:
  assumes "loaded iv bs r ctx" "length r \<le> n" "n \<le> 64"
  shows "\<exists>ctx'. sha1_zeros (of_nat n) ctx = Inr ctx' \<and> loaded iv bs (r @ replicate (n - length r) 0) ctx' \<and>
    sha_length ctx' = sha_length ctx \<and> computed ctx' = computed ctx"
  using assms(1,2)
proof (induction "n - length r" arbitrary: r ctx)
  case 0
  then have "length r = n" by simp
  then show ?case using 0 by (simp add: sha1_zeros.simps [of "of_nat n"] loaded_def)
next
  case (Suc k)
  then have r: "length r < n" by simp
  from loaded_put [OF Suc.prems(1), of 0] obtain c where c: "sha1_put 0 ctx = Inr c" "loaded iv bs (r @ [0]) c"
      "sha_length c = sha_length ctx" "computed c = computed ctx"
    using r assms(3) by auto
  have "k = n - length (r @ [0 :: u8])" using Suc.hyps(2) by simp
  from Suc.hyps(1) [OF this c(2)] r obtain c' where c': "sha1_zeros (of_nat n) c = Inr c'"
      "loaded iv bs ((r @ [0]) @ replicate (n - length (r @ [0])) 0) c'" "sha_length c' = sha_length c" "computed c' = computed c"
    by auto
  have "r @ replicate (n - length r) 0 = (r @ [0 :: u8]) @ replicate (n - length (r @ [0])) 0"
    using Suc.hyps(2) r by (simp add: Suc_diff_Suc flip: replicate_Suc)
  moreover have "msg_blk_index ctx < of_nat n"
    using Suc.prems(1) r assms(3) by (simp add: loaded_def word_less_nat_alt unat_small)
  ultimately show ?case using c c' by (simp add: sha1_zeros.simps [of "of_nat n" ctx])
qed

lemma loaded_step:
  assumes "loaded iv bs r ctx" "length r < 64" "src ctx i = Inr v"
  shows "\<exists>bs' r' ctx'. sha1_step src i ctx = Inr ctx' \<and> loaded iv bs' r' ctx' \<and> length r' < 64 \<and>
    concat bs' @ r' = concat bs @ r @ [v] \<and> sha_length ctx' = sha_length ctx \<and> computed ctx' = computed ctx"
proof -
  obtain c where c: "sha1_put v ctx = Inr c" "loaded iv bs (r @ [v]) c" "sha_length c = sha_length ctx" "computed c = computed ctx"
    using loaded_put [OF assms(1,2)] by blast
  have idx: "msg_blk_index c = 64 \<longleftrightarrow> length (r @ [v]) = 64"
    using c(2) unat_small [of "length (r @ [v])"] by (auto simp: loaded_def word_unat_eq_iff)
  show ?thesis
  proof (cases "length (r @ [v]) = 64")
    case True
    then show ?thesis using c idx loaded_process [OF c(2) True] assms(3)
      by (intro exI [of _ "bs @ [r @ [v]]"] exI [of _ "[]"]) (auto simp: sha1_step_def sha1_process_def)
  next
    case False
    then show ?thesis using c idx assms
      by (intro exI [of _ bs] exI [of _ "r @ [v]"]) (auto simp: sha1_step_def)
  qed
qed

lemma loaded_input:
  assumes "loaded iv [] [] ctx" "length xs < 2 ^ 31"
  shows "\<exists>bs r ctx'. sha1_input (buffer xs) (length xs) ctx = Inr ctx' \<and> loaded iv bs r ctx' \<and> length r < 64 \<and>
    concat bs @ r = xs \<and> sha_length ctx' = sha_length ctx + of_nat (length xs * 8) \<and> computed ctx' = computed ctx"
proof -
  let ?c = "ctx\<lparr>sha_length := sha_length ctx + of_nat (length xs * 8)\<rparr>"
  have "\<exists>bs r ctx'. fold_res (sha1_step (buffer xs)) [0..<n] ?c = Inr ctx' \<and> loaded iv bs r ctx' \<and> length r < 64 \<and>
      concat bs @ r = take n xs \<and> sha_length ctx' = sha_length ?c \<and> computed ctx' = computed ctx" if "n \<le> length xs" for n
    using that
  proof (induction n)
    case 0
    then show ?case using assms(1) by (intro exI [of _ "[]"]) (auto simp: loaded_def)
  next
    case (Suc n)
    then obtain bs r c where c: "fold_res (sha1_step (buffer xs)) [0..<n] ?c = Inr c" "loaded iv bs r c" "length r < 64"
        "concat bs @ r = take n xs" "sha_length c = sha_length ?c" "computed c = computed ctx"
      by (meson Suc_leD)
    have "buffer xs c n = Inr (xs ! n)" using Suc.prems by (simp add: buffer_def)
    from loaded_step [of iv bs r c "buffer xs", OF c(2,3) this] obtain bs' r' c' where c': "sha1_step (buffer xs) n c = Inr c'"
        "loaded iv bs' r' c'" "length r' < 64" "concat bs' @ r' = concat bs @ r @ [xs ! n]" "sha_length c' = sha_length c"
        "computed c' = computed c"
      by blast
    have "concat bs' @ r' = take (Suc n) xs" using c'(4) c(4) Suc.prems by (simp add: take_Suc_conv_app_nth flip: append_assoc)
    then show ?case using c c' by (intro exI [of _ bs'] exI [of _ r'] exI [of _ c']) (simp add: fold_res_append)
  qed
  from this [of "length xs"] show ?thesis by (simp add: sha1_input_def int_loop_fold [OF assms(2)])
qed

text \<open>Hashing the buffer of the context in place.\<close>

lemma own_block_steps:
  assumes "length (msg_blk ctx) = 64" "msg_blk_index ctx = 0" "n < 64"
    and "\<And>c i. msg_blk c = msg_blk ctx \<Longrightarrow> i < n \<Longrightarrow> src c i = Inr (msg_blk ctx ! i)"
  shows "fold_res (sha1_step src) [0..<n] ctx = Inr (ctx\<lparr>msg_blk_index := of_nat n\<rparr>)"
proof -
  have "fold_res (sha1_step src) [0..<m] ctx = Inr (ctx\<lparr>msg_blk_index := of_nat m\<rparr>)" if "m \<le> n" for m
    using that
  proof (induction m)
    case 0
    then show ?case using assms(2) by simp
  next
    case (Suc m)
    let ?c = "ctx\<lparr>msg_blk_index := of_nat m\<rparr>"
    have v: "src ?c m = Inr (msg_blk ctx ! m)" using Suc.prems assms(4) [of ?c m] by simp
    have i: "unat (of_nat m :: u32) = m" "unat (of_nat (Suc m) :: u32) = Suc m"
      using Suc.prems assms(3) by (auto intro!: unat_small simp del: of_nat_Suc)
    have "of_nat (Suc m) \<noteq> (64 :: u32)" using i(2) Suc.prems assms(3) by (auto simp: word_unat_eq_iff simp del: of_nat_Suc)
    then show ?case using Suc v i assms(1,3)
      by (simp add: fold_res_append sha1_step_def sha1_put_def add.commute)
  qed
  then show ?thesis by simp
qed

lemma own_block_input:
  assumes "length (msg_blk ctx) = 64" "msg_blk_index ctx = 0" "n < 64"
  shows "sha1_input own_block n ctx = sha1_input (buffer (take n (msg_blk ctx))) n ctx"
proof -
  let ?c = "ctx\<lparr>sha_length := sha_length ctx + of_nat (n * 8)\<rparr>"
  have "fold_res (sha1_step own_block) [0..<n] ?c = Inr (?c\<lparr>msg_blk_index := of_nat n\<rparr>)"
    by (rule own_block_steps) (use assms in \<open>auto simp: own_block_def\<close>)
  moreover have "fold_res (sha1_step (buffer (take n (msg_blk ctx)))) [0..<n] ?c = Inr (?c\<lparr>msg_blk_index := of_nat n\<rparr>)"
    by (rule own_block_steps) (use assms in \<open>auto simp: buffer_def\<close>)
  ultimately show ?thesis using assms(3) by (simp add: sha1_input_def int_loop_fold)
qed

lemma length_blocks: "(\<forall>b \<in> set bs. length b = 64) \<Longrightarrow> length (concat bs) = 64 * length bs"
  by (induction bs) simp_all

lemma be32_bytes_length [simp]: "length (be32_bytes w) = 4"
  by (simp add: be32_bytes_def)

lemma loaded_last:
  assumes "loaded iv bs r ctx" "length r = 56"
  shows "intermediate (sha1_process (ctx\<lparr>msg_blk := take 56 (msg_blk ctx) @ replicate 4 0 @ be32_bytes w\<rparr>)) =
    fold sha1_compress (chunks (concat bs @ r @ replicate 4 0 @ be32_bytes w)) iv"
proof -
  have "chunks (r @ replicate 4 0 @ be32_bytes w) = [r @ replicate 4 0 @ be32_bytes w]"
    using chunks_block [of "r @ replicate 4 0 @ be32_bytes w" "[]"] assms(2) by simp
  then show ?thesis using assms by (simp add: loaded_def sha1_process_def chunks_concat)
qed

lemma loaded_pad:
  assumes "loaded iv bs r ctx" "length r < 64" "sha_length ctx = of_nat ((n0 + length (concat bs @ r)) * 8)"
  shows "\<exists>ctx'. sha1_pad ctx = Inr ctx' \<and> length (msg_blk ctx') = 64 \<and>
    intermediate ctx' = fold sha1_compress (chunks (concat bs @ r @ sha1_padding n0 (length (concat bs @ r)))) iv"
proof -
  obtain c where c: "sha1_put 0x80 ctx = Inr c" "loaded iv bs (r @ [0x80]) c" "sha_length c = sha_length ctx"
    using loaded_put [OF assms(1,2)] by blast
  have m: "length (concat bs @ r) mod 64 = length r" using assms(1,2) by (simp add: loaded_def length_blocks)
  have idx: "msg_blk_index c > 56 \<longleftrightarrow> length r \<ge> 56"
    using c(2) unat_small [of "length (r @ [0x80])"] by (auto simp: loaded_def word_less_nat_alt)
  have fin: "length (take 56 (msg_blk d) @ replicate 4 0 @ be32_bytes w) = 64" if "loaded iv bs' r' d" for bs' r' d w
    using that by (simp add: loaded_def)
  show ?thesis
  proof (cases "length r \<ge> 56")
    case False
    then obtain d where d: "sha1_zeros 56 c = Inr d" "loaded iv bs ((r @ [0x80]) @ replicate (56 - length (r @ [0x80])) 0) d"
        "sha_length d = sha_length c"
      using loaded_zeros [OF c(2), of 56] by auto
    have "(119 - length r) mod 64 = 55 - length r" using False by (simp add: mod_if)
    then have "r @ sha1_padding n0 (length (concat bs @ r)) =
        ((r @ [0x80]) @ replicate (56 - length (r @ [0x80])) 0) @ replicate 4 0 @ be32_bytes (sha_length d)"
      unfolding sha1_padding_def m using assms(3) c(3) d(3) by simp
    then show ?thesis
      using loaded_last [OF d(2), of "sha_length d"] False idx c(1) d(1) fin [OF d(2)]
      by (auto simp: sha1_pad_def sha1_process_def)
  next
    case True
    obtain d where d: "sha1_zeros 64 c = Inr d" "loaded iv bs ((r @ [0x80]) @ replicate (64 - length (r @ [0x80])) 0) d"
        "sha_length d = sha_length c"
      using loaded_zeros [OF c(2), of 64] assms(2) by auto
    let ?b = "(r @ [0x80]) @ replicate (64 - length (r @ [0x80])) 0"
    have "length ?b = 64" using assms(2) by simp
    from loaded_process [OF d(2) this] have p: "loaded iv (bs @ [?b]) [] (sha1_process d)" .
    then obtain e where e: "sha1_zeros 56 (sha1_process d) = Inr e" "loaded iv (bs @ [?b]) (replicate 56 0) e"
        "sha_length e = sha_length d"
      using loaded_zeros [OF p, of 56] by (auto simp: sha1_process_def)
    have "(119 - length r) mod 64 = 119 - length r" "119 - length r = (63 - length r) + 56" using True assms(2) by simp_all
    then have "replicate ((119 - length r) mod 64) 0 = replicate (63 - length r) (0 :: u8) @ replicate 56 0"
      by (simp only: replicate_add)
    then have "r @ sha1_padding n0 (length (concat bs @ r)) = ?b @ replicate 56 0 @ replicate 4 0 @ be32_bytes (sha_length e)"
      unfolding sha1_padding_def m using assms(3) c(3) d(3) e(3) by simp
    then show ?thesis
      using loaded_last [OF e(2), of "sha_length e"] True idx c(1) d(1) e(1) fin [OF e(2)]
      by (auto simp: sha1_pad_def sha1_process_def)
  qed
qed

text \<open>Absorbing a message and taking the result, from any chaining value and any count of bytes before it.\<close>

lemma sha1_message:
  assumes "intermediate ctx = iv" "length (msg_blk ctx) = 64" "msg_blk_index ctx = 0" "\<not> computed ctx"
    and "sha_length ctx = of_nat (n0 * 8)" "length xs < 2 ^ 31"
  shows "\<exists>ctx'. bind_res (sha1_input (buffer xs) (length xs) ctx) sha1_result = Inr (sha1_spec n0 iv xs, ctx') \<and>
    length (msg_blk ctx') = 64"
proof -
  have "loaded iv [] [] ctx" using assms by (simp add: loaded_def)
  from loaded_input [OF this assms(6)] obtain bs r c where c: "sha1_input (buffer xs) (length xs) ctx = Inr c" "loaded iv bs r c"
      "length r < 64" "concat bs @ r = xs" "sha_length c = sha_length ctx + of_nat (length xs * 8)" "\<not> computed c"
    using assms(4) by auto
  have "sha_length c = of_nat ((n0 + length (concat bs @ r)) * 8)" using c(4,5) assms(5) by (simp add: distrib_right)
  from loaded_pad [OF c(2,3) this] obtain d where "sha1_pad c = Inr d" "length (msg_blk d) = 64"
      "intermediate d = fold sha1_compress (chunks (concat bs @ r @ sha1_padding n0 (length (concat bs @ r)))) iv" by blast
  moreover have "concat bs @ r @ ys = xs @ ys" for ys using c(4) by simp
  ultimately show ?thesis using c by (simp add: sha1_result_def sha1_spec_def)
qed


subsection \<open>The standard\<close>

text \<open>FIPS 180: rotations, the functions and constants of the rounds, the message schedule and the padding.\<close>

fun fips_W :: "u8 list \<Rightarrow> nat \<Rightarrow> u32" where
  "fips_W m t = (if t < 16 then be32_at m (4 * t)
     else word_rotl 1 (fips_W m (t - 3) XOR fips_W m (t - 8) XOR fips_W m (t - 14) XOR fips_W m (t - 16)))"

declare fips_W.simps [simp del]

definition fips_f :: "nat \<Rightarrow> u32 \<Rightarrow> u32 \<Rightarrow> u32 \<Rightarrow> u32" where
  "fips_f t x y z =
    (if t < 20 then (x AND y) XOR (NOT x AND z)
     else if 40 \<le> t \<and> t < 60 then (x AND y) XOR (x AND z) XOR (y AND z)
     else x XOR y XOR z)"

definition fips_K :: "nat \<Rightarrow> u32" where
  "fips_K t = (if t < 20 then 0x5A827999 else if t < 40 then 0x6ED9EBA1 else if t < 60 then 0x8F1BBCDC else 0xCA62C1D6)"

definition fips_round :: "u8 list \<Rightarrow> nat \<Rightarrow> u32 \<times> u32 \<times> u32 \<times> u32 \<times> u32 \<Rightarrow> u32 \<times> u32 \<times> u32 \<times> u32 \<times> u32" where
  "fips_round m t = (\<lambda>(a, b, c, d, e). (word_rotl 5 a + fips_f t b c d + e + fips_K t + fips_W m t, a, word_rotl 30 b, c, d))"

definition fips_block :: "u8 list \<Rightarrow> u32 list \<Rightarrow> u32 list" where
  "fips_block m h =
    (let (a, b, c, d, e) = fold (fips_round m) [0..<80] (h ! 0, h ! 1, h ! 2, h ! 3, h ! 4)
     in [h ! 0 + a, h ! 1 + b, h ! 2 + c, h ! 3 + d, h ! 4 + e])"

definition fips_pad :: "u8 list \<Rightarrow> u8 list" where
  "fips_pad xs = xs @ [0x80] @ replicate ((119 - length xs mod 64) mod 64) 0 @
     map (\<lambda>i. of_nat (length xs * 8 div 256 ^ (7 - i))) [0..<8]"

definition fips_digest :: "u32 list \<Rightarrow> u8 list" where
  "fips_digest h = concat (map (\<lambda>w. map (\<lambda>k. of_nat (unat w div 256 ^ k)) [3, 2, 1, 0]) h)"

definition fips_sha1 :: "u8 list \<Rightarrow> u8 list" where
  "fips_sha1 xs = fips_digest (fold fips_block (chunks (fips_pad xs)) [0x67452301, 0xEFCDAB89, 0x98BADCFE, 0x10325476, 0xC3D2E1F0])"

lemma sha1_rotate_rotl: "0 < n \<Longrightarrow> n < 32 \<Longrightarrow> sha1_rotate n w = word_rotl n w"
proof (rule bit_word_eqI)
  fix k
  assume n: "0 < n" "n < 32" and "k < LENGTH(32)"
  then have k: "k < 32" by simp
  show "bit (sha1_rotate n w) k = bit (word_rotl n w) k"
  proof (cases "k < n")
    case True
    have "(k + (32 - n)) mod 32 = 32 - n + k" using True n by simp
    then show ?thesis using True n k by (simp add: sha1_rotate_def bit_simps bit_word_rotl_iff)
  next
    case False
    then have "(k + (32 - n)) mod 32 = k - n" using n k by (simp add: mod_if)
    moreover have "\<not> bit w (32 - n + k)" using False n by (auto dest: bit_imp_le_length)
    ultimately show ?thesis using False n k by (simp add: sha1_rotate_def bit_simps bit_word_rotl_iff)
  qed
qed

lemma sha1_schedule_W: "sha1_schedule m = map (fips_W m) [0..<80]"
proof -
  have "fold (\<lambda>i w. w @ [sha1_rotate 1 (w ! (i - 3) XOR w ! (i - 8) XOR w ! (i - 14) XOR w ! (i - 16))]) [16..<n]
      (map (\<lambda>i. be32_at m (4 * i)) [0..<16]) = map (fips_W m) [0..<n]" if "16 \<le> n" for n
    using that
  proof (induction n rule: dec_induct)
    case base
    show ?case by (simp add: fips_W.simps)
  next
    case (step n)
    then show ?case by (simp add: fips_W.simps [of m n] sha1_rotate_rotl)
  qed
  from this [of 80] show ?thesis unfolding sha1_schedule_def by (simp only: numeral_le_iff semiring_norm simp_thms)
qed

lemma sha1_mix_f: "t < 80 \<Longrightarrow> sha1_mix t x y z = fips_f t x y z + fips_K t"
proof -
  have ch: "(x AND y) OR (NOT x AND z) = (x AND y) XOR (NOT x AND z)"
    and maj: "(x AND y) OR (x AND z) OR (y AND z) = (x AND y) XOR (x AND z) XOR (y AND z)"
    by (rule bit_word_eqI, auto simp: bit_simps)+
  assume "t < 80"
  then consider "t < 20" "t div 20 = 0" | "20 \<le> t" "t < 40" "t div 20 = 1" | "40 \<le> t" "t < 60" "t div 20 = 2"
    | "60 \<le> t" "t div 20 = 3"
    by linarith
  then show ?thesis by cases (simp_all add: sha1_mix_def fips_f_def fips_K_def ch maj)
qed

lemma sha1_compress_fips: "sha1_compress m h = fips_block m h"
proof -
  have "fold (sha1_round (sha1_schedule m)) [0..<80] s = fold (fips_round m) [0..<80] s" for s
  proof (rule fold_cong [OF refl refl])
    fix t
    assume "t \<in> set [0..<80]"
    then show "sha1_round (sha1_schedule m) t = fips_round m t"
      by (auto simp: sha1_round_def fips_round_def sha1_schedule_W sha1_rotate_rotl sha1_mix_f)
  qed
  then show ?thesis by (simp add: sha1_compress_def fips_block_def)
qed

lemma byte_of_nat:
  assumes "n < 2 ^ 32"
  shows "byte_of (of_nat n) k = of_nat (n div 256 ^ k)"
proof -
  have "unat (of_nat n :: u32) = n" using assms by (simp add: unat_of_nat)
  then have "unat (drop_bit (8 * k) (of_nat n :: u32)) = n div 256 ^ k" by (simp add: unat_drop_bit_div power_mult)
  then have "(ucast (drop_bit (8 * k) (of_nat n :: u32)) :: u8) = of_nat (n div 256 ^ k)"
    by (metis of_nat_unat)
  then show ?thesis unfolding byte_of_def .
qed

lemma fips_pad_eq:
  assumes "length xs * 8 < 2 ^ 32"
  shows "xs @ sha1_padding 0 (length xs) = fips_pad xs"
proof -
  define n where "n = length xs * 8"
  have n: "n < 2 ^ 32" using assms by (simp add: n_def)
  have z: "n div 256 ^ 7 = 0" "n div 256 ^ 6 = 0" "n div 256 ^ 5 = 0" "n div 256 ^ 4 = 0" using n by simp_all
  have l: "[0..<8] = [0, 1, 2, 3, 4, 5, 6, 7]" "replicate 4 (0 :: u8) = [0, 0, 0, 0]"
    by (simp_all add: upt_rec numeral_eq_Suc)
  have "replicate 4 0 @ be32_bytes (of_nat n) = map (\<lambda>i. of_nat (n div 256 ^ (7 - i))) [0..<8]"
    unfolding l be32_bytes_def byte_of_nat [OF n] list.map append.simps diff_zero
    using z by simp
  then show ?thesis by (simp add: sha1_padding_def fips_pad_def n_def)
qed

lemma sha1_digest_fips:
  assumes "length h = 5"
  shows "sha1_digest h = fips_digest h"
proof -
  obtain a b c d e where h: "h = [a, b, c, d, e]" using assms by (auto simp: length_Suc_conv eval_nat_numeral)
  have u: "[0..<20] = [0, 1, 2, 3, 4, 5, 6, 7, 8, 9, 10, 11, 12, 13, 14, 15, 16, 17, 18, 19 :: nat]" by code_simp
  have b: "(ucast (drop_bit (8 * k) w) :: u8) = of_nat (unat w div 256 ^ k)" for w :: u32 and k
    using byte_of_nat [of "unat w" k] unsigned_less [of w] by (simp add: byte_of_def)
  show ?thesis unfolding sha1_digest_def u fips_digest_def h b by simp
qed

lemma fold_fips_block_length: "length h = 5 \<Longrightarrow> length (fold fips_block bs h) = 5"
  by (induction bs arbitrary: h) (simp_all add: fips_block_def split_def Let_def)

text \<open>C13: Hashing a message of fewer than 2^29 bytes with the streaming interface gives its SHA-1 digest by the
  standard, whatever the context held before.\<close>

theorem sha1_streaming_correct:
  assumes "length xs < 2 ^ 29" "length (msg_blk ctx) = 64"
  shows "\<exists>ctx'. bind_res (sha1_input (buffer xs) (length xs) (sha1_reset ctx)) sha1_result = Inr (fips_sha1 xs, ctx')"
proof -
  have "length xs * 8 < 2 ^ 32" "length xs < 2 ^ 31" using assms(1) by simp_all
  moreover have "sha1_compress = fips_block" by (intro ext) (rule sha1_compress_fips)
  ultimately show ?thesis
    using sha1_message [of "sha1_reset ctx" _ 0 xs, OF refl] assms(2)
    by (auto simp: sha1_spec_def fips_pad_eq fips_sha1_def sha1_reset_def sha1_fill_def sha1_digest_fips fold_fips_block_length)
qed

theorem sha1_streaming_correct_witness:
  "\<exists>ctx'. bind_res (sha1_input (buffer [0x61, 0x62, 0x63]) 3
      (sha1_reset \<lparr>intermediate = [], msg_blk = replicate 64 7, msg_blk_index = 5, sha_length = 1, computed = True\<rparr>)) sha1_result =
    Inr (fips_sha1 [0x61, 0x62, 0x63], ctx')"
  using sha1_streaming_correct [of "[0x61, 0x62, 0x63]"
    "\<lparr>intermediate = [], msg_blk = replicate 64 7, msg_blk_index = 5, sha_length = 1, computed = True\<rparr>"]
  by (simp add: numeral_3_eq_3)

section \<open>RC4\<close>

text \<open>The indices and the permutation after \<open>n\<close> bytes, and the byte of the key stream then.\<close>

primrec rc4_after :: "nat \<Rightarrow> u8 list \<Rightarrow> nat \<times> nat \<times> u8 list" where
  "rc4_after 0 s = (0, 0, s)"
| "rc4_after (Suc n) s = (case rc4_after n s of (i, j, s) \<Rightarrow>
    let i = (i + 1) mod 256; j = (j + unat (s ! i)) mod 256 in (i, j, rc4_swap i j s))"

definition rc4_key :: "u8 list \<Rightarrow> nat \<Rightarrow> u8" where
  "rc4_key s k = (case rc4_after (Suc k) s of (i, j, s) \<Rightarrow> s ! ((unat (s ! i) + unat (s ! j)) mod 256))"

lemma rc4_steps:
  "n \<le> length data \<Longrightarrow> fold rc4_step [0..<n] (0, 0, s, data) =
    (case rc4_after n s of (i, j, s') \<Rightarrow> (i, j, s', map (\<lambda>k. if k < n then data ! k XOR rc4_key s k else data ! k) [0..<length data]))"
proof (induction n)
  case 0
  then show ?case by (simp add: map_nth)
next
  case (Suc n)
  obtain i j s' where a: "rc4_after n s = (i, j, s')" by (cases "rc4_after n s") auto
  show ?case
    using Suc a by (auto simp: rc4_step_def rc4_key_def Let_def intro!: nth_equalityI simp: nth_list_update less_Suc_eq)
qed

lemma rc4_crypt_stream:
  assumes "length data < 2 ^ 31"
  shows "rc4_crypt s data =
    Inr (snd (snd (rc4_after (length data) s)), map (\<lambda>k. data ! k XOR rc4_key s k) [0..<length data])"
proof -
  have "fold rc4_step [0..<length data] (0, 0, s, data) =
      (case rc4_after (length data) s of (i, j, s') \<Rightarrow> (i, j, s', map (\<lambda>k. data ! k XOR rc4_key s k) [0..<length data]))"
    by (simp add: rc4_steps split: prod.split)
  then show ?thesis by (simp add: rc4_crypt_def int_loop_fold [OF assms] fold_res_pure split: prod.split)
qed

lemma rc4_involution: "length data < 2 ^ 31 \<Longrightarrow> rc4_crypt s data = Inr (s', c) \<Longrightarrow> rc4_crypt s c = Inr (s', data)"
  by (auto simp: rc4_crypt_stream intro!: nth_equalityI simp: xor.assoc)

lemma rc4_crypt_length: "length data < 2 ^ 31 \<Longrightarrow> rc4_crypt s data = Inr (s', c) \<Longrightarrow> length c = length data"
  by (auto simp: rc4_crypt_stream)

lemma rc4_swap_mset: "i < length s \<Longrightarrow> j < length s \<Longrightarrow> mset (rc4_swap i j s) = mset s"
  unfolding rc4_swap_def Let_def using mset_swap [of j s i] by (cases "i = j") (simp_all add: list_update_swap)

lemma rc4_after_perm: "length s = 256 \<Longrightarrow> rc4_after n s = (i, j, s') \<Longrightarrow> mset s' = mset s"
proof (induction n arbitrary: i j s')
  case (Suc n)
  obtain i0 j0 s0 where a: "rc4_after n s = (i0, j0, s0)" by (cases "rc4_after n s") auto
  then have "mset s0 = mset s" using Suc by blast
  moreover from this have "length s0 = 256" using Suc.prems(1) by (metis size_mset)
  ultimately show ?case using Suc.prems(2) a by (auto simp: Let_def rc4_swap_mset)
qed simp

text \<open>C14: Encrypting and decrypting with the same key gives back the message, and the state stays a permutation
  of the 256 bytes, so that no index leaves it.\<close>

theorem rc4_round_trip:
  assumes "key \<noteq> []" "length data < 2 ^ 31"
  shows "\<exists>s s' c. rc4_init key = Inr s \<and> rc4_crypt s data = Inr (s', c) \<and> rc4_crypt s c = Inr (s', data) \<and>
    mset s = mset (map of_nat [0..<256]) \<and> mset s' = mset s"
proof -
  let ?f = "\<lambda>i (j, s). let j = (j + unat (s ! i) + unat (key ! (i mod length key))) mod 256 in (j, rc4_swap i j s)"
  have "mset (snd (fold ?f [0..<n] (0, s))) = mset s" if "n \<le> 256" "length s = 256" for n s
    using that
  proof (induction n)
    case (Suc n)
    obtain j t where "fold ?f [0..<n] (0, s) = (j, t)" by (cases "fold ?f [0..<n] (0, s)")
    moreover from this have "mset t = mset s" "length t = 256" using Suc by (auto dest: mset_eq_length)
    ultimately show ?case using Suc.prems by (auto simp: Let_def rc4_swap_mset)
  qed simp
  from this [of 256 "map of_nat [0..<256]"] obtain s where s: "rc4_init key = Inr s" "mset s = mset (map of_nat [0..<256])"
    using assms(1) by (auto simp: rc4_init_def)
  then have "length s = 256" by (metis size_mset length_map length_upt diff_zero)
  moreover obtain i j s' where a: "rc4_after (length data) s = (i, j, s')" by (cases "rc4_after (length data) s") auto
  ultimately have "mset s' = mset s" using rc4_after_perm by blast
  then show ?thesis using s rc4_involution [OF assms(2), of s s'] rc4_crypt_stream [OF assms(2), of s] a by auto
qed


theorem rc4_round_trip_witness:
  "\<exists>s s' c. rc4_init [0x4B, 0x65, 0x79] = Inr s \<and> rc4_crypt s [1, 2, 3] = Inr (s', c) \<and> rc4_crypt s c = Inr (s', [1, 2, 3]) \<and>
    mset s = mset (map of_nat [0..<256]) \<and> mset s' = mset s"
  by (rule rc4_round_trip) simp_all

section \<open>The EEPROM\<close>

subsection \<open>Checksum\<close>

definition le32_words :: "u8 list \<Rightarrow> u32 list" where
  "le32_words data = map (\<lambda>i. le32 (data ! (4 * i)) (data ! (4 * i + 1)) (data ! (4 * i + 2)) (data ! (4 * i + 3)))
     [0..<length data div 4]"

lemma of_nat_mod32: "(of_nat (n mod 2 ^ 32) :: u32) = of_nat n"
  by (rule word_unat_eq_iff [THEN iffD2]) (simp only: unat_of_nat, simp)

lemma crc_split:
  fixes high low val :: u32
  assumes "T = unat high * 2 ^ 32 + unat low + unat val"
  shows "ucast (drop_bit 32 ((push_bit 32 (ucast high :: u64) OR ucast low) + ucast val)) = (of_nat (T div 2 ^ 32) :: u32)"
    and "low + val = of_nat T"
proof -
  have disj: "push_bit 32 (ucast high :: u64) AND ucast low = 0"
    by (rule bit_word_eqI) (auto simp: bit_simps dest: bit_imp_le_length)
  have "push_bit 32 (ucast high :: u64) OR ucast low = push_bit 32 (ucast high) + ucast low"
    using disj by (simp add: disjunctive_add_eq_or)
  also have "\<dots> = of_nat (unat high * 2 ^ 32 + unat low)"
    by (simp add: push_bit_eq_mult)
  finally have "(push_bit 32 (ucast high :: u64) OR ucast low) + ucast val = of_nat T"
    using assms by simp
  moreover have "unat (of_nat T :: u64) div 2 ^ 32 = T div 2 ^ 32 mod 2 ^ 32"
    using mod_mult2_eq [of T "2 ^ 32" "2 ^ 32"] by (simp add: unat_of_nat)
  ultimately have "unat (drop_bit 32 ((push_bit 32 (ucast high :: u64) OR ucast low) + ucast val)) = T div 2 ^ 32 mod 2 ^ 32"
    by (simp only: unat_drop_bit_div)
  then show "ucast (drop_bit 32 ((push_bit 32 (ucast high :: u64) OR ucast low) + ucast val)) = (of_nat (T div 2 ^ 32) :: u32)"
    by (metis of_nat_unat of_nat_mod32)
  have "(of_nat (unat high * 2 ^ 32) :: u32) = 0"
    by (rule word_of_nat_eq_0_iff [THEN iffD2]) (simp only: len_num1 len_bit0 dvd_triv_right len_of_numeral_defs, simp)
  then show "low + val = of_nat T" unfolding assms of_nat_add by (simp only: add_0_left of_nat_unat ucast_id)
qed

lemma sum_words_bound: "sum_list (map unat (xs :: u32 list)) \<le> length xs * (2 ^ 32 - 1)"
proof (induction xs)
  case (Cons x xs)
  then show ?case using unsigned_less [where ?'a = nat, of x] by simp
qed simp

lemma crc_fold:
  assumes "n \<le> length data div 4" "length data < 2 ^ 31"
  shows "fold (crc_step data) [0..<n] (0, 0) =
    (let S = sum_list (map unat (take n (le32_words data))) in (of_nat (S div 2 ^ 32), of_nat (S mod 2 ^ 32)))"
  using assms(1)
proof (induction n)
  case (Suc n)
  define S where "S = sum_list (map unat (take n (le32_words data)))"
  let ?v = "le32_words data ! n"
  have len: "length (le32_words data) = length data div 4" by (simp add: le32_words_def)
  have "S \<le> n * (2 ^ 32 - 1)" unfolding S_def using sum_words_bound [of "take n (le32_words data)"] Suc.prems len by simp
  then have "S div 2 ^ 32 < 2 ^ 32" using Suc.prems assms(2) by simp
  then have T: "S + unat ?v = unat (of_nat (S div 2 ^ 32) :: u32) * 2 ^ 32 + unat (of_nat (S mod 2 ^ 32) :: u32) + unat ?v"
    by (simp add: unat_of_nat)
  have "sum_list (map unat (take (Suc n) (le32_words data))) = S + unat ?v"
    using Suc.prems len by (simp add: take_Suc_conv_app_nth S_def)
  moreover have "le32 (data ! (4 * n)) (data ! (4 * n + 1)) (data ! (4 * n + 2)) (data ! (4 * n + 3)) = ?v"
    using Suc.prems by (simp add: le32_words_def)
  ultimately show ?case using Suc crc_split [OF T]
    by (simp add: crc_step_def Let_def of_nat_mod32 [simplified] flip: S_def)
qed simp

text \<open>C16: The checksum is the complement of the sum of the words with the carries out of 32 bits added in.\<close>

theorem xbox_eeprom_crc_spec:
  assumes "length data < 2 ^ 31"
  shows "xbox_eeprom_crc data =
    (let S = sum_list (map unat (le32_words data)) in Inr (NOT (of_nat (S div 2 ^ 32 + S mod 2 ^ 32))))"
proof -
  have "length data div 4 < 2 ^ 31" using assms by simp
  then show ?thesis using crc_fold [OF order_refl assms]
    by (simp add: xbox_eeprom_crc_def int_loop_fold fold_res_pure Let_def le32_words_def)
qed

theorem xbox_eeprom_crc_spec_witness:
  "xbox_eeprom_crc [1, 0, 0, 0x80, 3, 0, 0, 0xC0] = Inr (NOT (1 + 0x40000004))"
  using xbox_eeprom_crc_spec [of "[1, 0, 0, 0x80, 3, 0, 0, 0xC0]"]
  by (simp add: Let_def le32_words_def le32_def upt_rec)

subsection \<open>The double hash\<close>

text \<open>The chaining values stand for a secret first block, so 64 bytes count before the message.\<close>

definition xbox_iv :: "eeprom_version \<Rightarrow> bool \<Rightarrow> u32 list" where
  "xbox_iv ver first = intermediate (xbox_sha1_reset ver first
     \<lparr>intermediate = [], msg_blk = [], msg_blk_index = 0, sha_length = 0, computed = False\<rparr>)"

definition xbox_hash :: "eeprom_version \<Rightarrow> u8 list \<Rightarrow> u8 list" where
  "xbox_hash ver xs = sha1_spec 64 (xbox_iv ver False) (sha1_spec 64 (xbox_iv ver True) xs)"

lemma xbox_sha1_reset_fields [simp]:
  "intermediate (xbox_sha1_reset ver first ctx) = xbox_iv ver first" "msg_blk (xbox_sha1_reset ver first ctx) = msg_blk ctx"
  "msg_blk_index (xbox_sha1_reset ver first ctx) = 0" "sha_length (xbox_sha1_reset ver first ctx) = 512"
  "computed (xbox_sha1_reset ver first ctx) = False"
  by (simp_all add: xbox_sha1_reset_def xbox_iv_def sha1_fill_def Let_def split: eeprom_version.split)

lemma sha1_spec_length [simp]: "length (sha1_spec n iv xs) = 20"
  by (simp add: sha1_spec_def sha1_digest_def)

lemma xbox_sha1_message:
  assumes "length (msg_blk ctx) = 64" "length xs < 2 ^ 31"
  shows "\<exists>ctx'. bind_res (sha1_input (buffer xs) (length xs) (xbox_sha1_reset ver first ctx)) sha1_result =
    Inr (sha1_spec 64 (xbox_iv ver first) xs, ctx') \<and> length (msg_blk ctx') = 64"
  using sha1_message [of "xbox_sha1_reset ver first ctx" "xbox_iv ver first" 64 xs] assms by simp

lemma xbox_sha1_compute_eq:
  assumes "length (msg_blk ctx) = 64" "length xs < 2 ^ 31"
  shows "\<exists>ctx'. xbox_sha1_compute ver xs ctx = Inr (xbox_hash ver xs, ctx') \<and> length (msg_blk ctx') = 64"
proof -
  obtain c where c: "bind_res (sha1_input (buffer xs) (length xs) (xbox_sha1_reset ver True ctx)) sha1_result =
      Inr (sha1_spec 64 (xbox_iv ver True) xs, c)" "length (msg_blk c) = 64"
    using xbox_sha1_message [OF assms] by blast
  let ?h = "sha1_spec 64 (xbox_iv ver True) xs"
  let ?c = "c\<lparr>msg_blk := put_bytes 0 ?h (msg_blk c)\<rparr>"
  have b: "length (msg_blk ?c) = 64" "take 20 (msg_blk ?c) = ?h" using c(2) by (simp_all add: put_bytes_def)
  obtain d where d: "bind_res (sha1_input (buffer ?h) 20 (xbox_sha1_reset ver False ?c)) sha1_result =
      Inr (xbox_hash ver xs, d)" "length (msg_blk d) = 64"
    using xbox_sha1_message [OF b(1), of ?h ver False] by (auto simp: xbox_hash_def)
  have "sha1_input own_block 20 (xbox_sha1_reset ver False ?c) = sha1_input (buffer ?h) 20 (xbox_sha1_reset ver False ?c)"
    using own_block_input [of "xbox_sha1_reset ver False ?c" 20] b by simp
  then show ?thesis using c(1) d
    by (auto simp: xbox_sha1_compute_def simp flip: bind_res_assoc)
qed

text \<open>C15: The hash of the security section, whose second pass reads the digest of the first from the buffer it
  overwrites, is the second hash of the first digest.\<close>

theorem xbox_sha1_compute_spec:
  assumes "length (msg_blk ctx) = 64" "length xs < 2 ^ 31"
  shows "\<exists>ctx'. xbox_sha1_compute ver xs ctx =
    Inr (sha1_spec 64 (xbox_iv ver False) (sha1_spec 64 (xbox_iv ver True) xs), ctx')"
  using xbox_sha1_compute_eq [OF assms, of ver] by (auto simp: xbox_hash_def)

theorem xbox_sha1_compute_spec_witness:
  "\<exists>ctx'. xbox_sha1_compute XBOX_EEPROM_VERSION_R1 [1, 2, 3]
      \<lparr>intermediate = [], msg_blk = replicate 64 9, msg_blk_index = 5, sha_length = 1, computed = True\<rparr> =
    Inr (sha1_spec 64 (xbox_iv XBOX_EEPROM_VERSION_R1 False) (sha1_spec 64 (xbox_iv XBOX_EEPROM_VERSION_R1 True) [1, 2, 3]), ctx')"
  by (rule xbox_sha1_compute_spec) simp_all

subsection \<open>Images\<close>

lemma put_bytes_length [simp]: "off + length bs \<le> length e \<Longrightarrow> length (put_bytes off bs e) = length e"
  by (simp add: put_bytes_def)

lemma get_put_same [simp]: "off + length bs \<le> length e \<Longrightarrow> get_bytes off (length bs) (put_bytes off bs e) = bs"
  by (simp add: get_bytes_def put_bytes_def)

lemma get_put_below: "off' + n \<le> off \<Longrightarrow> off \<le> length e \<Longrightarrow> get_bytes off' n (put_bytes off bs e) = get_bytes off' n e"
  by (rule nth_equalityI) (auto simp: get_bytes_def put_bytes_def nth_append)

lemma get_put_above:
  "off + length bs \<le> off' \<Longrightarrow> off + length bs \<le> length e \<Longrightarrow> get_bytes off' n (put_bytes off bs e) = get_bytes off' n e"
  by (simp add: get_bytes_def put_bytes_def)

lemma get_bytes_split: "get_bytes off (m + n) e = get_bytes off m e @ get_bytes (off + m) n e"
  by (simp add: get_bytes_def take_add add.commute)

lemma get_bytes_length: "off + n \<le> length e \<Longrightarrow> length (get_bytes off n e) = n"
  by (simp add: get_bytes_def)

lemma le32_list_length [simp]: "length (le32_list w) = 4"
  by (simp add: le32_list_def)

lemma user_section_length [simp]: "length user_section_default = 44"
  by (simp add: user_section_default_def)

text \<open>
  What the kernel checks of an image: the two checksums, and that the hash is that of the security section decrypted
  with the key the hash gives.
\<close>

definition eeprom_valid :: "eeprom_version \<Rightarrow> u8 list \<Rightarrow> u8 list \<Rightarrow> bool" where
  "eeprom_valid ver plain e \<longleftrightarrow> length e = 256 \<and>
     (\<exists>c. xbox_eeprom_crc (get_bytes 52 44 e) = Inr c \<and> get_bytes 48 4 e = le32_list c) \<and>
     (\<exists>c. xbox_eeprom_crc (get_bytes 100 92 e) = Inr c \<and> get_bytes 96 4 e = le32_list c) \<and>
     get_bytes 0 20 e = xbox_hash ver plain \<and>
     (\<exists>s s'. rc4_init (xbox_hash ver (get_bytes 0 20 e)) = Inr s \<and> rc4_crypt s (get_bytes 20 28 e) = Inr (s', plain))"

lemma eeprom_fields_plain:
  assumes "length confounder = 8" "length hdd_key = 16" "length online_key = 16" "length mac = 3" "length serial = 12"
  defines "e \<equiv> eeprom_fields confounder hdd_key online_key mac serial"
  shows "length e = 256" "get_bytes 20 28 e = confounder @ hdd_key @ le32_list 1"
proof -
  have g: "length (get_bytes 52 12 x) = 12" if "length x = 256" for x using that by (simp add: get_bytes_length)
  show "length e = 256" using assms by (simp add: eeprom_fields_def Let_def g)
  have "get_bytes 20 8 e = confounder" "get_bytes 28 16 e = hdd_key" "get_bytes 44 4 e = le32_list 1"
    using assms get_put_same [of 20 confounder] get_put_same [of 28 hdd_key] get_put_same [of 44 "le32_list 1"]
    by (simp_all add: eeprom_fields_def Let_def g get_put_below get_put_above)
  then show "get_bytes 20 28 e = confounder @ hdd_key @ le32_list 1"
    using get_bytes_split [of 20 8 20 e] get_bytes_split [of 28 16 4 e] by simp
qed

lemma crc_total: "length data < 2 ^ 31 \<Longrightarrow> \<exists>c. xbox_eeprom_crc data = Inr c"
proof -
  assume "length data < 2 ^ 31"
  then have "length data div 4 < 2 ^ 31" by simp
  then show ?thesis by (simp add: xbox_eeprom_crc_def int_loop_fold fold_res_pure split: prod.split)
qed

lemma eeprom_checksums_ok:
  assumes "length e = 256"
  shows "\<exists>e' c d. eeprom_checksums e = Inr e' \<and> length e' = 256 \<and> get_bytes 20 28 e' = get_bytes 20 28 e \<and>
    xbox_eeprom_crc (get_bytes 52 44 e') = Inr c \<and> get_bytes 48 4 e' = le32_list c \<and>
    xbox_eeprom_crc (get_bytes 100 92 e') = Inr d \<and> get_bytes 96 4 e' = le32_list d"
proof -
  obtain c d where c: "xbox_eeprom_crc (get_bytes 52 44 e) = Inr c" and d: "xbox_eeprom_crc (get_bytes 100 92 e) = Inr d"
    using crc_total [of "get_bytes 52 44 e"] crc_total [of "get_bytes 100 92 e"] assms by (auto simp: get_bytes_def)
  show ?thesis
    using assms c d get_put_same [of 48 "le32_list c"] get_put_same [of 96 "le32_list d"]
    by (simp add: eeprom_checksums_def Let_def get_put_above get_put_below)
qed

lemma eeprom_encrypt_ok:
  assumes "length e = 256" "length (msg_blk sctx) = 64"
  defines "plain \<equiv> get_bytes 20 28 e"
  shows "\<exists>s s' bs. rc4_init (xbox_hash ver (xbox_hash ver plain)) = Inr s \<and> rc4_crypt s bs = Inr (s', plain) \<and> length bs = 28 \<and>
    eeprom_encrypt ver sctx e = Inr (put_bytes 20 bs (put_bytes 0 (xbox_hash ver plain) e))"
proof -
  have p: "length plain = 28" using assms(1) by (simp add: plain_def get_bytes_length)
  have h: "length (xbox_hash ver plain) = 20" for plain by (simp add: xbox_hash_def)
  obtain c where c: "xbox_sha1_compute ver plain sctx = Inr (xbox_hash ver plain, c)" "length (msg_blk c) = 64"
    using xbox_sha1_compute_eq [OF assms(2), of plain ver] p by auto
  obtain d where d: "xbox_sha1_compute ver (xbox_hash ver plain) c = Inr (xbox_hash ver (xbox_hash ver plain), d)"
    using xbox_sha1_compute_eq [OF c(2), of "xbox_hash ver plain" ver] h by auto
  obtain s where s: "rc4_init (xbox_hash ver (xbox_hash ver plain)) = Inr s"
    using h [of "xbox_hash ver plain"] by (simp add: rc4_init_def)
  obtain s' bs where r: "rc4_crypt s plain = Inr (s', bs)" using rc4_crypt_stream [of plain s] p by simp
  have "get_bytes 0 20 (put_bytes 0 (xbox_hash ver plain) e) = xbox_hash ver plain"
    "get_bytes 20 28 (put_bytes 0 (xbox_hash ver plain) e) = plain"
    using get_put_same [of 0 "xbox_hash ver plain" e] h assms(1) by (simp_all add: get_put_above plain_def)
  then have "eeprom_encrypt ver sctx e = Inr (put_bytes 20 bs (put_bytes 0 (xbox_hash ver plain) e))"
    using c d s r by (simp add: eeprom_encrypt_def Let_def flip: plain_def)
  then show ?thesis using s rc4_involution [OF _ r] rc4_crypt_length [OF _ r] p by auto
qed

text \<open>C12: Whatever the random bytes, generating an image and writing it to a file produces one the kernel accepts:
  both checksums match, and decrypting the security section with the key derived from the hash gives the confounder,
  the disk key and the region, whose hash it is.\<close>

theorem xbox_eeprom_generate_valid:
  assumes "length confounder = 8" "length hdd_key = 16" "length online_key = 16" "length mac = 3" "length serial = 12"
    and "length (msg_blk sctx) = 64"
  shows "\<exists>e. xbox_eeprom_generate ver sctx True True confounder hdd_key online_key mac serial = Inr (True, Some e) \<and>
    eeprom_valid ver (confounder @ hdd_key @ le32_list 1) e"
proof -
  let ?p = "confounder @ hdd_key @ le32_list 1"
  let ?f = "eeprom_fields confounder hdd_key online_key mac serial"
  note f = eeprom_fields_plain [OF assms(1-5)]
  obtain e1 c d where e1: "eeprom_checksums ?f = Inr e1" "length e1 = 256" "get_bytes 20 28 e1 = ?p"
      "xbox_eeprom_crc (get_bytes 52 44 e1) = Inr c" "get_bytes 48 4 e1 = le32_list c"
      "xbox_eeprom_crc (get_bytes 100 92 e1) = Inr d" "get_bytes 96 4 e1 = le32_list d"
    using eeprom_checksums_ok [OF f(1)] f(2) by auto
  obtain s s' bs where r: "rc4_init (xbox_hash ver (xbox_hash ver ?p)) = Inr s" "rc4_crypt s bs = Inr (s', ?p)" "length bs = 28"
      "eeprom_encrypt ver sctx e1 = Inr (put_bytes 20 bs (put_bytes 0 (xbox_hash ver ?p) e1))"
    using eeprom_encrypt_ok [OF e1(2) assms(6), of ver] e1(3) by auto
  have h: "length (xbox_hash ver ?p) = 20" by (simp add: xbox_hash_def)
  have "eeprom_valid ver ?p (put_bytes 20 bs (put_bytes 0 (xbox_hash ver ?p) e1))"
    using e1 r h get_put_same [of 0 "xbox_hash ver ?p" e1] get_put_same [of 20 bs "put_bytes 0 (xbox_hash ver ?p) e1"]
    by (simp add: eeprom_valid_def get_put_above get_put_below)
  then show ?thesis using e1(1) r(4) by (simp add: xbox_eeprom_generate_def)
qed

theorem xbox_eeprom_generate_valid_witness:
  "\<exists>e. xbox_eeprom_generate XBOX_EEPROM_VERSION_R1
      \<lparr>intermediate = [], msg_blk = replicate 64 9, msg_blk_index = 5, sha_length = 1, computed = True\<rparr> True True
      (replicate 8 1) (replicate 16 2) (replicate 16 3) (replicate 3 4) (replicate 12 5) = Inr (True, Some e) \<and>
    eeprom_valid XBOX_EEPROM_VERSION_R1 (replicate 8 1 @ replicate 16 2 @ le32_list 1) e"
  by (rule xbox_eeprom_generate_valid) simp_all

end
