(* ===== verification/LPC47M157.thy ===== *)
theory LPC47M157
  imports Xbox_Prelude
begin

unbundle bit_operations_syntax

text \<open>
  The Super I/O chip (\<open>hw/xbox/lpc47m157.c\<close>): its configuration ports and the two serial ports they place.  Of a
  \<open>SerialState\<close> the chip sets the line of the interrupt and the ports it answers to; \<open>ser_mapped\<close> holds them
  while the ports are registered, with interrupt 0 for none.  Accesses are one byte wide.
\<close>

abbreviation (input) MAX_DEVICE :: nat where "MAX_DEVICE \<equiv> 0xC"
abbreviation (input) MAX_CONFIG_REG :: nat where "MAX_CONFIG_REG \<equiv> 0x30"
abbreviation (input) MAX_DEVICE_REGS :: nat where "MAX_DEVICE_REGS \<equiv> 0xFF"
abbreviation (input) DEVICE_SERIAL_PORT_1 :: nat where "DEVICE_SERIAL_PORT_1 \<equiv> 4"
abbreviation (input) CONFIG_DEVICE_NUMBER :: nat where "CONFIG_DEVICE_NUMBER \<equiv> 7"
abbreviation (input) CONFIG_PORT_LOW :: nat where "CONFIG_PORT_LOW \<equiv> 0x26"
abbreviation (input) CONFIG_PORT_HIGH :: nat where "CONFIG_PORT_HIGH \<equiv> 0x27"
abbreviation (input) CONFIG_DEVICE_ACTIVATE :: nat where "CONFIG_DEVICE_ACTIVATE \<equiv> 0x30"
abbreviation (input) CONFIG_DEVICE_BASE_ADDRESS_HIGH :: nat where "CONFIG_DEVICE_BASE_ADDRESS_HIGH \<equiv> 0x60"
abbreviation (input) CONFIG_DEVICE_BASE_ADDRESS_LOW :: nat where "CONFIG_DEVICE_BASE_ADDRESS_LOW \<equiv> 0x61"
abbreviation (input) CONFIG_DEVICE_INTERRUPT :: nat where "CONFIG_DEVICE_INTERRUPT \<equiv> 0x70"
abbreviation (input) CONFIG_PORT :: u64 where "CONFIG_PORT \<equiv> 0"
abbreviation (input) INDEX_PORT :: u64 where "INDEX_PORT \<equiv> CONFIG_PORT"
abbreviation (input) DATA_PORT :: u64 where "DATA_PORT \<equiv> 1"
abbreviation (input) ENTER_CONFIG_KEY :: u64 where "ENTER_CONFIG_KEY \<equiv> 0x55"
abbreviation (input) EXIT_CONFIG_KEY :: u64 where "EXIT_CONFIG_KEY \<equiv> 0xAA"

record lpc_serial =
  ser_active :: bool
  ser_iobase :: u16
  ser_irq :: u8
  ser_mapped :: "(u16 \<times> u8) option"

record lpc47m157 =
  lpc_sysopt :: bool
  lpc_iobase :: u16
  configuration_mode :: bool
  selected_reg :: u32
  config_regs :: "u8 list"
  device_regs :: "u8 list list"
  lpc_serials :: "lpc_serial list"

definition dev_iobase :: "u8 list \<Rightarrow> u16" where
  "dev_iobase dev = push_bit 8 (ucast (dev ! CONFIG_DEVICE_BASE_ADDRESS_HIGH)) OR ucast (dev ! CONFIG_DEVICE_BASE_ADDRESS_LOW)"

definition dev_irq :: "u8 list \<Rightarrow> u8" where
  "dev_irq dev = dev ! CONFIG_DEVICE_INTERRUPT AND 0x0f"

definition update_serial :: "u8 list \<Rightarrow> lpc_serial \<Rightarrow> lpc_serial" where
  "update_serial dev serial =
    (let iobase = dev_iobase dev; irq = dev_irq dev;
         serial = (if ser_active serial \<and> (dev ! CONFIG_DEVICE_ACTIVATE = 0 \<or> ser_iobase serial \<noteq> iobase \<or> ser_irq serial \<noteq> irq)
                   then serial\<lparr>ser_mapped := None, ser_active := False\<rparr> else serial)
     in if \<not> ser_active serial \<and> dev ! CONFIG_DEVICE_ACTIVATE \<noteq> 0
        then serial\<lparr>ser_mapped := Some (iobase, irq), ser_iobase := iobase, ser_irq := irq, ser_active := True\<rparr>
        else serial)"

definition update_devices :: "lpc47m157 \<Rightarrow> lpc47m157" where
  "update_devices s = fold (\<lambda>i s. s\<lparr>lpc_serials :=
     (lpc_serials s)[i := update_serial (device_regs s ! (DEVICE_SERIAL_PORT_1 + i)) (lpc_serials s ! i)]\<rparr>) [0..<2] s"

text \<open>\<open>lpc_dev\<close> is the device register file the data port works on, which the code asserts to exist.\<close>

definition lpc_dev :: "lpc47m157 \<Rightarrow> (nat \<Rightarrow> 'a res) \<Rightarrow> 'a res" where
  "lpc_dev s k =
    (let n = unat (config_regs s ! CONFIG_DEVICE_NUMBER) in
     check (n < MAX_DEVICE) (AssertFail ''config_regs[CONFIG_DEVICE_NUMBER] < MAX_DEVICE'')
       (check (unat (selected_reg s) < MAX_DEVICE_REGS) OutOfBounds (k n)))"

definition lpc47m157_io_write :: "hwaddr \<Rightarrow> u64 \<Rightarrow> lpc47m157 \<Rightarrow> lpc47m157 res" where
  "lpc47m157_io_write addr val s =
    (if addr = CONFIG_PORT \<and> (val = ENTER_CONFIG_KEY \<or> val = EXIT_CONFIG_KEY)
     then (if val = ENTER_CONFIG_KEY then Inr (s\<lparr>configuration_mode := True\<rparr>)
           else let s = (if configuration_mode s then update_devices s else s) in Inr (s\<lparr>configuration_mode := False\<rparr>))
     else if configuration_mode s
     then (if addr = INDEX_PORT then Inr (s\<lparr>selected_reg := ucast val\<rparr>)
           else if addr = DATA_PORT
           then (if unat (selected_reg s) < MAX_CONFIG_REG
                 then Inr (s\<lparr>config_regs := (config_regs s)[unat (selected_reg s) := ucast val]\<rparr>)
                 else lpc_dev s (\<lambda>n. Inr (s\<lparr>device_regs :=
                   (device_regs s)[n := (device_regs s ! n)[unat (selected_reg s) := ucast val]]\<rparr>)))
           else Inl (AssertFail ''lpc47m157 IO write failed''))
     else Inr s)"

definition lpc47m157_io_read :: "hwaddr \<Rightarrow> lpc47m157 \<Rightarrow> u64 res" where
  "lpc47m157_io_read addr s =
    (if configuration_mode s
     then (if addr = DATA_PORT
           then (if unat (selected_reg s) < MAX_CONFIG_REG then Inr (ucast (config_regs s ! unat (selected_reg s)))
                 else lpc_dev s (\<lambda>n. Inr (ucast (device_regs s ! n ! unat (selected_reg s)))))
           else if addr \<noteq> INDEX_PORT then Inl (AssertFail ''lpc47m157 IO failed to read'')
           else Inr 0)
     else Inr 0)"

text \<open>The registers of a new object are zero; the character devices behind the ports are set elsewhere.\<close>

definition lpc47m157_realize :: "lpc47m157 \<Rightarrow> lpc47m157" where
  "lpc47m157_realize s =
    (let s = s\<lparr>lpc_iobase := (if lpc_sysopt s then 0x4e else 0x2e)\<rparr>
     in s\<lparr>config_regs := (config_regs s)[CONFIG_PORT_LOW := ucast (lpc_iobase s AND 0xff),
                                      CONFIG_PORT_HIGH := ucast (drop_bit 8 (lpc_iobase s))]\<rparr>)"

definition lpc47m157_post_load :: "lpc47m157 \<Rightarrow> lpc47m157" where
  "lpc47m157_post_load = update_devices"

section \<open>Runs\<close>

definition lpc_new :: "bool \<Rightarrow> lpc47m157" where
  "lpc_new sysopt = \<lparr>lpc_sysopt = sysopt, lpc_iobase = 0, configuration_mode = False, selected_reg = 0,
     config_regs = replicate MAX_CONFIG_REG 0, device_regs = replicate MAX_DEVICE (replicate MAX_DEVICE_REGS 0),
     lpc_serials = replicate 2 \<lparr>ser_active = False, ser_iobase = 0, ser_irq = 0, ser_mapped = None\<rparr>\<rparr>"

text \<open>
  The states that accesses and snapshots lead to.  A snapshot brings its own base address, mode, selected register and register files;
  where the serial ports are registered is not part of it.
\<close>

inductive lpc_reachable :: "lpc47m157 \<Rightarrow> bool" where
  realized: "lpc_reachable (lpc47m157_realize (lpc_new sysopt))"
| written: "lpc_reachable s \<Longrightarrow> lpc47m157_io_write addr val s = Inr s' \<Longrightarrow> lpc_reachable s'"
| loaded: "lpc_reachable s \<Longrightarrow> length regs = MAX_CONFIG_REG \<Longrightarrow> length devs = MAX_DEVICE \<Longrightarrow>
    \<forall>dev \<in> set devs. length dev = MAX_DEVICE_REGS \<Longrightarrow>
    lpc_reachable (lpc47m157_post_load (s\<lparr>lpc_sysopt := b, lpc_iobase := io, configuration_mode := m, selected_reg := r,
      config_regs := regs, device_regs := devs\<rparr>))"

text \<open>A port is where its registers place it, and on the bus exactly then.\<close>

definition serial_placed :: "u8 list \<Rightarrow> lpc_serial \<Rightarrow> bool" where
  "serial_placed dev serial \<longleftrightarrow>
    (if dev ! CONFIG_DEVICE_ACTIVATE = 0 then \<not> ser_active serial \<and> ser_mapped serial = None
     else ser_active serial \<and> ser_mapped serial = Some (dev_iobase dev, dev_irq dev))"

definition serial_wf :: "lpc_serial \<Rightarrow> bool" where
  "serial_wf serial \<longleftrightarrow> ser_mapped serial = (if ser_active serial then Some (ser_iobase serial, ser_irq serial) else None)"

definition lpc_wf :: "lpc47m157 \<Rightarrow> bool" where
  "lpc_wf s \<longleftrightarrow> length (config_regs s) = MAX_CONFIG_REG \<and> length (device_regs s) = MAX_DEVICE \<and>
     (\<forall>dev \<in> set (device_regs s). length dev = MAX_DEVICE_REGS) \<and> length (lpc_serials s) = 2 \<and>
     (\<forall>i < 2. serial_wf (lpc_serials s ! i)) \<and>
     (\<not> configuration_mode s \<longrightarrow> (\<forall>i < 2. serial_placed (device_regs s ! (DEVICE_SERIAL_PORT_1 + i)) (lpc_serials s ! i)))"

lemma update_serial_placed: "serial_wf serial \<Longrightarrow> serial_placed dev (update_serial dev serial) \<and> serial_wf (update_serial dev serial)"
  by (auto simp: serial_placed_def serial_wf_def update_serial_def Let_def)

lemma update_devices_eq:
  "length (lpc_serials s) = 2 \<Longrightarrow> update_devices s = s\<lparr>lpc_serials :=
    [update_serial (device_regs s ! 4) (lpc_serials s ! 0), update_serial (device_regs s ! 5) (lpc_serials s ! 1)]\<rparr>"
proof -
  assume "length (lpc_serials s) = 2"
  then obtain a b where "lpc_serials s = [a, b]" by (auto simp: length_Suc_conv numeral_2_eq_2)
  then show ?thesis by (simp add: update_devices_def upt_rec)
qed

lemma all_less_2: "(\<forall>i < 2. P i) \<longleftrightarrow> P 0 \<and> P (1 :: nat)"
  by (auto simp: less_2_cases_iff)

lemma update_devices_wf: "lpc_wf s \<Longrightarrow> lpc_wf (update_devices s) \<and> lpc_wf ((update_devices s)\<lparr>configuration_mode := b\<rparr>)"
  by (auto simp: lpc_wf_def update_devices_eq all_less_2 update_serial_placed)

lemma lpc_write_wf: "lpc_wf s \<Longrightarrow> lpc47m157_io_write addr val s = Inr s' \<Longrightarrow> lpc_wf s'"
  using update_devices_wf [of s False] update_devices_wf [of s True]
  by (auto simp: lpc47m157_io_write_def lpc_dev_def Let_def split: if_splits)
    (auto simp: lpc_wf_def dest: set_update_subset_insert [THEN subsetD])

lemma lpc_reachable_wf: "lpc_reachable s \<Longrightarrow> lpc_wf s"
proof (induction rule: lpc_reachable.induct)
  case (realized sysopt)
  show ?case by (simp add: lpc_wf_def lpc47m157_realize_def lpc_new_def Let_def all_less_2 serial_wf_def serial_placed_def)
next
  case (written s addr val s')
  then show ?case using lpc_write_wf by blast
next
  case (loaded s regs devs b io m r)
  then show ?case
    by (auto simp: lpc47m157_post_load_def lpc_wf_def update_devices_eq all_less_2 update_serial_placed)
qed

text \<open>C17: In every reachable state outside configuration mode each serial port is active, and registered at the base
  address and interrupt of its registers, exactly when its activation register is set.\<close>

theorem lpc_serial_ports_placed:
  assumes "lpc_reachable s" "\<not> configuration_mode s" "i < 2"
  shows "serial_placed (device_regs s ! (DEVICE_SERIAL_PORT_1 + i)) (lpc_serials s ! i)"
  using lpc_reachable_wf [OF assms(1)] assms(2,3) by (simp add: lpc_wf_def)

theorem lpc_serial_ports_placed_witness:
  "serial_placed (device_regs (lpc47m157_realize (lpc_new True)) ! (DEVICE_SERIAL_PORT_1 + 1))
    (lpc_serials (lpc47m157_realize (lpc_new True)) ! 1)"
proof -
  have "lpc_reachable (lpc47m157_realize (lpc_new True))" by (rule lpc_reachable.realized)
  then show ?thesis by (rule lpc_serial_ports_placed) (simp_all add: lpc47m157_realize_def lpc_new_def Let_def)
qed

definition lpc_bad_device :: "lpc47m157 \<Rightarrow> bool" where
  "lpc_bad_device s \<longleftrightarrow> MAX_CONFIG_REG \<le> unat (selected_reg s) \<and>
     (MAX_DEVICE \<le> unat (config_regs s ! CONFIG_DEVICE_NUMBER) \<or> MAX_DEVICE_REGS \<le> unat (selected_reg s))"

text \<open>C18: A one byte access to the two ports faults exactly in configuration mode at the data port, with a device register
  selected, when the device number is not below 12, where the assertion fails, or the register is 0xFF, which is one past
  the register file.\<close>

theorem lpc_access_faults:
  assumes "addr < 2"
  shows "isl (lpc47m157_io_write addr val s) = (configuration_mode s \<and> addr = DATA_PORT \<and> lpc_bad_device s) \<and>
    isl (lpc47m157_io_read addr s) = (configuration_mode s \<and> addr = DATA_PORT \<and> lpc_bad_device s)"
proof -
  have "addr = 0 \<or> addr = 1" using assms by (cases "unat addr") (auto simp: word_less_nat_alt word_unat_eq_iff)
  then show ?thesis
    by (auto simp: lpc47m157_io_write_def lpc47m157_io_read_def lpc_dev_def lpc_bad_device_def Let_def check_def)
qed

theorem lpc_access_faults_witness:
  "isl (lpc47m157_io_write 1 0x12 ((lpc_new False)\<lparr>configuration_mode := True, selected_reg := 0xFF\<rparr>))"
  using lpc_access_faults [of 1 "0x12" "(lpc_new False)\<lparr>configuration_mode := True, selected_reg := 0xFF\<rparr>"]
  by (simp add: lpc_bad_device_def)

end
