(* ===== verification/ADPCM.thy ===== *)
theory ADPCM
  imports Xbox_Prelude
begin

unbundle bit_operations_syntax

text \<open>
  The ADPCM decoder of the voice processor (\<open>hw/xbox/mcpx/apu/vp/adpcm.h\<close>).  Samples are integers in the range of
  \<open>int16_t\<close>; the pointers \<open>outbuf\<close> and \<open>inbuf\<close> are positions in the two buffers.
\<close>

definition step_table :: "int list" where
  "step_table =
    [7, 8, 9, 10, 11, 12, 13, 14,
     16, 17, 19, 21, 23, 25, 28, 31,
     34, 37, 41, 45, 50, 55, 60, 66,
     73, 80, 88, 97, 107, 118, 130, 143,
     157, 173, 190, 209, 230, 253, 279, 307,
     337, 371, 408, 449, 494, 544, 598, 658,
     724, 796, 876, 963, 1060, 1166, 1282, 1411,
     1552, 1707, 1878, 2066, 2272, 2499, 2749, 3024,
     3327, 3660, 4026, 4428, 4871, 5358, 5894, 6484,
     7132, 7845, 8630, 9493, 10442, 11487, 12635, 13899,
     15289, 16818, 18500, 20350, 22385, 24623, 27086, 29794,
     32767]"

definition index_table :: "int list" where
  "index_table = [-1, -1, -1, -1, 2, 4, 6, 8]"

definition CLIP :: "int \<Rightarrow> int \<Rightarrow> int \<Rightarrow> int" where
  "CLIP data lo hi = (if data > hi then hi else if data < lo then lo else data)"

record adpcm =
  pcmdata :: "int list"
  adpcm_index :: "int list"
  adpcm_out :: "int list"
  out_pos :: nat
  in_pos :: nat

text \<open>One sample of a channel from the four bits \<open>n\<close>.\<close>

definition adpcm_delta :: "int \<Rightarrow> u8 \<Rightarrow> int" where
  "adpcm_delta step n =
    (let delta = step div 8;
         delta = (if n AND 1 \<noteq> 0 then delta + step div 4 else delta);
         delta = (if n AND 2 \<noteq> 0 then delta + step div 2 else delta);
         delta = (if n AND 4 \<noteq> 0 then delta + step else delta)
     in if n AND 8 \<noteq> 0 then - delta else delta)"

definition adpcm_put :: "nat \<Rightarrow> int \<Rightarrow> adpcm \<Rightarrow> adpcm res" where
  "adpcm_put k v st = check (out_pos st + k < length (adpcm_out st)) OutOfBounds
     (Inr (st\<lparr>adpcm_out := (adpcm_out st)[out_pos st + k := v]\<rparr>))"

definition adpcm_sample :: "nat \<Rightarrow> nat \<Rightarrow> u8 \<Rightarrow> adpcm \<Rightarrow> adpcm res" where
  "adpcm_sample ch k n st =
    (let i = adpcm_index st ! ch in
     check (0 \<le> i \<and> i < 89) OutOfBounds
       (let p = CLIP (pcmdata st ! ch + adpcm_delta (step_table ! nat i) n) (- 32768) 32767;
            i = CLIP (i + index_table ! unat (n AND 7)) 0 88
        in adpcm_put k p (st\<lparr>pcmdata := (pcmdata st)[ch := p], adpcm_index := (adpcm_index st)[ch := i]\<rparr>)))"

definition adpcm_byte :: "u8 list \<Rightarrow> nat \<Rightarrow> nat \<Rightarrow> nat \<Rightarrow> adpcm \<Rightarrow> adpcm res" where
  "adpcm_byte inbuf channels ch i st =
    check (in_pos st < length inbuf) OutOfBounds
      (let b = inbuf ! in_pos st in
       bind_res (adpcm_sample ch (i * 2 * channels) (b AND 0xf) st) (\<lambda>st.
       bind_res (adpcm_sample ch ((i * 2 + 1) * channels) (drop_bit 4 b) st) (\<lambda>st.
       Inr (st\<lparr>in_pos := in_pos st + 1\<rparr>))))"

definition adpcm_channel :: "u8 list \<Rightarrow> nat \<Rightarrow> nat \<Rightarrow> adpcm \<Rightarrow> adpcm res" where
  "adpcm_channel inbuf channels ch st =
    bind_res (fold_res (adpcm_byte inbuf channels ch) [0..<4] st) (\<lambda>st. Inr (st\<lparr>out_pos := out_pos st + 1\<rparr>))"

definition adpcm_chunk :: "u8 list \<Rightarrow> nat \<Rightarrow> nat \<Rightarrow> adpcm \<Rightarrow> adpcm res" where
  "adpcm_chunk inbuf channels c st =
    bind_res (fold_res (adpcm_channel inbuf channels) [0..<channels] st) (\<lambda>st. Inr (st\<lparr>out_pos := out_pos st + channels * 7\<rparr>))"

text \<open>The header of a channel; \<open>False\<close> when it is not valid and the decoder gives up.\<close>

definition adpcm_header :: "u8 list \<Rightarrow> nat \<Rightarrow> adpcm \<Rightarrow> (bool \<times> adpcm) res" where
  "adpcm_header inbuf ch st =
    check (ch < length (pcmdata st)) OutOfBounds
      (check (in_pos st + 3 < length inbuf) OutOfBounds
        (let p = sint (ucast (inbuf ! in_pos st) OR push_bit 8 (ucast (inbuf ! (in_pos st + 1))) :: u16);
             i = sint (inbuf ! (in_pos st + 2))
         in bind_res (adpcm_put 0 p (st\<lparr>pcmdata := (pcmdata st)[ch := p], adpcm_index := (adpcm_index st)[ch := i]\<rparr>)) (\<lambda>st.
            let st = st\<lparr>out_pos := out_pos st + 1\<rparr> in
            if i < 0 \<or> i > 88 \<or> inbuf ! (in_pos st + 3) \<noteq> 0 then Inr (False, st)
            else Inr (True, st\<lparr>in_pos := in_pos st + 4\<rparr>))))"

fun adpcm_headers :: "u8 list \<Rightarrow> nat list \<Rightarrow> adpcm \<Rightarrow> (bool \<times> adpcm) res" where
  "adpcm_headers inbuf [] st = Inr (True, st)"
| "adpcm_headers inbuf (ch # chs) st =
    bind_res (adpcm_header inbuf ch st) (\<lambda>(ok, st). if ok then adpcm_headers inbuf chs st else Inr (False, st))"

text \<open>The whole block; \<open>inbufsize\<close> is the length of \<open>inbuf\<close>.  The result is the number of composite samples and the output.\<close>

definition adpcm_decode_block :: "int list \<Rightarrow> u8 list \<Rightarrow> nat \<Rightarrow> (int \<times> int list) res" where
  "adpcm_decode_block outbuf inbuf channels =
    (if length inbuf < channels * 4 then Inr (0, outbuf)
     else bind_res (adpcm_headers inbuf [0..<channels]
            \<lparr>pcmdata = [0, 0], adpcm_index = [0, 0], adpcm_out = outbuf, out_pos = 0, in_pos = 0\<rparr>) (\<lambda>(ok, st).
          if \<not> ok then Inr (0, adpcm_out st)
          else check (channels * 4 \<noteq> 0) DivByZero
            (let chunks = (length inbuf - channels * 4) div (channels * 4) in
             check (1 + chunks * 8 < 2 ^ 31) SignedOverflow
               (bind_res (fold_res (adpcm_chunk inbuf channels) [0..<chunks] st) (\<lambda>st.
                Inr (int (1 + chunks * 8), adpcm_out st))))))"

section \<open>The reference\<close>

text \<open>The state of one channel, its sample and step index, and the four bits of its \<open>n\<close>-th coded sample.\<close>

definition ref_delta :: "int \<Rightarrow> u8 \<Rightarrow> int" where
  "ref_delta step n = (if bit n 3 then -1 else 1) *
     (step div 8 + of_bool (bit n 0) * (step div 4) + of_bool (bit n 1) * (step div 2) + of_bool (bit n 2) * step)"

definition ref_step :: "u8 \<Rightarrow> int \<times> int \<Rightarrow> int \<times> int" where
  "ref_step n = (\<lambda>(p, i). (max (- 32768) (min 32767 (p + ref_delta (step_table ! nat i) n)),
     max 0 (min 88 (i + index_table ! (unat n mod 8)))))"

definition ref_nibble :: "u8 list \<Rightarrow> nat \<Rightarrow> nat \<Rightarrow> nat \<Rightarrow> u8" where
  "ref_nibble inbuf channels ch n =
    (let b = inbuf ! (4 * channels + (n div 8 * channels + ch) * 4 + n mod 8 div 2)
     in if even n then b AND 0xf else drop_bit 4 b)"

primrec ref_channel :: "u8 list \<Rightarrow> nat \<Rightarrow> nat \<Rightarrow> nat \<Rightarrow> int \<times> int" where
  "ref_channel inbuf channels ch 0 =
    (sint (ucast (inbuf ! (4 * ch)) OR push_bit 8 (ucast (inbuf ! (4 * ch + 1))) :: u16), sint (inbuf ! (4 * ch + 2)))"
| "ref_channel inbuf channels ch (Suc n) = ref_step (ref_nibble inbuf channels ch n) (ref_channel inbuf channels ch n)"

definition valid_header :: "u8 list \<Rightarrow> nat \<Rightarrow> bool" where
  "valid_header inbuf ch \<longleftrightarrow> inbuf ! (4 * ch + 2) \<le> 88 \<and> inbuf ! (4 * ch + 3) = 0"

lemma adpcm_delta_ref: "adpcm_delta step n = ref_delta step n"
proof -
  have "n AND 1 \<noteq> 0 \<longleftrightarrow> bit n 0" "n AND 2 \<noteq> 0 \<longleftrightarrow> bit n 1" "n AND 4 \<noteq> 0 \<longleftrightarrow> bit n 2" "n AND 8 \<noteq> 0 \<longleftrightarrow> bit n 3"
    using and_exp_eq_0_iff_not_bit [of n 0] and_exp_eq_0_iff_not_bit [of n 1] and_exp_eq_0_iff_not_bit [of n 2]
      and_exp_eq_0_iff_not_bit [of n 3] by simp_all
  then show ?thesis by (simp add: adpcm_delta_def ref_delta_def Let_def)
qed

lemma ref_step_CLIP:
  "ref_step n (p, i) = (CLIP (p + adpcm_delta (step_table ! nat i) n) (- 32768) 32767,
     CLIP (i + index_table ! unat (n AND 7)) 0 88)"
proof -
  have "unat (n AND 7) = unat n mod 8"
    using unat_take_bit_mod [of 3 n] by (simp add: take_bit_eq_mask mask_numeral)
  then show ?thesis by (simp add: ref_step_def CLIP_def adpcm_delta_ref)
qed

lemma sint_table_index:
  assumes "(w :: u8) \<le> 88"
  shows "sint w = uint w" "uint w \<le> 88"
proof -
  show "uint w \<le> 88" using assms by (simp add: word_le_def)
  then show "sint w = uint w" unfolding sint_uint by (intro signed_take_bit_int_eq_self) (simp_all add: order_trans [of _ 0])
qed

lemma ref_index:
  assumes "valid_header inbuf ch"
  shows "0 \<le> snd (ref_channel inbuf channels ch n) \<and> snd (ref_channel inbuf channels ch n) < 89"
proof (induction n)
  case 0
  then show ?case using assms sint_table_index [of "inbuf ! (4 * ch + 2)"] by (simp add: valid_header_def)
next
  case (Suc n)
  show ?case by (simp add: ref_step_def min_less_iff_disj split: prod.split)
qed

lemma ref_sample_range: "- 32768 \<le> fst (ref_channel inbuf channels ch n) \<and> fst (ref_channel inbuf channels ch n) \<le> 32767"
proof (cases n)
  case 0
  then show ?thesis using sint_ge [of "ucast (inbuf ! (4 * ch)) OR push_bit 8 (ucast (inbuf ! (4 * ch + 1))) :: u16"]
      sint_lt [of "ucast (inbuf ! (4 * ch)) OR push_bit 8 (ucast (inbuf ! (4 * ch + 1))) :: u16"] by simp
next
  case (Suc m)
  then show ?thesis by (simp add: ref_step_def min_less_iff_disj split: prod.split)
qed

text \<open>After \<open>d ch\<close> coded samples of each channel.\<close>

definition decoded :: "u8 list \<Rightarrow> nat \<Rightarrow> int list \<Rightarrow> (nat \<Rightarrow> nat) \<Rightarrow> adpcm \<Rightarrow> bool" where
  "decoded inbuf channels out0 d st \<longleftrightarrow> length (pcmdata st) = 2 \<and> length (adpcm_index st) = 2 \<and>
     (\<forall>ch < channels. (pcmdata st ! ch, adpcm_index st ! ch) = ref_channel inbuf channels ch (d ch)) \<and>
     length (adpcm_out st) = length out0 \<and>
     (\<forall>p < length out0. adpcm_out st ! p =
        (if p div channels \<le> d (p mod channels) then fst (ref_channel inbuf channels (p mod channels) (p div channels)) else out0 ! p))"

lemma decoded_sample:
  assumes "decoded inbuf channels out0 d st" "ch < channels" "channels \<le> 2" "valid_header inbuf ch"
    and "out_pos st + k = (d ch + 1) * channels + ch" "out_pos st + k < length out0"
    and "n = ref_nibble inbuf channels ch (d ch)"
  shows "\<exists>st'. adpcm_sample ch k n st = Inr st' \<and> decoded inbuf channels out0 (d(ch := d ch + 1)) st' \<and>
    out_pos st' = out_pos st \<and> in_pos st' = in_pos st"
proof -
  let ?r = "ref_channel inbuf channels ch (Suc (d ch))"
  have r: "(pcmdata st ! ch, adpcm_index st ! ch) = ref_channel inbuf channels ch (d ch)" using assms(1,2) by (simp add: decoded_def)
  then have i: "0 \<le> adpcm_index st ! ch" "adpcm_index st ! ch < 89"
    using ref_index [OF assms(4), of channels "d ch"] by (metis snd_conv)+
  have r': "?r = (CLIP (pcmdata st ! ch + adpcm_delta (step_table ! nat (adpcm_index st ! ch)) n) (- 32768) 32767,
      CLIP (adpcm_index st ! ch + index_table ! unat (n AND 7)) 0 88)"
    by (simp add: ref_step_CLIP assms(7) flip: r)
  have pos: "p = out_pos st + k \<longleftrightarrow> p mod channels = ch \<and> p div channels = d ch + 1" for p
    using assms(2,5) by (metis add.commute div_mult_self3 div_less mod_mult_self3 mod_less add_0 div_mult_mod_eq less_nat_zero_code)
  have le: "p div channels \<le> (d(ch := d ch + 1)) (p mod channels) \<longleftrightarrow> p = out_pos st + k \<or> p div channels \<le> d (p mod channels)" for p
    unfolding pos by auto
  let ?st = "st\<lparr>pcmdata := (pcmdata st)[ch := fst ?r], adpcm_index := (adpcm_index st)[ch := snd ?r],
      adpcm_out := (adpcm_out st)[out_pos st + k := fst ?r]\<rparr>"
  have "adpcm_sample ch k n st = Inr ?st"
    using i assms(1,6) by (simp add: adpcm_sample_def adpcm_put_def Let_def r' decoded_def del: ref_channel.simps)
  moreover have "decoded inbuf channels out0 (d(ch := d ch + 1)) ?st"
  proof -
    have "adpcm_out ?st ! p = (if p div channels \<le> (d(ch := d ch + 1)) (p mod channels)
        then fst (ref_channel inbuf channels (p mod channels) (p div channels)) else out0 ! p)" if "p < length out0" for p
    proof (cases "p = out_pos st + k")
      case True
      then have "p mod channels = ch" "p div channels = Suc (d ch)" using pos [of p] by simp_all
      then show ?thesis using True assms(1,6) by (simp add: decoded_def)
    next
      case False
      then show ?thesis using assms(1) that unfolding le by (simp add: decoded_def)
    qed
    then show ?thesis using assms(1-3) by (auto simp: decoded_def nth_list_update)
  qed
  ultimately show ?thesis by auto
qed


lemma nibble_pair:
  "n = 8 * c + 2 * i \<Longrightarrow> i < 4 \<Longrightarrow> ref_nibble inbuf channels ch n = inbuf ! (4 * channels + (c * channels + ch) * 4 + i) AND 0xf"
  "n = 8 * c + 2 * i + 1 \<Longrightarrow> i < 4 \<Longrightarrow> ref_nibble inbuf channels ch n = drop_bit 4 (inbuf ! (4 * channels + (c * channels + ch) * 4 + i))"
proof -
  assume n: "n = 8 * c + 2 * i" "i < 4"
  then have "n div 8 = c" "n mod 8 div 2 = i" "even n" by simp_all
  then show "ref_nibble inbuf channels ch n = inbuf ! (4 * channels + (c * channels + ch) * 4 + i) AND 0xf"
    by (simp add: ref_nibble_def)
next
  assume n: "n = 8 * c + 2 * i + 1" "i < 4"
  then have "n div 8 = c" "n mod 8 = 2 * i + 1" "odd n" by simp_all
  then show "ref_nibble inbuf channels ch n = drop_bit 4 (inbuf ! (4 * channels + (c * channels + ch) * 4 + i))"
    by (simp add: ref_nibble_def)
qed

text \<open>A block of \<open>chunks\<close> chunks whose headers are valid, and room for its samples.\<close>

definition adpcm_fits :: "u8 list \<Rightarrow> nat \<Rightarrow> int list \<Rightarrow> nat \<Rightarrow> bool" where
  "adpcm_fits inbuf channels out0 chunks \<longleftrightarrow> (channels = 1 \<or> channels = 2) \<and> (\<forall>ch < channels. valid_header inbuf ch) \<and>
     4 * channels + chunks * channels * 4 \<le> length inbuf \<and> (1 + 8 * chunks) * channels \<le> length out0"

lemma slot:
  assumes fits: "adpcm_fits inbuf channels out0 chunks" and "c < chunks" "ch < channels" "m \<le> 7"
  shows "(8 * c + m + 1) * channels + ch < length out0" "4 * channels + (c * channels + ch) * 4 + m div 2 < length inbuf"
proof -
  have "(8 * c + m + 1) * channels + ch < (8 * c + m + 2) * channels" using assms(3) by (simp add: algebra_simps)
  also have "\<dots> \<le> (1 + 8 * chunks) * channels" using assms(2,4) by (intro mult_right_mono) simp_all
  finally show "(8 * c + m + 1) * channels + ch < length out0" using fits by (simp add: adpcm_fits_def)
  have "c * channels + ch + 1 \<le> (c + 1) * channels" using assms(3) by simp
  also have "\<dots> \<le> chunks * channels" using assms(2) by (intro mult_right_mono) simp_all
  finally have "(c * channels + ch) * 4 + 4 \<le> chunks * channels * 4" by simp
  then show "4 * channels + (c * channels + ch) * 4 + m div 2 < length inbuf" using fits div_le_mono [OF assms(4), of 2] by (simp add: adpcm_fits_def)
qed

lemma byte_step:
  assumes fits: "adpcm_fits inbuf channels out0 chunks" and "decoded inbuf channels out0 d st" "c < chunks" "ch < channels" "i < 4" "d ch = 8 * c + 2 * i"
    and "out_pos st = (8 * c + 1) * channels + ch" "in_pos st = 4 * channels + (c * channels + ch) * 4 + i"
  shows "\<exists>st'. adpcm_byte inbuf channels ch i st = Inr st' \<and> decoded inbuf channels out0 (d(ch := d ch + 2)) st' \<and>
    out_pos st' = out_pos st \<and> in_pos st' = in_pos st + 1"
proof -
  have two: "channels \<le> 2" using fits by (auto simp: adpcm_fits_def)
  have v: "valid_header inbuf ch" using fits assms(4) by (simp add: adpcm_fits_def)
  let ?b = "inbuf ! in_pos st"
  have p1: "out_pos st + i * 2 * channels = (d ch + 1) * channels + ch" using assms(6,7) by (simp add: algebra_simps)
  have "\<exists>st1. adpcm_sample ch (i * 2 * channels) (?b AND 0xf) st = Inr st1 \<and> decoded inbuf channels out0 (d(ch := d ch + 1)) st1 \<and>
      out_pos st1 = out_pos st \<and> in_pos st1 = in_pos st"
  proof (rule decoded_sample [OF assms(2,4) two v p1])
    show "out_pos st + i * 2 * channels < length out0"
      unfolding p1 using slot(1) [OF fits assms(3,4), of "2 * i"] assms(5,6) by simp
    show "?b AND 0xf = ref_nibble inbuf channels ch (d ch)"
      unfolding assms(8) by (rule nibble_pair(1) [OF assms(6,5), symmetric])
  qed
  then obtain st1 where st1: "adpcm_sample ch (i * 2 * channels) (?b AND 0xf) st = Inr st1"
      "decoded inbuf channels out0 (d(ch := d ch + 1)) st1" "out_pos st1 = out_pos st" "in_pos st1 = in_pos st" by blast
  let ?d = "d(ch := d ch + 1)"
  have p2: "out_pos st1 + (i * 2 + 1) * channels = (?d ch + 1) * channels + ch" using assms(6,7) st1(3) by (simp add: algebra_simps)
  have "\<exists>st2. adpcm_sample ch ((i * 2 + 1) * channels) (drop_bit 4 ?b) st1 = Inr st2 \<and>
      decoded inbuf channels out0 (?d(ch := ?d ch + 1)) st2 \<and> out_pos st2 = out_pos st1 \<and> in_pos st2 = in_pos st1"
  proof (rule decoded_sample [OF st1(2) assms(4) two v p2])
    show "out_pos st1 + (i * 2 + 1) * channels < length out0"
      unfolding p2 using slot(1) [OF fits assms(3,4), of "2 * i + 1"] assms(5,6) by simp
    show "drop_bit 4 ?b = ref_nibble inbuf channels ch (?d ch)"
      unfolding assms(8) using nibble_pair(2) [of "?d ch" c i] assms(5,6) by simp
  qed
  then obtain st2 where st2: "adpcm_sample ch ((i * 2 + 1) * channels) (drop_bit 4 ?b) st1 = Inr st2"
      "decoded inbuf channels out0 (?d(ch := ?d ch + 1)) st2" "out_pos st2 = out_pos st1" "in_pos st2 = in_pos st1" by blast
  have "in_pos st < length inbuf" using slot(2) [OF fits assms(3,4), of "2 * i"] assms(5,8) by simp
  then show ?thesis using st1 st2 by (auto simp: adpcm_byte_def Let_def decoded_def)
qed

lemma channel_step:
  assumes fits: "adpcm_fits inbuf channels out0 chunks" and "decoded inbuf channels out0 d st" "c < chunks" "ch < channels" "d ch = 8 * c"
    and "out_pos st = (8 * c + 1) * channels + ch" "in_pos st = 4 * channels + (c * channels + ch) * 4"
  shows "\<exists>st'. adpcm_channel inbuf channels ch st = Inr st' \<and> decoded inbuf channels out0 (d(ch := d ch + 8)) st' \<and>
    out_pos st' = out_pos st + 1 \<and> in_pos st' = in_pos st + 4"
proof -
  have "\<exists>st'. fold_res (adpcm_byte inbuf channels ch) [0..<i] st = Inr st' \<and>
      decoded inbuf channels out0 (d(ch := d ch + 2 * i)) st' \<and> out_pos st' = out_pos st \<and> in_pos st' = in_pos st + i" if "i \<le> 4" for i
    using that
  proof (induction i)
    case 0
    then show ?case using assms(2) by simp
  next
    case (Suc i)
    then obtain st1 where st1: "fold_res (adpcm_byte inbuf channels ch) [0..<i] st = Inr st1"
        "decoded inbuf channels out0 (d(ch := d ch + 2 * i)) st1" "out_pos st1 = out_pos st" "in_pos st1 = in_pos st + i"
      by (meson Suc_leD)
    from byte_step [OF fits st1(2) assms(3,4), of i] Suc.prems st1(3,4) assms(5-7)
    obtain st2 where "adpcm_byte inbuf channels ch i st1 = Inr st2"
        "decoded inbuf channels out0 (d(ch := d ch + 2 * i + 2)) st2" "out_pos st2 = out_pos st" "in_pos st2 = in_pos st + i + 1"
      by auto
    then show ?case using st1(1) by (simp add: fold_res_append fun_upd_def)
  qed
  from this [of 4] obtain st1 where "fold_res (adpcm_byte inbuf channels ch) [0..<4] st = Inr st1"
      "decoded inbuf channels out0 (d(ch := d ch + 8)) st1" "out_pos st1 = out_pos st" "in_pos st1 = in_pos st + 4" by auto
  then show ?thesis by (auto simp: adpcm_channel_def decoded_def)
qed

lemma chunk_step:
  assumes fits: "adpcm_fits inbuf channels out0 chunks" and "decoded inbuf channels out0 (\<lambda>ch. 8 * c) st" "c < chunks"
    and "out_pos st = (8 * c + 1) * channels" "in_pos st = 4 * channels + c * channels * 4"
  shows "\<exists>st'. adpcm_chunk inbuf channels c st = Inr st' \<and> decoded inbuf channels out0 (\<lambda>ch. 8 * Suc c) st' \<and>
    out_pos st' = (8 * Suc c + 1) * channels \<and> in_pos st' = 4 * channels + Suc c * channels * 4"
proof -
  have "\<exists>st' d. fold_res (adpcm_channel inbuf channels) [0..<k] st = Inr st' \<and> decoded inbuf channels out0 d st' \<and>
      (\<forall>ch < channels. d ch = 8 * c + (if ch < k then 8 else 0)) \<and>
      out_pos st' = out_pos st + k \<and> in_pos st' = in_pos st + 4 * k" if "k \<le> channels" for k
    using that
  proof (induction k)
    case 0
    then show ?case using assms(2) by (intro exI [of _ st] exI [of _ "\<lambda>ch. 8 * c"]) simp
  next
    case (Suc k)
    then obtain st1 d where st1: "fold_res (adpcm_channel inbuf channels) [0..<k] st = Inr st1" "decoded inbuf channels out0 d st1"
        "\<forall>ch < channels. d ch = 8 * c + (if ch < k then 8 else 0)" "out_pos st1 = out_pos st + k" "in_pos st1 = in_pos st + 4 * k"
      by (meson Suc_leD)
    have k: "k < channels" "d k = 8 * c" using Suc.prems st1(3) by auto
    from channel_step [OF fits st1(2) assms(3) k] st1(4,5) assms(4,5)
    obtain st2 where "adpcm_channel inbuf channels k st1 = Inr st2" "decoded inbuf channels out0 (d(k := d k + 8)) st2"
        "out_pos st2 = out_pos st1 + 1" "in_pos st2 = in_pos st1 + 4" by (auto simp: algebra_simps)
    then show ?case using st1 k by (intro exI [of _ st2] exI [of _ "d(k := d k + 8)"]) (auto simp: fold_res_append fun_upd_def)
  qed
  from this [of channels] obtain st1 d where st1: "fold_res (adpcm_channel inbuf channels) [0..<channels] st = Inr st1"
      "decoded inbuf channels out0 d st1" "\<forall>ch < channels. d ch = 8 * Suc c" "out_pos st1 = out_pos st + channels"
      "in_pos st1 = in_pos st + 4 * channels" by auto
  have "0 < channels" using fits by (auto simp: adpcm_fits_def)
  then have "decoded inbuf channels out0 (\<lambda>ch. 8 * Suc c) (st1\<lparr>out_pos := x\<rparr>)" for x using st1(2,3) by (auto simp: decoded_def)
  then show ?thesis using st1 assms(4,5) by (simp add: adpcm_chunk_def algebra_simps)
qed

lemma chunks_steps:
  assumes fits: "adpcm_fits inbuf channels out0 chunks" and "decoded inbuf channels out0 (\<lambda>ch. 0) st" "out_pos st = channels" "in_pos st = 4 * channels"
  shows "\<exists>st'. fold_res (adpcm_chunk inbuf channels) [0..<chunks] st = Inr st' \<and> decoded inbuf channels out0 (\<lambda>ch. 8 * chunks) st'"
proof -
  have "\<exists>st'. fold_res (adpcm_chunk inbuf channels) [0..<c] st = Inr st' \<and> decoded inbuf channels out0 (\<lambda>ch. 8 * c) st' \<and>
      out_pos st' = (8 * c + 1) * channels \<and> in_pos st' = 4 * channels + c * channels * 4" if "c \<le> chunks" for c
    using that
  proof (induction c)
    case 0
    then show ?case using assms(2-4) by simp
  next
    case (Suc c)
    then obtain st1 where st1: "fold_res (adpcm_chunk inbuf channels) [0..<c] st = Inr st1" "decoded inbuf channels out0 (\<lambda>ch. 8 * c) st1"
        "out_pos st1 = (8 * c + 1) * channels" "in_pos st1 = 4 * channels + c * channels * 4"
      by (meson Suc_leD)
    from chunk_step [OF fits st1(2) _ st1(3,4)] Suc.prems obtain st2 where "adpcm_chunk inbuf channels c st1 = Inr st2"
        "decoded inbuf channels out0 (\<lambda>ch. 8 * Suc c) st2" "out_pos st2 = (8 * Suc c + 1) * channels"
        "in_pos st2 = 4 * channels + Suc c * channels * 4" by auto
    then show ?case using st1(1) by (simp add: fold_res_append)
  qed
  from this [of chunks] show ?thesis by auto
qed


lemma header_step:
  assumes "valid_header inbuf ch" "4 * ch + 4 \<le> length inbuf" "ch < length (pcmdata st)" "ch < length (adpcm_out st)"
    and "out_pos st = ch" "in_pos st = 4 * ch"
  shows "adpcm_header inbuf ch st = Inr (True, st\<lparr>pcmdata := (pcmdata st)[ch := fst (ref_channel inbuf channels ch 0)],
    adpcm_index := (adpcm_index st)[ch := snd (ref_channel inbuf channels ch 0)],
    adpcm_out := (adpcm_out st)[ch := fst (ref_channel inbuf channels ch 0)], out_pos := ch + 1, in_pos := 4 * ch + 4\<rparr>)"
proof -
  have "0 \<le> sint (inbuf ! (4 * ch + 2))" "sint (inbuf ! (4 * ch + 2)) \<le> 88" "inbuf ! (4 * ch + 3) = 0"
    using assms(1) sint_table_index [of "inbuf ! (4 * ch + 2)"] by (auto simp: valid_header_def)
  then show ?thesis using assms(2-6) by (simp add: adpcm_header_def adpcm_put_def Let_def)
qed

lemma headers_decoded:
  assumes "adpcm_fits inbuf channels outbuf chunks"
  shows "\<exists>st. adpcm_headers inbuf [0..<channels]
      \<lparr>pcmdata = [0, 0], adpcm_index = [0, 0], adpcm_out = outbuf, out_pos = 0, in_pos = 0\<rparr> = Inr (True, st) \<and>
    decoded inbuf channels outbuf (\<lambda>ch. 0) st \<and> out_pos st = channels \<and> in_pos st = 4 * channels"
proof -
  have v: "valid_header inbuf ch" if "ch < channels" for ch using assms that by (auto simp: adpcm_fits_def)
  have len: "4 * channels \<le> length inbuf" "channels \<le> length outbuf" using assms by (simp_all add: adpcm_fits_def)
  let ?r = "\<lambda>ch. ref_channel inbuf channels ch 0"
  consider "channels = 1" | "channels = 2" using assms by (auto simp: adpcm_fits_def)
  then show ?thesis
  proof cases
    case 1
    then have "decoded inbuf channels outbuf (\<lambda>ch. 0) \<lparr>pcmdata = [fst (?r 0), 0], adpcm_index = [snd (?r 0), 0],
        adpcm_out = outbuf[0 := fst (?r 0)], out_pos = 1, in_pos = 4\<rparr>"
      using len by (auto simp: decoded_def nth_list_update simp del: ref_channel.simps)
    moreover have "outbuf \<noteq> []" using 1 len by auto
    ultimately show ?thesis using 1 v [of 0] len by (simp add: header_step [where channels = channels] del: ref_channel.simps)
  next
    case 2
    have "p div 2 \<le> 0 \<longleftrightarrow> p = 0 \<or> p = 1" for p :: nat by auto
    with 2 have "decoded inbuf channels outbuf (\<lambda>ch. 0) \<lparr>pcmdata = [fst (?r 0), fst (?r 1)], adpcm_index = [snd (?r 0), snd (?r 1)],
        adpcm_out = outbuf[0 := fst (?r 0), 1 := fst (?r 1)], out_pos = Suc (Suc 0), in_pos = 8\<rparr>"
      using len by (auto simp: decoded_def nth_list_update less_2_cases_iff simp del: ref_channel.simps)
    moreover have "outbuf \<noteq> []" using 2 len by auto
    ultimately show ?thesis using 2 v [of 0] v [of 1] len
      by (simp add: header_step [where channels = channels] upt_rec del: ref_channel.simps)
  qed
qed

text \<open>C19: A block of one or two channels with valid headers decodes without fault into one sample from each header and eight from
  each chunk.  The samples are interleaved, each is that of its channel decoded alone, in the range of 16 bits,
  and the rest of the output is left as it was.\<close>

theorem adpcm_decode_block_spec:
  assumes "channels = 1 \<or> channels = 2" "\<forall>ch < channels. valid_header inbuf ch" "channels * 4 \<le> length inbuf"
    and "chunks = (length inbuf - channels * 4) div (channels * 4)" "1 + chunks * 8 < 2 ^ 31"
    and "(1 + chunks * 8) * channels \<le> length outbuf"
  shows "\<exists>out. adpcm_decode_block outbuf inbuf channels = Inr (int (1 + chunks * 8), out) \<and> length out = length outbuf \<and>
    (\<forall>p < length outbuf. if p < (1 + chunks * 8) * channels
       then out ! p = fst (ref_channel inbuf channels (p mod channels) (p div channels)) \<and> - 32768 \<le> out ! p \<and> out ! p \<le> 32767
       else out ! p = outbuf ! p)"
proof -
  have "chunks * (channels * 4) \<le> length inbuf - channels * 4" unfolding assms(4) by (rule div_times_less_eq_dividend)
  then have fits: "adpcm_fits inbuf channels outbuf chunks" using assms(1-3,6) by (auto simp: adpcm_fits_def)
  obtain st where st: "adpcm_headers inbuf [0..<channels]
      \<lparr>pcmdata = [0, 0], adpcm_index = [0, 0], adpcm_out = outbuf, out_pos = 0, in_pos = 0\<rparr> = Inr (True, st)"
      "decoded inbuf channels outbuf (\<lambda>ch. 0) st" "out_pos st = channels" "in_pos st = 4 * channels"
    using headers_decoded [OF fits] by blast
  obtain st' where st': "fold_res (adpcm_chunk inbuf channels) [0..<chunks] st = Inr st'" "decoded inbuf channels outbuf (\<lambda>ch. 8 * chunks) st'"
    using chunks_steps [OF fits st(2-4)] by blast
  have c0: "0 < channels" using assms(1) by auto
  have "adpcm_decode_block outbuf inbuf channels = Inr (int (1 + chunks * 8), adpcm_out st')"
    using st(1) st'(1) assms(3,5) c0 by (simp add: adpcm_decode_block_def Let_def flip: assms(4))
  moreover have "p < (1 + chunks * 8) * channels \<longleftrightarrow> p div channels \<le> 8 * chunks" for p
    using div_less_iff_less_mult [OF c0, of p "1 + chunks * 8"] by (simp only: less_Suc_eq_le plus_1_eq_Suc mult.commute)
  ultimately show ?thesis using st'(2) ref_sample_range by (auto simp: decoded_def)
qed


theorem adpcm_decode_block_spec_witness:
  "\<exists>out. adpcm_decode_block (replicate 130 0) (replicate 72 0) 2 = Inr (65, out) \<and>
    out ! 129 = fst (ref_channel (replicate 72 0) 2 1 64)"
proof -
  have "\<forall>ch < 2. valid_header (replicate 72 0) ch" by (simp add: valid_header_def less_2_cases_iff)
  then have "\<exists>out. adpcm_decode_block (replicate 130 0) (replicate 72 0) 2 = Inr (int (1 + 8 * 8), out) \<and>
      length out = length (replicate 130 (0 :: int)) \<and>
      (\<forall>p < length (replicate 130 (0 :: int)). if p < (1 + 8 * 8) * 2
         then out ! p = fst (ref_channel (replicate 72 0) 2 (p mod 2) (p div 2)) \<and> - 32768 \<le> out ! p \<and> out ! p \<le> 32767
         else out ! p = replicate 130 0 ! p)"
    by (intro adpcm_decode_block_spec) simp_all
  then obtain out where "adpcm_decode_block (replicate 130 0) (replicate 72 0) 2 = Inr (65, out)"
      "\<forall>p < 130. out ! p = fst (ref_channel (replicate 72 0) 2 (p mod 2) (p div 2))"
    by auto
  moreover from this(2) have "out ! 129 = fst (ref_channel (replicate 72 0) 2 (129 mod 2) (129 div 2))" by simp
  ultimately show ?thesis by simp
qed

end
