(* ===== verification/NvNet.thy ===== *)
theory NvNet
  imports Xbox_Prelude
begin

unbundle bit_operations_syntax

text \<open>
  The Ethernet controller (\<open>hw/xbox/mcpx/nvnet/nvnet.c\<close>).  The state has the registers as the bytes of the MMIO window,
  the physical layer, the transmit buffer, and what the device sees and does outside of it: the memory of the guest
  behind \<open>pci_dma_read\<close> and \<open>pci_dma_write\<close>, the packets sent, the interrupt line, whether the network
  side of the link is down and whether the negotiation timer is set.
\<close>

abbreviation (input) MMIO_SIZE :: nat where "MMIO_SIZE \<equiv> 0x400"
abbreviation (input) PHY_ADDR :: u8 where "PHY_ADDR \<equiv> 1"
abbreviation (input) RX_ALLOC_BUFSIZE :: nat where "RX_ALLOC_BUFSIZE \<equiv> 1628"
abbreviation (input) TX_ALLOC_BUFSIZE :: nat where "TX_ALLOC_BUFSIZE \<equiv> 1628"

abbreviation (input) NVNET_IRQ_STATUS :: nat where "NVNET_IRQ_STATUS \<equiv> 0x000"
abbreviation (input) NVNET_IRQ_MASK :: nat where "NVNET_IRQ_MASK \<equiv> 0x004"
abbreviation (input) NVNET_TRANSMITTER_CONTROL :: nat where "NVNET_TRANSMITTER_CONTROL \<equiv> 0x084"
abbreviation (input) NVNET_PACKET_FILTER :: nat where "NVNET_PACKET_FILTER \<equiv> 0x08C"
abbreviation (input) NVNET_RECEIVER_CONTROL :: nat where "NVNET_RECEIVER_CONTROL \<equiv> 0x094"
abbreviation (input) NVNET_MAC_ADDR_A :: nat where "NVNET_MAC_ADDR_A \<equiv> 0x0A8"
abbreviation (input) NVNET_MULTICAST_ADDR_A :: nat where "NVNET_MULTICAST_ADDR_A \<equiv> 0x0B0"
abbreviation (input) NVNET_MULTICAST_MASK_A :: nat where "NVNET_MULTICAST_MASK_A \<equiv> 0x0B8"
abbreviation (input) NVNET_TX_RING_PHYS_ADDR :: nat where "NVNET_TX_RING_PHYS_ADDR \<equiv> 0x100"
abbreviation (input) NVNET_RX_RING_PHYS_ADDR :: nat where "NVNET_RX_RING_PHYS_ADDR \<equiv> 0x104"
abbreviation (input) NVNET_RING_SIZE :: nat where "NVNET_RING_SIZE \<equiv> 0x108"
abbreviation (input) NVNET_TX_RING_CURRENT_DESC_PHYS_ADDR :: nat where "NVNET_TX_RING_CURRENT_DESC_PHYS_ADDR \<equiv> 0x11C"
abbreviation (input) NVNET_RX_RING_CURRENT_DESC_PHYS_ADDR :: nat where "NVNET_RX_RING_CURRENT_DESC_PHYS_ADDR \<equiv> 0x120"
abbreviation (input) NVNET_UNKNOWN_SETUP_REG5 :: nat where "NVNET_UNKNOWN_SETUP_REG5 \<equiv> 0x130"
abbreviation (input) NVNET_TX_RING_NEXT_DESC_PHYS_ADDR :: nat where "NVNET_TX_RING_NEXT_DESC_PHYS_ADDR \<equiv> 0x134"
abbreviation (input) NVNET_RX_RING_NEXT_DESC_PHYS_ADDR :: nat where "NVNET_RX_RING_NEXT_DESC_PHYS_ADDR \<equiv> 0x138"
abbreviation (input) NVNET_TX_RX_CONTROL :: nat where "NVNET_TX_RX_CONTROL \<equiv> 0x144"
abbreviation (input) NVNET_MII_STATUS :: nat where "NVNET_MII_STATUS \<equiv> 0x180"
abbreviation (input) NVNET_ADAPTER_CONTROL :: nat where "NVNET_ADAPTER_CONTROL \<equiv> 0x188"
abbreviation (input) NVNET_MDIO_ADDR :: nat where "NVNET_MDIO_ADDR \<equiv> 0x190"
abbreviation (input) NVNET_MDIO_DATA :: nat where "NVNET_MDIO_DATA \<equiv> 0x194"

abbreviation (input) NVNET_IRQ_STATUS_RX :: u32 where "NVNET_IRQ_STATUS_RX \<equiv> 0x2"
abbreviation (input) NVNET_IRQ_STATUS_TX :: u32 where "NVNET_IRQ_STATUS_TX \<equiv> 0x10"
abbreviation (input) NVNET_IRQ_STATUS_MIIEVENT :: u32 where "NVNET_IRQ_STATUS_MIIEVENT \<equiv> 0x40"
abbreviation (input) NVNET_TRANSMITTER_CONTROL_START :: u32 where "NVNET_TRANSMITTER_CONTROL_START \<equiv> 1"
abbreviation (input) NVNET_RECEIVER_CONTROL_START :: u32 where "NVNET_RECEIVER_CONTROL_START \<equiv> 1"
abbreviation (input) NVNET_PACKET_FILTER_MYADDR :: u32 where "NVNET_PACKET_FILTER_MYADDR \<equiv> 0x20"
abbreviation (input) NVNET_RING_SIZE_TX :: u32 where "NVNET_RING_SIZE_TX \<equiv> 0x0000FFFF"
abbreviation (input) NVNET_RING_SIZE_RX :: u32 where "NVNET_RING_SIZE_RX \<equiv> 0xFFFF0000"
abbreviation (input) NVNET_TX_RX_CONTROL_KICK :: u32 where "NVNET_TX_RX_CONTROL_KICK \<equiv> 0x1"
abbreviation (input) NVNET_TX_RX_CONTROL_BIT1 :: u32 where "NVNET_TX_RX_CONTROL_BIT1 \<equiv> 0x2"
abbreviation (input) NVNET_TX_RX_CONTROL_BIT2 :: u32 where "NVNET_TX_RX_CONTROL_BIT2 \<equiv> 0x4"
abbreviation (input) NVNET_TX_RX_CONTROL_IDLE :: u32 where "NVNET_TX_RX_CONTROL_IDLE \<equiv> 0x8"
abbreviation (input) NVNET_TX_RX_CONTROL_RESET :: u32 where "NVNET_TX_RX_CONTROL_RESET \<equiv> 0x10"
abbreviation (input) NVNET_MII_STATUS_LINKCHANGE :: u32 where "NVNET_MII_STATUS_LINKCHANGE \<equiv> 0x8"
abbreviation (input) NVNET_ADAPTER_CONTROL_LINKUP :: u32 where "NVNET_ADAPTER_CONTROL_LINKUP \<equiv> 0x4"
abbreviation (input) NVNET_MDIO_ADDR_INUSE :: u32 where "NVNET_MDIO_ADDR_INUSE \<equiv> 0x8000"
abbreviation (input) NVNET_MDIO_ADDR_WRITE :: u32 where "NVNET_MDIO_ADDR_WRITE \<equiv> 0x400"
abbreviation (input) NVNET_MDIO_ADDR_PHYADDR :: u32 where "NVNET_MDIO_ADDR_PHYADDR \<equiv> 0x3E0"
abbreviation (input) NVNET_MDIO_ADDR_PHYREG :: u32 where "NVNET_MDIO_ADDR_PHYREG \<equiv> 0x1F"
abbreviation (input) NV_TX_LASTPACKET :: u16 where "NV_TX_LASTPACKET \<equiv> 0x1"
abbreviation (input) NV_TX_VALID :: u16 where "NV_TX_VALID \<equiv> 0x8000"
abbreviation (input) NV_TX_CLEARED :: u16 where "NV_TX_CLEARED \<equiv> 0xFC08"
abbreviation (input) NV_RX_DESCRIPTORVALID :: u16 where "NV_RX_DESCRIPTORVALID \<equiv> 0x1"
abbreviation (input) NV_RX_BIT4 :: u16 where "NV_RX_BIT4 \<equiv> 0x10"
abbreviation (input) NV_RX_AVAIL :: u16 where "NV_RX_AVAIL \<equiv> 0x8000"

abbreviation (input) MII_BMCR :: nat where "MII_BMCR \<equiv> 0"
abbreviation (input) MII_BMSR :: nat where "MII_BMSR \<equiv> 1"
abbreviation (input) MII_ANAR :: nat where "MII_ANAR \<equiv> 4"
abbreviation (input) MII_ANLPAR :: nat where "MII_ANLPAR \<equiv> 5"
abbreviation (input) MII_BMCR_AUTOEN :: u32 where "MII_BMCR_AUTOEN \<equiv> 0x1000"
abbreviation (input) MII_BMCR_FD :: u32 where "MII_BMCR_FD \<equiv> 0x100"
abbreviation (input) MII_BMSR_AN_COMP :: u32 where "MII_BMSR_AN_COMP \<equiv> 0x20"
abbreviation (input) MII_BMSR_AUTONEG :: u32 where "MII_BMSR_AUTONEG \<equiv> 0x8"
abbreviation (input) MII_BMSR_LINK_ST :: u32 where "MII_BMSR_LINK_ST \<equiv> 0x4"
abbreviation (input) MII_ANLPAR_ACK :: u32 where "MII_ANLPAR_ACK \<equiv> 0x4000"
abbreviation (input) MII_ANLPAR_ALL :: u32 where "MII_ANLPAR_ALL \<equiv> 0x3E0"

record nvnet =
  nn_regs :: "u8 list"
  phy_regs :: "u32 list"
  tx_dma_buf_offset :: u32
  tx_dma_buf :: "u8 list"
  rx_dma_buf :: "u8 list"
  tx_ring_index :: u8
  rx_ring_index :: u8
  nn_mem :: "hwaddr \<Rightarrow> u8"
  nn_sent :: "u8 list list"
  nn_irq :: bool
  nn_link_down :: bool
  nn_autoneg :: bool

record ring_desc =
  rd_buffer_addr :: u32
  rd_length :: u16
  rd_flags :: u16

section \<open>Registers\<close>

text \<open>The device itself uses constant, aligned addresses, for which the assertions of \<open>get_reg_ext\<close> hold.\<close>

definition get_reg_ext :: "hwaddr \<Rightarrow> nat \<Rightarrow> nvnet \<Rightarrow> u32 res" where
  "get_reg_ext addr sz s =
    (let a = unat addr in
     check (a < MMIO_SIZE) (AssertFail ''addr < MMIO_SIZE'')
       (check (a mod sz = 0) (AssertFail ''addr aligned'')
         (if sz = 4 then Inr (le32 (nn_regs s ! a) (nn_regs s ! (a + 1)) (nn_regs s ! (a + 2)) (nn_regs s ! (a + 3)))
          else if sz = 2 then Inr (le32 (nn_regs s ! a) (nn_regs s ! (a + 1)) 0 0)
          else if sz = 1 then Inr (ucast (nn_regs s ! a))
          else Inl (AssertFail ''Unsupported register access''))))"

definition get_reg :: "nat \<Rightarrow> nvnet \<Rightarrow> u32" where
  "get_reg a s = le32 (nn_regs s ! a) (nn_regs s ! (a + 1)) (nn_regs s ! (a + 2)) (nn_regs s ! (a + 3))"

definition set_reg :: "nat \<Rightarrow> u32 \<Rightarrow> nvnet \<Rightarrow> nvnet" where
  "set_reg a v s = s\<lparr>nn_regs := (nn_regs s)[a := byte_of v 0, a + 1 := byte_of v 1, a + 2 := byte_of v 2, a + 3 := byte_of v 3]\<rparr>"

definition set_reg_ext :: "hwaddr \<Rightarrow> u32 \<Rightarrow> nat \<Rightarrow> nvnet \<Rightarrow> nvnet res" where
  "set_reg_ext addr v sz s =
    (let a = unat addr in
     check (a < MMIO_SIZE) (AssertFail ''addr < MMIO_SIZE'')
       (check (a mod sz = 0) (AssertFail ''addr aligned'')
         (if sz = 4 then Inr (set_reg a v s)
          else if sz = 2 then Inr (s\<lparr>nn_regs := (nn_regs s)[a := byte_of v 0, a + 1 := byte_of v 1]\<rparr>)
          else if sz = 1 then Inr (s\<lparr>nn_regs := (nn_regs s)[a := byte_of v 0]\<rparr>)
          else Inl (AssertFail ''Unsupported register access''))))"

definition or_reg :: "nat \<Rightarrow> u32 \<Rightarrow> nvnet \<Rightarrow> nvnet" where
  "or_reg a v s = set_reg a (get_reg a s OR v) s"

definition and_reg :: "nat \<Rightarrow> u32 \<Rightarrow> nvnet \<Rightarrow> nvnet" where
  "and_reg a v s = set_reg a (get_reg a s AND v) s"

definition set_reg_with_mask :: "nat \<Rightarrow> u32 \<Rightarrow> u32 \<Rightarrow> nvnet \<Rightarrow> nvnet" where
  "set_reg_with_mask a v w_mask s = set_reg a ((get_reg a s AND (v OR NOT w_mask)) OR (v AND w_mask)) s"

definition update_irq :: "nvnet \<Rightarrow> nvnet" where
  "update_irq s = s\<lparr>nn_irq := get_reg NVNET_IRQ_MASK s AND get_reg NVNET_IRQ_STATUS s \<noteq> 0\<rparr>"

definition set_intr_status :: "u32 \<Rightarrow> nvnet \<Rightarrow> nvnet" where
  "set_intr_status status s = update_irq (or_reg NVNET_IRQ_STATUS status s)"

definition set_mii_intr_status :: "u32 \<Rightarrow> nvnet \<Rightarrow> nvnet" where
  "set_mii_intr_status status s = set_intr_status NVNET_IRQ_STATUS_MIIEVENT (or_reg NVNET_MII_STATUS status s)"

definition send_packet :: "u8 list \<Rightarrow> nvnet \<Rightarrow> nvnet" where
  "send_packet buf s = s\<lparr>nn_sent := nn_sent s @ [buf]\<rparr>"

section \<open>Descriptor rings\<close>

text \<open>The sizes are 16 bits wide, so a register field of 0xFFFF gives an empty ring.\<close>

definition get_tx_ring_size :: "nvnet \<Rightarrow> u16" where
  "get_tx_ring_size s = ucast (GET_MASK (get_reg NVNET_RING_SIZE s) NVNET_RING_SIZE_TX + 1)"

definition get_rx_ring_size :: "nvnet \<Rightarrow> u16" where
  "get_rx_ring_size s = ucast (GET_MASK (get_reg NVNET_RING_SIZE s) NVNET_RING_SIZE_RX + 1)"

definition reset_descriptor_ring_pointers :: "nvnet \<Rightarrow> nvnet" where
  "reset_descriptor_ring_pointers s =
    (let base = get_reg NVNET_TX_RING_PHYS_ADDR s;
         s = set_reg NVNET_TX_RING_CURRENT_DESC_PHYS_ADDR base s;
         s = set_reg NVNET_TX_RING_NEXT_DESC_PHYS_ADDR base s;
         base = get_reg NVNET_RX_RING_PHYS_ADDR s;
         s = set_reg NVNET_RX_RING_CURRENT_DESC_PHYS_ADDR base s
     in set_reg NVNET_RX_RING_NEXT_DESC_PHYS_ADDR base s)"

definition link_up :: "nvnet \<Rightarrow> bool" where
  "link_up s \<longleftrightarrow> phy_regs s ! MII_BMSR AND MII_BMSR_LINK_ST \<noteq> 0"

definition dma_enabled :: "nvnet \<Rightarrow> bool" where
  "dma_enabled s \<longleftrightarrow> get_reg NVNET_TX_RX_CONTROL s AND NVNET_TX_RX_CONTROL_BIT2 = 0"

definition set_dma_idle :: "bool \<Rightarrow> nvnet \<Rightarrow> nvnet" where
  "set_dma_idle idle s =
    (if idle then or_reg NVNET_TX_RX_CONTROL NVNET_TX_RX_CONTROL_IDLE s
     else and_reg NVNET_TX_RX_CONTROL (NOT NVNET_TX_RX_CONTROL_IDLE) s)"

definition rx_enabled :: "nvnet \<Rightarrow> bool" where
  "rx_enabled s \<longleftrightarrow> get_reg NVNET_RECEIVER_CONTROL s AND NVNET_RECEIVER_CONTROL_START \<noteq> 0"

definition tx_enabled :: "nvnet \<Rightarrow> bool" where
  "tx_enabled s \<longleftrightarrow> get_reg NVNET_TRANSMITTER_CONTROL s AND NVNET_TRANSMITTER_CONTROL_START \<noteq> 0"

text \<open>
  The next descriptor, back at the base when it is not in the ring.  The sum with the size of a descriptor
  is a \<open>size_t\<close> and does not wrap; the end of the ring is 32 bits wide and does.
\<close>

definition ring_current :: "u32 \<Rightarrow> u16 \<Rightarrow> u32 \<Rightarrow> u32" where
  "ring_current base n cur =
    (if cur < base \<or> unat cur + 8 > unat (base + ucast n * 8) then base else cur)"

definition ring_next :: "u32 \<Rightarrow> u16 \<Rightarrow> u32 \<Rightarrow> u32" where
  "ring_next base n cur = (let next_addr = cur + 8 in if next_addr \<ge> base + ucast n * 8 then base else next_addr)"

definition update_current_rx_ring_desc_addr :: "nvnet \<Rightarrow> u32 \<times> nvnet" where
  "update_current_rx_ring_desc_addr s =
    (let cur = ring_current (get_reg NVNET_RX_RING_PHYS_ADDR s) (get_rx_ring_size s) (get_reg NVNET_RX_RING_NEXT_DESC_PHYS_ADDR s)
     in (cur, set_reg NVNET_RX_RING_CURRENT_DESC_PHYS_ADDR cur s))"

definition advance_next_rx_ring_desc_addr :: "nvnet \<Rightarrow> nvnet" where
  "advance_next_rx_ring_desc_addr s =
    set_reg NVNET_RX_RING_NEXT_DESC_PHYS_ADDR
      (ring_next (get_reg NVNET_RX_RING_PHYS_ADDR s) (get_rx_ring_size s) (get_reg NVNET_RX_RING_CURRENT_DESC_PHYS_ADDR s)) s"

definition update_current_tx_ring_desc_addr :: "nvnet \<Rightarrow> u32 \<times> nvnet" where
  "update_current_tx_ring_desc_addr s =
    (let cur = ring_current (get_reg NVNET_TX_RING_PHYS_ADDR s) (get_tx_ring_size s) (get_reg NVNET_TX_RING_NEXT_DESC_PHYS_ADDR s)
     in (cur, set_reg NVNET_TX_RING_CURRENT_DESC_PHYS_ADDR cur s))"

definition advance_next_tx_ring_desc_addr :: "nvnet \<Rightarrow> nvnet" where
  "advance_next_tx_ring_desc_addr s =
    set_reg NVNET_TX_RING_NEXT_DESC_PHYS_ADDR
      (ring_next (get_reg NVNET_TX_RING_PHYS_ADDR s) (get_tx_ring_size s) (get_reg NVNET_TX_RING_CURRENT_DESC_PHYS_ADDR s)) s"

text \<open>Guest memory: \<open>pci_dma_read\<close> and \<open>pci_dma_write\<close>.\<close>

definition dma_read :: "hwaddr \<Rightarrow> nat \<Rightarrow> nvnet \<Rightarrow> u8 list" where
  "dma_read addr n s = map (\<lambda>i. nn_mem s (addr + of_nat i)) [0..<n]"

definition dma_write :: "hwaddr \<Rightarrow> u8 list \<Rightarrow> nvnet \<Rightarrow> nvnet" where
  "dma_write addr buf s = s\<lparr>nn_mem := (\<lambda>a. if unat (a - addr) < length buf then buf ! unat (a - addr) else nn_mem s a)\<rparr>"

definition le16_pair :: "u8 \<Rightarrow> u8 \<Rightarrow> u16" where
  "le16_pair lo hi = ucast lo OR push_bit 8 (ucast hi)"

definition load_ring_desc :: "hwaddr \<Rightarrow> nvnet \<Rightarrow> ring_desc" where
  "load_ring_desc addr s =
    (let b = dma_read addr 8 s
     in \<lparr>rd_buffer_addr = le32 (b ! 0) (b ! 1) (b ! 2) (b ! 3), rd_length = le16_pair (b ! 4) (b ! 5), rd_flags = le16_pair (b ! 6) (b ! 7)\<rparr>)"

definition desc_bytes :: "ring_desc \<Rightarrow> u8 list" where
  "desc_bytes d =
    [byte_of (rd_buffer_addr d) 0, byte_of (rd_buffer_addr d) 1, byte_of (rd_buffer_addr d) 2, byte_of (rd_buffer_addr d) 3,
     ucast (rd_length d), ucast (drop_bit 8 (rd_length d)), ucast (rd_flags d), ucast (drop_bit 8 (rd_flags d))]"

definition store_ring_desc :: "hwaddr \<Rightarrow> ring_desc \<Rightarrow> nvnet \<Rightarrow> nvnet" where
  "store_ring_desc addr d = dma_write addr (desc_bytes d)"

section \<open>Receiving\<close>

definition rx_buf_available :: "nvnet \<Rightarrow> bool \<times> nvnet" where
  "rx_buf_available s =
    (let (cur, s) = update_current_rx_ring_desc_addr s
     in (rd_flags (load_ring_desc (ucast cur) s) AND NV_RX_AVAIL \<noteq> 0, s))"

definition nvnet_can_receive :: "nvnet \<Rightarrow> bool \<times> nvnet" where
  "nvnet_can_receive s =
    (let rx_en = rx_enabled s; dma_en = dma_enabled s; link_en = link_up s; (buf_avail, s) = rx_buf_available s
     in (rx_en \<and> dma_en \<and> link_en \<and> buf_avail, s))"

definition dma_packet_to_guest :: "u8 list \<Rightarrow> nvnet \<Rightarrow> (int \<times> nvnet) res" where
  "dma_packet_to_guest buf s =
    (let (can, s) = nvnet_can_receive s in
     if \<not> can then Inr (-1, s)
     else
       let s = set_dma_idle False s; (cur, s) = update_current_rx_ring_desc_addr s; desc = load_ring_desc (ucast cur) s in
       if rd_flags desc AND NV_RX_AVAIL \<noteq> 0
       then check (unat (rd_length desc) + 1 \<ge> length buf) (AssertFail ''desc.length + 1 >= size'')
         (let s = dma_write (ucast (rd_buffer_addr desc)) buf s;
              desc = desc\<lparr>rd_length := of_nat (length buf), rd_flags := NV_RX_BIT4 OR NV_RX_DESCRIPTORVALID\<rparr>;
              s = store_ring_desc (ucast cur) desc s;
              s = set_intr_status NVNET_IRQ_STATUS_RX s;
              s = advance_next_rx_ring_desc_addr s
          in Inr (int (length buf), set_dma_idle True s))
       else Inr (-1, set_dma_idle True s))"

definition is_packet_oversized :: "nat \<Rightarrow> bool" where
  "is_packet_oversized n \<longleftrightarrow> n > RX_ALLOC_BUFSIZE"

definition is_broadcast_ether_addr :: "u8 list \<Rightarrow> bool" where
  "is_broadcast_ether_addr a \<longleftrightarrow> a ! 0 AND a ! 1 AND a ! 2 AND a ! 3 AND a ! 4 AND a ! 5 = 0xff"

text \<open>The six bytes of an address register pair.\<close>

definition reg_addr :: "nat \<Rightarrow> nvnet \<Rightarrow> u8 list" where
  "reg_addr a s =
    (let lo = get_reg a s; hi = get_reg (a + 4) s
     in [byte_of lo 0, byte_of lo 1, byte_of lo 2, byte_of lo 3, byte_of hi 0, byte_of hi 1])"

definition receive_filter :: "u8 list \<Rightarrow> int \<Rightarrow> nvnet \<Rightarrow> bool" where
  "receive_filter buf n s \<longleftrightarrow>
    (if n < 6 then False
     else if is_broadcast_ether_addr buf then True
     else if get_reg NVNET_PACKET_FILTER s AND NVNET_PACKET_FILTER_MYADDR = 0 then True
     else if \<not> is_broadcast_ether_addr (reg_addr NVNET_MULTICAST_ADDR_A s) \<and>
         map2 (AND) (take 6 buf) (reg_addr NVNET_MULTICAST_MASK_A s) = reg_addr NVNET_MULTICAST_ADDR_A s then True
     else take 6 buf = reg_addr NVNET_MAC_ADDR_A s)"

definition nvnet_receive_iov :: "u8 list list \<Rightarrow> nvnet \<Rightarrow> (int \<times> nvnet) res" where
  "nvnet_receive_iov iov s =
    (let buf = concat iov; n = length buf in
     if is_packet_oversized n then Inr (int n, s)
     else let s = s\<lparr>rx_dma_buf := buf @ drop n (rx_dma_buf s)\<rparr> in
       if \<not> receive_filter (rx_dma_buf s) (int n) s then Inr (int n, s)
       else dma_packet_to_guest (take n (rx_dma_buf s)) s)"

definition nvnet_receive :: "u8 list \<Rightarrow> nvnet \<Rightarrow> (int \<times> nvnet) res" where
  "nvnet_receive buf = nvnet_receive_iov [buf]"

section \<open>Transmitting\<close>

definition can_transmit :: "nvnet \<Rightarrow> bool" where
  "can_transmit s \<longleftrightarrow> tx_enabled s \<and> dma_enabled s \<and> link_up s"

text \<open>One turn of the loop: whether it goes on, and whether a packet was sent.\<close>

definition tx_step :: "nvnet \<Rightarrow> (bool \<times> bool \<times> nvnet) res" where
  "tx_step s =
    (let (cur, s) = update_current_tx_ring_desc_addr s; desc = load_ring_desc (ucast cur) s; len = rd_length desc + 1 in
     if rd_flags desc AND NV_TX_VALID = 0 then Inr (False, False, s)
     else check (tx_dma_buf_offset s + ucast len \<le> of_nat TX_ALLOC_BUFSIZE) (AssertFail ''tx_dma_buf_offset + length <= sizeof(tx_dma_buf)'')
       (let off = unat (tx_dma_buf_offset s); bytes = dma_read (ucast (rd_buffer_addr desc)) (unat len) s;
            s = s\<lparr>tx_dma_buf := take off (tx_dma_buf s) @ bytes @ drop (off + unat len) (tx_dma_buf s),
                  tx_dma_buf_offset := tx_dma_buf_offset s + ucast len\<rparr>;
            is_last = (rd_flags desc AND NV_TX_LASTPACKET \<noteq> 0);
            s = (if is_last then (send_packet (take (unat (tx_dma_buf_offset s)) (tx_dma_buf s)) s)\<lparr>tx_dma_buf_offset := 0\<rparr> else s);
            desc = desc\<lparr>rd_flags := rd_flags desc AND NOT NV_TX_CLEARED\<rparr>;
            s = store_ring_desc (ucast cur) desc s;
            s = advance_next_tx_ring_desc_addr s
        in Inr (\<not> is_last, is_last, s)))"

text \<open>The ring size is read again in each turn and does not change: \<open>n\<close> counts the turns left.\<close>

fun tx_loop :: "nat \<Rightarrow> bool \<Rightarrow> nvnet \<Rightarrow> (bool \<times> nvnet) res" where
  "tx_loop 0 packet_sent s = Inr (packet_sent, s)"
| "tx_loop (Suc n) packet_sent s =
    bind_res (tx_step s) (\<lambda>(more, sent, s).
      if more then tx_loop n packet_sent s else Inr (packet_sent \<or> sent, s))"

definition dma_packet_from_guest :: "nvnet \<Rightarrow> nvnet res" where
  "dma_packet_from_guest s =
    (if \<not> can_transmit s then Inr s
     else bind_res (tx_loop (unat (get_tx_ring_size s)) False (set_dma_idle False s)) (\<lambda>(packet_sent, s).
       let s = set_dma_idle True s in
       Inr (if packet_sent then set_intr_status NVNET_IRQ_STATUS_TX s else s)))"

section \<open>The link\<close>

definition phy_upd :: "nat \<Rightarrow> (u32 \<Rightarrow> u32) \<Rightarrow> nvnet \<Rightarrow> nvnet" where
  "phy_upd r f s = s\<lparr>phy_regs := (phy_regs s)[r := f (phy_regs s ! r)]\<rparr>"

definition update_regs_on_link_down :: "nvnet \<Rightarrow> nvnet" where
  "update_regs_on_link_down s =
    (let s = phy_upd MII_BMSR (\<lambda>v. v AND NOT MII_BMSR_LINK_ST) s;
         s = phy_upd MII_BMSR (\<lambda>v. v AND NOT MII_BMSR_AN_COMP) s;
         s = phy_upd MII_ANLPAR (\<lambda>v. v AND NOT MII_ANLPAR_ACK) s
     in and_reg NVNET_ADAPTER_CONTROL (NOT NVNET_ADAPTER_CONTROL_LINKUP) s)"

definition set_link_down :: "nvnet \<Rightarrow> nvnet" where
  "set_link_down s = set_mii_intr_status NVNET_MII_STATUS_LINKCHANGE (update_regs_on_link_down s)"

definition update_regs_on_link_up :: "nvnet \<Rightarrow> nvnet" where
  "update_regs_on_link_up s =
    or_reg NVNET_ADAPTER_CONTROL NVNET_ADAPTER_CONTROL_LINKUP (phy_upd MII_BMSR (\<lambda>v. v OR MII_BMSR_LINK_ST) s)"

definition set_link_up :: "nvnet \<Rightarrow> nvnet" where
  "set_link_up s = set_mii_intr_status NVNET_MII_STATUS_LINKCHANGE (update_regs_on_link_up s)"

definition restart_autoneg :: "nvnet \<Rightarrow> nvnet" where
  "restart_autoneg s = s\<lparr>nn_autoneg := True\<rparr>"

definition autoneg_done :: "nvnet \<Rightarrow> nvnet" where
  "autoneg_done s = set_link_up (phy_upd MII_BMSR (\<lambda>v. v OR MII_BMSR_AN_COMP) (phy_upd MII_ANLPAR (\<lambda>v. v OR MII_ANLPAR_ACK) s))"

text \<open>The timer runs out once after it is set.\<close>

definition autoneg_timer :: "nvnet \<Rightarrow> nvnet" where
  "autoneg_timer s = (let s = s\<lparr>nn_autoneg := False\<rparr> in if \<not> nn_link_down s then autoneg_done s else s)"

definition have_autoneg :: "nvnet \<Rightarrow> bool" where
  "have_autoneg s \<longleftrightarrow> phy_regs s ! MII_BMCR AND MII_BMCR_AUTOEN \<noteq> 0"

definition nvnet_set_link_status :: "nvnet \<Rightarrow> nvnet" where
  "nvnet_set_link_status s =
    (if nn_link_down s then set_link_down s
     else if have_autoneg s \<and> phy_regs s ! MII_BMSR AND MII_BMSR_AN_COMP = 0 then restart_autoneg s
     else set_link_up s)"

definition phy_reg_read :: "u8 \<Rightarrow> nvnet \<Rightarrow> u16" where
  "phy_reg_read r s = (if unat r < length (phy_regs s) then ucast (phy_regs s ! unat r) else 0)"

definition phy_reg_write :: "u8 \<Rightarrow> u16 \<Rightarrow> nvnet \<Rightarrow> nvnet" where
  "phy_reg_write r v s = (if unat r < length (phy_regs s) then s\<lparr>phy_regs := (phy_regs s)[unat r := ucast v]\<rparr> else s)"

definition mdio_read :: "nvnet \<Rightarrow> nvnet" where
  "mdio_read s =
    (let mdio_addr = get_reg NVNET_MDIO_ADDR s;
         phy_addr = (ucast (GET_MASK mdio_addr NVNET_MDIO_ADDR_PHYADDR) :: u8);
         phy_reg = (ucast (GET_MASK mdio_addr NVNET_MDIO_ADDR_PHYREG) :: u8);
         mdio_data = (if phy_addr = PHY_ADDR then ucast (phy_reg_read phy_reg s) else - 1)
     in and_reg NVNET_MDIO_ADDR (NOT NVNET_MDIO_ADDR_INUSE) (set_reg NVNET_MDIO_DATA mdio_data s))"

definition mdio_write :: "nvnet \<Rightarrow> nvnet" where
  "mdio_write s =
    (let mdio_addr = get_reg NVNET_MDIO_ADDR s; mdio_data = get_reg NVNET_MDIO_DATA s;
         phy_addr = (ucast (GET_MASK mdio_addr NVNET_MDIO_ADDR_PHYADDR) :: u8);
         phy_reg = (ucast (GET_MASK mdio_addr NVNET_MDIO_ADDR_PHYREG) :: u8);
         s = (if phy_addr = PHY_ADDR then phy_reg_write phy_reg (ucast mdio_data) s else s)
     in and_reg NVNET_MDIO_ADDR (NOT NVNET_MDIO_ADDR_INUSE) s)"

section \<open>The MMIO window and reset\<close>

definition nvnet_mmio_read :: "hwaddr \<Rightarrow> nat \<Rightarrow> nvnet \<Rightarrow> u64 res" where
  "nvnet_mmio_read addr sz s = bind_res (get_reg_ext addr sz s) (\<lambda>v. Inr (ucast v))"

definition tx_rx_control_write :: "u64 \<Rightarrow> nvnet \<Rightarrow> nvnet res" where
  "tx_rx_control_write val s =
    (let v = (ucast val :: u32); s = set_reg_with_mask NVNET_TX_RX_CONTROL v (NOT NVNET_TX_RX_CONTROL_IDLE) s in
     bind_res (if v AND NVNET_TX_RX_CONTROL_KICK \<noteq> 0 then dma_packet_from_guest s else Inr s) (\<lambda>s.
     let s = (if v AND NVNET_TX_RX_CONTROL_RESET \<noteq> 0 then (reset_descriptor_ring_pointers s)\<lparr>tx_dma_buf_offset := 0\<rparr> else s) in
     Inr (if v AND NVNET_TX_RX_CONTROL_BIT1 \<noteq> 0 then set_reg NVNET_IRQ_STATUS 0 s
          else if val = 0 then set_reg NVNET_UNKNOWN_SETUP_REG5 0x80000000 s
          else s)))"

definition nvnet_mmio_write :: "hwaddr \<Rightarrow> u64 \<Rightarrow> nat \<Rightarrow> nvnet \<Rightarrow> nvnet res" where
  "nvnet_mmio_write addr val sz s =
    check (addr AND 3 = 0) (AssertFail ''Unaligned MMIO write'')
      (if unat addr = NVNET_MDIO_ADDR then
         check (sz = 4) (AssertFail ''size == 4'')
           (bind_res (set_reg_ext addr (ucast val) sz s) (\<lambda>s.
            Inr (if (ucast val :: u32) AND NVNET_MDIO_ADDR_WRITE \<noteq> 0 then mdio_write s else mdio_read s)))
       else if unat addr = NVNET_TX_RX_CONTROL then tx_rx_control_write val s
       else if unat addr = NVNET_IRQ_STATUS \<or> unat addr = NVNET_MII_STATUS then
         bind_res (get_reg_ext addr sz s) (\<lambda>v.
         bind_res (set_reg_ext addr (v AND NOT (ucast val)) sz s) (\<lambda>s. Inr (update_irq s)))
       else if unat addr = NVNET_IRQ_MASK then bind_res (set_reg_ext addr (ucast val) sz s) (\<lambda>s. Inr (update_irq s))
       else set_reg_ext addr (ucast val) sz s)"

definition phy_reg_init :: "u32 list" where
  "phy_reg_init = [MII_BMCR_FD OR MII_BMCR_AUTOEN, MII_BMSR_AUTONEG OR MII_BMSR_AN_COMP OR MII_BMSR_LINK_ST, 0, 0,
     MII_ANLPAR_ALL, MII_ANLPAR_ALL]"

definition reset_phy_regs :: "nvnet \<Rightarrow> nvnet" where
  "reset_phy_regs s = s\<lparr>phy_regs := phy_reg_init\<rparr>"

definition nvnet_reset :: "nvnet \<Rightarrow> nvnet" where
  "nvnet_reset s =
    (let s = s\<lparr>nn_regs := replicate MMIO_SIZE 0\<rparr>;
         s = or_reg NVNET_TX_RX_CONTROL NVNET_TX_RX_CONTROL_IDLE s;
         s = reset_phy_regs s;
         s = s\<lparr>tx_dma_buf := replicate TX_ALLOC_BUFSIZE 0, rx_dma_buf := replicate RX_ALLOC_BUFSIZE 0, tx_dma_buf_offset := 0,
               nn_autoneg := False\<rparr>;
         s = (if nn_link_down s then update_regs_on_link_down s else s)
     in s\<lparr>tx_ring_index := 0, rx_ring_index := 0\<rparr>)"

definition nvnet_realize :: "nvnet \<Rightarrow> nvnet" where
  "nvnet_realize s = s\<lparr>nn_regs := replicate MMIO_SIZE 0, nn_autoneg := False\<rparr>"

definition nvnet_post_load :: "nat \<Rightarrow> nvnet \<Rightarrow> nvnet res" where
  "nvnet_post_load version_id s =
    bind_res
      (if version_id < 2 then
         (let s = reset_phy_regs s in
          check (get_tx_ring_size s \<noteq> 0) DivByZero
            (let s = set_reg NVNET_TX_RING_NEXT_DESC_PHYS_ADDR
                   (get_reg NVNET_TX_RING_PHYS_ADDR s + ucast (ucast (tx_ring_index s) mod get_tx_ring_size s) * 8) s;
                 s = s\<lparr>tx_ring_index := 0\<rparr> in
             check (get_rx_ring_size s \<noteq> 0) DivByZero
               (let s = set_reg NVNET_RX_RING_NEXT_DESC_PHYS_ADDR
                      (get_reg NVNET_RX_RING_PHYS_ADDR s + ucast (ucast (rx_ring_index s) mod get_rx_ring_size s) * 8) s
                in Inr (s\<lparr>rx_ring_index := 0\<rparr>))))
       else Inr s)
      (\<lambda>s. let s = s\<lparr>nn_link_down := phy_regs s ! MII_BMSR AND MII_BMSR_LINK_ST = 0\<rparr> in
        Inr (if have_autoneg s \<and> phy_regs s ! MII_BMSR AND MII_BMSR_AN_COMP = 0
             then restart_autoneg (s\<lparr>nn_link_down := False\<rparr>) else s))"

end
