(* ===== verification/NvNet_Spec.thy ===== *)
theory NvNet_Spec
  imports NvNet
begin

unbundle bit_operations_syntax

text \<open>
  What the Ethernet controller promises its guest: the interrupt line follows the enabled status bits, except after one
  write that forgets it; a packet in a chain of descriptors is sent whole and in order; a received packet is in the
  buffer of the next descriptor and nowhere else; the registers of the physical layer hold what is written to them.
\<close>

section \<open>Registers\<close>

lemma get_set_same [simp]: "a + 3 < length (nn_regs s) \<Longrightarrow> get_reg a (set_reg a v s) = v"
  using le32_bytes [of v] by (simp add: get_reg_def set_reg_def)

lemma get_set_other [simp]: "b + 4 \<le> a \<or> a + 4 \<le> b \<Longrightarrow> get_reg a (set_reg b v s) = get_reg a s"
  by (auto simp: get_reg_def set_reg_def)

lemma set_reg_fields [simp]:
  "phy_regs (set_reg a v s) = phy_regs s" "tx_dma_buf_offset (set_reg a v s) = tx_dma_buf_offset s"
  "tx_dma_buf (set_reg a v s) = tx_dma_buf s" "rx_dma_buf (set_reg a v s) = rx_dma_buf s" "nn_mem (set_reg a v s) = nn_mem s"
  "nn_sent (set_reg a v s) = nn_sent s" "nn_irq (set_reg a v s) = nn_irq s" "nn_link_down (set_reg a v s) = nn_link_down s"
  "nn_autoneg (set_reg a v s) = nn_autoneg s" "length (nn_regs (set_reg a v s)) = length (nn_regs s)"
  by (simp_all add: set_reg_def)

lemma get_reg_updates [simp]:
  "get_reg a (s\<lparr>phy_regs := p\<rparr>) = get_reg a s" "get_reg a (s\<lparr>tx_dma_buf_offset := o1\<rparr>) = get_reg a s"
  "get_reg a (s\<lparr>tx_dma_buf := b1\<rparr>) = get_reg a s" "get_reg a (s\<lparr>rx_dma_buf := b2\<rparr>) = get_reg a s"
  "get_reg a (s\<lparr>nn_mem := m\<rparr>) = get_reg a s" "get_reg a (s\<lparr>nn_sent := x\<rparr>) = get_reg a s"
  "get_reg a (s\<lparr>nn_irq := i\<rparr>) = get_reg a s" "get_reg a (s\<lparr>nn_link_down := d\<rparr>) = get_reg a s"
  "get_reg a (s\<lparr>nn_autoneg := t\<rparr>) = get_reg a s"
  by (simp_all add: get_reg_def)

lemma get_reg_ext_word: "a < MMIO_SIZE \<Longrightarrow> a mod 4 = 0 \<Longrightarrow> get_reg_ext (of_nat a) 4 s = Inr (get_reg a s)"
  by (simp add: get_reg_ext_def get_reg_def Let_def unat_of_nat)

section \<open>The interrupt line\<close>

definition irq_ok :: "nvnet \<Rightarrow> bool" where
  "irq_ok s \<longleftrightarrow> nn_irq s = (get_reg NVNET_IRQ_MASK s AND get_reg NVNET_IRQ_STATUS s \<noteq> 0)"

lemma irq_ok_update [simp]: "irq_ok (update_irq s)"
  by (simp add: irq_ok_def update_irq_def)

lemma irq_ok_set_reg [simp]: "8 \<le> a \<Longrightarrow> irq_ok (set_reg a v s) = irq_ok s"
  by (simp add: irq_ok_def)

lemma irq_ok_fields [simp]:
  "irq_ok (s\<lparr>phy_regs := p\<rparr>) = irq_ok s" "irq_ok (s\<lparr>tx_dma_buf_offset := o1\<rparr>) = irq_ok s"
  "irq_ok (s\<lparr>tx_dma_buf := b1\<rparr>) = irq_ok s" "irq_ok (s\<lparr>rx_dma_buf := b2\<rparr>) = irq_ok s" "irq_ok (s\<lparr>nn_mem := m\<rparr>) = irq_ok s"
  "irq_ok (s\<lparr>nn_sent := x\<rparr>) = irq_ok s" "irq_ok (s\<lparr>nn_link_down := d\<rparr>) = irq_ok s" "irq_ok (s\<lparr>nn_autoneg := t\<rparr>) = irq_ok s"
  by (simp_all add: irq_ok_def)

lemma irq_ok_intr [simp]: "irq_ok (set_intr_status v s)" "irq_ok (set_mii_intr_status v s)"
  by (simp_all add: set_intr_status_def set_mii_intr_status_def)

lemma irq_ok_ops [simp]:
  "8 \<le> a \<Longrightarrow> irq_ok (or_reg a v s) = irq_ok s" "8 \<le> a \<Longrightarrow> irq_ok (and_reg a v s) = irq_ok s"
  "8 \<le> a \<Longrightarrow> irq_ok (set_reg_with_mask a v w s) = irq_ok s"
  "irq_ok (set_dma_idle i s) = irq_ok s" "irq_ok (dma_write d bs s) = irq_ok s" "irq_ok (store_ring_desc d rd s) = irq_ok s"
  "irq_ok (send_packet bs s) = irq_ok s" "irq_ok (advance_next_rx_ring_desc_addr s) = irq_ok s"
  "irq_ok (advance_next_tx_ring_desc_addr s) = irq_ok s" "irq_ok (reset_descriptor_ring_pointers s) = irq_ok s"
  "irq_ok (snd (update_current_rx_ring_desc_addr s)) = irq_ok s" "irq_ok (snd (update_current_tx_ring_desc_addr s)) = irq_ok s"
  "irq_ok (phy_upd r f s) = irq_ok s" "irq_ok (phy_reg_write r' v' s) = irq_ok s"
  by (simp_all add: or_reg_def and_reg_def set_reg_with_mask_def set_dma_idle_def dma_write_def store_ring_desc_def send_packet_def
    advance_next_rx_ring_desc_addr_def advance_next_tx_ring_desc_addr_def reset_descriptor_ring_pointers_def
    update_current_rx_ring_desc_addr_def update_current_tx_ring_desc_addr_def phy_upd_def phy_reg_write_def Let_def)

lemma irq_ok_link [simp]: "irq_ok (set_link_down s)" "irq_ok (set_link_up s)" "irq_ok (autoneg_done s)"
  by (simp_all add: set_link_down_def set_link_up_def autoneg_done_def)

lemma irq_ok_mdio [simp]: "irq_ok (mdio_read s) = irq_ok s" "irq_ok (mdio_write s) = irq_ok s"
  by (simp_all add: mdio_read_def mdio_write_def Let_def)

lemma irq_ok_current:
  "update_current_rx_ring_desc_addr s = (c, s') \<Longrightarrow> irq_ok s' = irq_ok s"
  "update_current_tx_ring_desc_addr s = (c, s') \<Longrightarrow> irq_ok s' = irq_ok s"
  using irq_ok_ops(11,12) [of s] by (metis snd_conv)+

lemma irq_ok_can_receive: "nvnet_can_receive s = (b, s') \<Longrightarrow> irq_ok s' = irq_ok s"
  by (auto simp: nvnet_can_receive_def rx_buf_available_def Let_def irq_ok_current split: prod.splits)

lemma irq_ok_to_guest: "dma_packet_to_guest buf s = Inr (r, s') \<Longrightarrow> irq_ok s \<Longrightarrow> irq_ok s'"
proof -
  assume a: "dma_packet_to_guest buf s = Inr (r, s')" "irq_ok s"
  obtain can s1 where s1: "nvnet_can_receive s = (can, s1)" by (cases "nvnet_can_receive s")
  obtain c s2 where s2: "update_current_rx_ring_desc_addr (set_dma_idle False s1) = (c, s2)"
    by (cases "update_current_rx_ring_desc_addr (set_dma_idle False s1)")
  have "irq_ok s1" "irq_ok s2" using a(2) irq_ok_can_receive [OF s1] irq_ok_current(1) [OF s2] by simp_all
  then show "irq_ok s'" using a(1) s1 s2 by (auto simp: dma_packet_to_guest_def Let_def split: if_splits)
qed

lemma irq_ok_tx_step: "tx_step s = Inr (m, b, s') \<Longrightarrow> irq_ok s \<Longrightarrow> irq_ok s'"
proof -
  assume a: "tx_step s = Inr (m, b, s')" "irq_ok s"
  obtain c s1 where s1: "update_current_tx_ring_desc_addr s = (c, s1)" by (cases "update_current_tx_ring_desc_addr s")
  have "irq_ok s1" using a(2) irq_ok_current(2) [OF s1] by simp
  then show "irq_ok s'" using a(1) s1 by (auto simp: tx_step_def Let_def split: if_splits)
qed

lemma irq_ok_tx_loop: "tx_loop n b s = Inr (b', s') \<Longrightarrow> irq_ok s \<Longrightarrow> irq_ok s'"
proof (induction n b s rule: tx_loop.induct)
  case (2 n b s)
  then show ?case by (auto simp: bind_res_eq_Inr irq_ok_tx_step split: if_splits)
qed simp

lemma irq_ok_from_guest: "dma_packet_from_guest s = Inr s' \<Longrightarrow> irq_ok s \<Longrightarrow> irq_ok s'"
  by (auto simp: dma_packet_from_guest_def bind_res_eq_Inr Let_def split: if_splits dest!: irq_ok_tx_loop)

lemma irq_ok_set_reg_ext: "set_reg_ext addr v sz s = Inr s' \<Longrightarrow> 8 \<le> unat addr \<Longrightarrow> irq_ok s \<Longrightarrow> irq_ok s'"
  by (auto simp: set_reg_ext_def Let_def irq_ok_def get_reg_def set_reg_def split: if_splits)


text \<open>What happens to the device: an access of the guest, a packet, a change of the link, the timer.\<close>

datatype nvnet_event = Mmio_Write hwaddr u64 nat | Mmio_Read hwaddr nat | Packet "u8 list list" | Link bool | Timer

fun nvnet_step :: "nvnet_event \<Rightarrow> nvnet \<Rightarrow> nvnet res" where
  "nvnet_step (Mmio_Write addr val sz) s = nvnet_mmio_write addr val sz s"
| "nvnet_step (Mmio_Read addr sz) s = bind_res (nvnet_mmio_read addr sz s) (\<lambda>v. Inr s)"
| "nvnet_step (Packet iov) s = bind_res (nvnet_receive_iov iov s) (\<lambda>(r, s). Inr s)"
| "nvnet_step (Link down) s = Inr (nvnet_set_link_status (s\<lparr>nn_link_down := down\<rparr>))"
| "nvnet_step Timer s = Inr (if nn_autoneg s then autoneg_timer s else s)"

fun clears_status :: "nvnet_event \<Rightarrow> bool" where
  "clears_status (Mmio_Write addr val sz) \<longleftrightarrow> unat addr = NVNET_TX_RX_CONTROL \<and> (ucast val :: u32) AND NVNET_TX_RX_CONTROL_BIT1 \<noteq> 0"
| "clears_status _ \<longleftrightarrow> False"

lemma irq_ok_mmio_write:
  assumes "nvnet_mmio_write addr val sz s = Inr s'" "irq_ok s" "\<not> clears_status (Mmio_Write addr val sz)"
  shows "irq_ok s'"
proof -
  have al: "addr AND 3 = 0" using assms(1) by (simp add: nvnet_mmio_write_def)
  have "unat addr mod 4 = 0"
  proof -
    have m: "(3 :: u64) = mask 2" by (simp add: mask_eq_exp_minus_1)
    have "unat (take_bit 2 addr) = 0" using al unfolding m by (simp add: take_bit_eq_mask)
    then show ?thesis by (simp add: unat_take_bit_mod)
  qed
  then have big: "8 \<le> unat addr" if "unat addr \<noteq> NVNET_IRQ_STATUS" "unat addr \<noteq> NVNET_IRQ_MASK"
    using that by presburger
  show ?thesis
    using assms big irq_ok_set_reg_ext [of addr _ sz s] irq_ok_from_guest
    by (auto simp: nvnet_mmio_write_def tx_rx_control_write_def bind_res_eq_Inr Let_def split: if_splits)
qed

lemma irq_ok_step: "nvnet_step ev s = Inr s' \<Longrightarrow> irq_ok s \<Longrightarrow> \<not> clears_status ev \<Longrightarrow> irq_ok s'"
proof (cases ev)
  case (Mmio_Write addr val sz)
  assume "nvnet_step ev s = Inr s'" "irq_ok s" "\<not> clears_status ev"
  then show ?thesis using irq_ok_mmio_write [of addr val sz s s'] Mmio_Write by simp
next
  case (Packet iov)
  assume "nvnet_step ev s = Inr s'" "irq_ok s"
  then show ?thesis using Packet
    by (auto simp: bind_res_eq_Inr nvnet_receive_iov_def Let_def split: if_splits dest!: irq_ok_to_guest)
next
  case (Link down)
  assume "nvnet_step ev s = Inr s'" "irq_ok s"
  then show ?thesis using Link by (auto simp: nvnet_set_link_status_def restart_autoneg_def)
next
  case Timer
  assume "nvnet_step ev s = Inr s'" "irq_ok s"
  then show ?thesis using Timer by (auto simp: autoneg_timer_def Let_def)
qed (auto simp: bind_res_eq_Inr)

text \<open>C22: From a consistent state, the interrupt line is up exactly when an enabled status bit is set, after any
  events among which none writes bit 1 of the control register.\<close>

theorem nvnet_irq_line_consistent:
  assumes "irq_ok s" "\<forall>ev \<in> set evs. \<not> clears_status ev" "fold_res nvnet_step evs s = Inr s'"
  shows "nn_irq s' = (get_reg NVNET_IRQ_MASK s' AND get_reg NVNET_IRQ_STATUS s' \<noteq> 0)"
proof -
  have "irq_ok s'" using assms
  proof (induction evs arbitrary: s)
    case (Cons ev evs)
    then obtain t where t: "nvnet_step ev s = Inr t" "fold_res nvnet_step evs t = Inr s'" by (auto simp: bind_res_eq_Inr)
    have "irq_ok t" using irq_ok_step [OF t(1)] Cons.prems by simp
    then show ?case using Cons.IH [OF _ _ t(2)] Cons.prems by simp
  qed simp
  then show ?thesis by (simp add: irq_ok_def)
qed

text \<open>C24: Writing bit 1 of the control register with the kick bit clear sets every interrupt status bit to 0 but leaves the line
  as it was, so a line that was up stays up with no status bit set.\<close>

theorem nvnet_control_bit1_stale_line:
  assumes "val AND NVNET_TX_RX_CONTROL_KICK = 0" "val AND NVNET_TX_RX_CONTROL_BIT1 \<noteq> 0" "length (nn_regs s) = MMIO_SIZE"
  shows "\<exists>s'. nvnet_mmio_write (of_nat NVNET_TX_RX_CONTROL) (ucast (val :: u32)) 4 s = Inr s' \<and>
    get_reg NVNET_IRQ_STATUS s' = 0 \<and> nn_irq s' = nn_irq s \<and> irq_ok s' = (\<not> nn_irq s)"
  using assms
  by (simp add: nvnet_mmio_write_def tx_rx_control_write_def set_reg_with_mask_def reset_descriptor_ring_pointers_def Let_def irq_ok_def)

section \<open>Rings and guest memory\<close>

definition ring_slot :: "u32 \<Rightarrow> nat \<Rightarrow> nat \<Rightarrow> u32" where
  "ring_slot base n k = base + of_nat (8 * (k mod n))"

lemma unat_ring_slot:
  assumes "unat base + 8 * n < 2 ^ 32" "0 < n"
  shows "unat (ring_slot base n k) = unat base + 8 * (k mod n)"
proof -
  have "k mod n < n" using assms(2) by simp
  then have "unat base + 8 * (k mod n) < 2 ^ 32" using assms(1) by linarith
  then show ?thesis unfolding ring_slot_def by (simp add: unat_word_ariths unat_of_nat)
qed

lemma unat_ring_end:
  assumes "unat base + 8 * unat (n :: u16) < 2 ^ 32"
  shows "unat (base + ucast n * 8 :: u32) = unat base + 8 * unat n"
  using assms by (simp add: unat_word_ariths)

text \<open>The pointers of a ring that ends below 4 GB count slots modulo its size.\<close>

lemma ring_current_slot:
  assumes "unat base + 8 * unat n < 2 ^ 32" "n \<noteq> 0"
  shows "ring_current base n (ring_slot base (unat n) k) = ring_slot base (unat n) k"
proof -
  have n: "0 < unat n" using assms(2) by (simp add: word_unat_eq_iff)
  have "k mod unat n < unat n" using n by simp
  then have "unat (ring_slot base (unat n) k) + 8 \<le> unat (base + ucast n * 8)" "unat base \<le> unat (ring_slot base (unat n) k)"
    unfolding unat_ring_slot [OF assms(1) n] unat_ring_end [OF assms(1)] by simp_all
  then show ?thesis by (simp add: ring_current_def word_less_nat_alt)
qed

lemma ring_next_slot:
  assumes "unat base + 8 * unat n < 2 ^ 32" "n \<noteq> 0"
  shows "ring_next base n (ring_slot base (unat n) k) = ring_slot base (unat n) (Suc k)"
proof -
  have n: "0 < unat n" using assms(2) by (simp add: word_unat_eq_iff)
  have k: "k mod unat n < unat n" using n by simp
  then have u: "unat (ring_slot base (unat n) k + 8) = unat base + 8 * (k mod unat n + 1)"
    using unat_ring_slot [OF assms(1) n, of k] assms(1) by (simp add: unat_word_ariths)
  have e: "ring_slot base (unat n) k + 8 \<ge> base + ucast n * 8 \<longleftrightarrow> k mod unat n + 1 = unat n"
    using k unfolding word_le_nat_alt u unat_ring_end [OF assms(1)] by auto
  have s: "Suc k mod unat n = (if k mod unat n + 1 = unat n then 0 else k mod unat n + 1)" by (simp add: mod_Suc)
  show ?thesis unfolding ring_next_def Let_def e using s by (simp add: ring_slot_def algebra_simps)
qed

lemma unat_diff_window:
  fixes a x :: hwaddr
  assumes "unat a + n \<le> 2 ^ 64" "0 < n"
  shows "unat (x - a) < n \<longleftrightarrow> unat a \<le> unat x \<and> unat x < unat a + n"
proof (cases "a \<le> x")
  case True
  then show ?thesis by (auto simp: unat_sub word_le_nat_alt)
next
  case False
  then have l: "unat x < unat a" by (simp add: word_less_nat_alt not_le)
  then have "unat (x - a) = 2 ^ 64 + unat x - unat a"
    using unsigned_less [where ?'a = nat, of a] by (simp add: unat_sub_if')
  then show ?thesis using l assms by auto
qed

lemma dma_write_mem:
  assumes "unat a + length bs \<le> 2 ^ 64" "bs \<noteq> []"
  shows "nn_mem (dma_write a bs s) x = (if unat a \<le> unat x \<and> unat x < unat a + length bs then bs ! (unat x - unat a) else nn_mem s x)"
  using unat_diff_window [OF assms(1), of x] assms(2) by (auto simp: dma_write_def unat_sub word_le_nat_alt)

lemma unat_dma_addr: "unat (a :: hwaddr) + n \<le> 2 ^ 64 \<Longrightarrow> i < n \<Longrightarrow> unat (a + of_nat i) = unat a + i"
  by (simp add: unat_word_ariths unat_of_nat)

definition apart :: "hwaddr \<Rightarrow> nat \<Rightarrow> hwaddr \<Rightarrow> nat \<Rightarrow> bool" where
  "apart a m b n \<longleftrightarrow> unat a + m \<le> 2 ^ 64 \<and> unat b + n \<le> 2 ^ 64 \<and> (unat a + m \<le> unat b \<or> unat b + n \<le> unat a)"

lemma dma_read_write_other: "apart a (length bs) b n \<Longrightarrow> dma_read b n (dma_write a bs s) = dma_read b n s"
proof (cases "bs = []")
  case False
  assume "apart a (length bs) b n"
  then show ?thesis using False
    by (auto simp: dma_read_def apart_def dma_write_mem unat_dma_addr [of b n])
qed (simp add: dma_write_def)

lemma dma_read_write_same: "unat a + length bs \<le> 2 ^ 64 \<Longrightarrow> dma_read a (length bs) (dma_write a bs s) = bs"
proof (cases "bs = []")
  case False
  assume "unat a + length bs \<le> 2 ^ 64"
  then show ?thesis using False
    by (auto simp: dma_read_def dma_write_mem unat_dma_addr [of a "length bs"] intro!: nth_equalityI)
qed (simp add: dma_read_def)

lemma desc_bytes_length [simp]: "length (desc_bytes d) = 8"
  by (simp add: desc_bytes_def)

lemma le16_bytes [simp]: "le16_pair (ucast w) (ucast (drop_bit 8 w)) = (w :: u16)"
  by (rule bit_word_eqI) (auto simp: le16_pair_def bit_simps)

lemma load_store_same: "unat a + 8 \<le> 2 ^ 64 \<Longrightarrow> load_ring_desc a (store_ring_desc a d s) = d"
proof -
  assume "unat a + 8 \<le> 2 ^ 64"
  then have "dma_read a 8 (store_ring_desc a d s) = desc_bytes d"
    using dma_read_write_same [of a "desc_bytes d" s] by (simp add: store_ring_desc_def)
  then show ?thesis using le32_bytes [of "rd_buffer_addr d"]
    by (cases d) (simp add: load_ring_desc_def Let_def desc_bytes_def)
qed

lemma load_store_other: "apart a 8 b 8 \<Longrightarrow> load_ring_desc b (store_ring_desc a d s) = load_ring_desc b s"
  using dma_read_write_other [of a "desc_bytes d" b 8 s] by (simp add: store_ring_desc_def load_ring_desc_def)

lemma slots_apart:
  assumes "unat base + 8 * n < 2 ^ 32" "i mod n \<noteq> j mod n" "0 < n"
  shows "apart (ucast (ring_slot base n i)) 8 (ucast (ring_slot base n j)) 8"
proof -
  obtain x y where x: "x = i mod n" "y = j mod n" "x < n" "y < n" using assms(3) by simp
  then have "8 * x + 8 \<le> 8 * y \<or> 8 * y + 8 \<le> 8 * x" using assms(2) by linarith
  then show ?thesis using assms(1) x(3,4) by (simp add: apart_def unat_ring_slot [OF assms(1,3)] flip: x(1,2))
qed


lemma dma_fields [simp]:
  "get_reg r (dma_write a bs s) = get_reg r s" "get_reg r (store_ring_desc a d s) = get_reg r s" "get_reg r (send_packet bs s) = get_reg r s"
  "nn_regs (dma_write a bs s) = nn_regs s" "nn_regs (store_ring_desc a d s) = nn_regs s" "nn_regs (send_packet bs s) = nn_regs s"
  "tx_dma_buf (dma_write a bs s) = tx_dma_buf s" "tx_dma_buf (store_ring_desc a d s) = tx_dma_buf s" "tx_dma_buf (send_packet bs s) = tx_dma_buf s"
  "nn_sent (dma_write a bs s) = nn_sent s" "nn_sent (store_ring_desc a d s) = nn_sent s" "nn_sent (send_packet bs s) = nn_sent s @ [bs]"
  "tx_dma_buf_offset (dma_write a bs s) = tx_dma_buf_offset s" "tx_dma_buf_offset (store_ring_desc a d s) = tx_dma_buf_offset s"
  "tx_dma_buf_offset (send_packet bs s) = tx_dma_buf_offset s" "nn_mem (send_packet bs s) = nn_mem s"
  by (simp_all add: dma_write_def store_ring_desc_def send_packet_def get_reg_def)

lemma store_mem: "nn_mem t = nn_mem s \<Longrightarrow> nn_mem (store_ring_desc a d t) = nn_mem (store_ring_desc a d s)"
  by (auto simp: store_ring_desc_def dma_write_def)

section \<open>Sending a packet\<close>

text \<open>The transmit ring of a state: its size, its slots and their descriptors.\<close>

abbreviation tx_base :: "nvnet \<Rightarrow> u32" where
  "tx_base s \<equiv> get_reg NVNET_TX_RING_PHYS_ADDR s"

abbreviation tx_count :: "nvnet \<Rightarrow> nat" where
  "tx_count s \<equiv> unat (get_tx_ring_size s)"

definition tx_slot :: "nvnet \<Rightarrow> nat \<Rightarrow> u32" where
  "tx_slot s k = ring_slot (tx_base s) (tx_count s) k"

definition tx_desc :: "nvnet \<Rightarrow> nat \<Rightarrow> ring_desc" where
  "tx_desc s k = load_ring_desc (ucast (tx_slot s k)) s"

definition desc_len :: "ring_desc \<Rightarrow> nat" where
  "desc_len d = unat (rd_length d + 1)"

definition desc_data :: "nvnet \<Rightarrow> ring_desc \<Rightarrow> u8 list" where
  "desc_data s d = dma_read (ucast (rd_buffer_addr d)) (desc_len d) s"

definition tx_ready :: "nat \<Rightarrow> nvnet \<Rightarrow> bool" where
  "tx_ready k s \<longleftrightarrow> length (nn_regs s) = MMIO_SIZE \<and> length (tx_dma_buf s) = TX_ALLOC_BUFSIZE \<and>
     unat (tx_base s) + 8 * tx_count s < 2 ^ 32 \<and> 0 < tx_count s \<and>
     get_reg NVNET_TX_RING_NEXT_DESC_PHYS_ADDR s = tx_slot s k"

text \<open>A descriptor is owned by the device, and its buffer is not in the ring.\<close>

definition tx_valid :: "nvnet \<Rightarrow> ring_desc \<Rightarrow> bool" where
  "tx_valid s d \<longleftrightarrow> rd_flags d AND NV_TX_VALID \<noteq> 0 \<and>
     (unat (rd_buffer_addr d) + desc_len d \<le> unat (tx_base s) \<or> unat (tx_base s) + 8 * tx_count s \<le> unat (rd_buffer_addr d))"

definition tx_last :: "ring_desc \<Rightarrow> bool" where
  "tx_last d \<longleftrightarrow> rd_flags d AND NV_TX_LASTPACKET \<noteq> 0"

definition tx_done :: "ring_desc \<Rightarrow> ring_desc" where
  "tx_done d = d\<lparr>rd_flags := rd_flags d AND NOT NV_TX_CLEARED\<rparr>"

text \<open>The bytes gathered so far.\<close>

definition tx_pending :: "nvnet \<Rightarrow> u8 list" where
  "tx_pending s = take (unat (tx_dma_buf_offset s)) (tx_dma_buf s)"

lemma unat_len_add:
  assumes "unat (off :: u32) + unat (l :: u16) \<le> 1628"
  shows "unat (off + ucast l) = unat off + unat l" "off + ucast l \<le> 1628"
proof -
  show u: "unat (off + ucast l) = unat off + unat l" using assms by (simp add: unat_word_ariths)
  show "off + ucast l \<le> 1628" using assms u by (simp add: word_le_nat_alt)
qed

lemma tx_step_valid:
  assumes "tx_ready k s" "tx_valid s (tx_desc s k)" "unat (tx_dma_buf_offset s) + desc_len (tx_desc s k) \<le> TX_ALLOC_BUFSIZE"
  shows "\<exists>s'. tx_step s = Inr (\<not> tx_last (tx_desc s k), tx_last (tx_desc s k), s') \<and> tx_ready (Suc k) s' \<and>
    tx_base s' = tx_base s \<and> tx_count s' = tx_count s \<and>
    nn_mem s' = nn_mem (store_ring_desc (ucast (tx_slot s k)) (tx_done (tx_desc s k)) s) \<and>
    (if tx_last (tx_desc s k)
     then nn_sent s' = nn_sent s @ [tx_pending s @ desc_data s (tx_desc s k)] \<and> tx_dma_buf_offset s' = 0
     else nn_sent s' = nn_sent s \<and> tx_pending s' = tx_pending s @ desc_data s (tx_desc s k) \<and>
       unat (tx_dma_buf_offset s') = unat (tx_dma_buf_offset s) + desc_len (tx_desc s k))"
proof -
  let ?n = "get_tx_ring_size s" and ?b = "tx_base s" and ?c = "tx_slot s k" and ?d = "tx_desc s k"
  let ?off = "unat (tx_dma_buf_offset s)" and ?l = "desc_len (tx_desc s k)"
  have n: "unat ?b + 8 * unat ?n < 2 ^ 32" "?n \<noteq> 0" using assms(1) by (auto simp: tx_ready_def word_unat_eq_iff)
  have len: "length (nn_regs s) = 1024" "length (tx_dma_buf s) = 1628" using assms(1) by (simp_all add: tx_ready_def)
  let ?s1 = "set_reg NVNET_TX_RING_CURRENT_DESC_PHYS_ADDR ?c s"
  have cur: "update_current_tx_ring_desc_addr s = (?c, ?s1)"
    using assms(1) ring_current_slot [OF n] by (simp add: update_current_tx_ring_desc_addr_def tx_ready_def tx_slot_def Let_def)
  have d1: "load_ring_desc (ucast ?c) ?s1 = ?d" by (simp add: tx_desc_def load_ring_desc_def dma_read_def)
  have r1: "dma_read a m ?s1 = dma_read a m s" for a m by (simp add: dma_read_def)
  note off = unat_len_add [of "tx_dma_buf_offset s" "rd_length ?d + 1"]
  have o: "unat (tx_dma_buf_offset s + ucast (rd_length ?d + 1)) = ?off + ?l" "tx_dma_buf_offset s + ucast (rd_length ?d + 1) \<le> 1628"
    using off assms(3) by (simp_all add: desc_len_def)
  let ?buf = "take ?off (tx_dma_buf s) @ desc_data s ?d @ drop (?off + ?l) (tx_dma_buf s)"
  let ?s2 = "?s1\<lparr>tx_dma_buf := ?buf, tx_dma_buf_offset := tx_dma_buf_offset s + ucast (rd_length ?d + 1)\<rparr>"
  let ?s3 = "if tx_last ?d then (send_packet (tx_pending s @ desc_data s ?d) ?s2)\<lparr>tx_dma_buf_offset := 0\<rparr> else ?s2"
  let ?s4 = "store_ring_desc (ucast ?c) (tx_done ?d) ?s3"
  have dl: "length (desc_data s ?d) = ?l" by (simp add: desc_data_def dma_read_def)
  have pend: "take (?off + ?l) ?buf = tx_pending s @ desc_data s ?d" using len(2) assms(3) dl by (simp add: tx_pending_def)
  have v: "rd_flags ?d AND NV_TX_VALID \<noteq> 0" using assms(2) by (simp add: tx_valid_def)
  have "tx_step s = Inr (\<not> tx_last ?d, tx_last ?d, advance_next_tx_ring_desc_addr ?s4)"
    using v o pend
    by (simp add: tx_step_def cur d1 r1 Let_def tx_last_def tx_done_def desc_data_def desc_len_def cong: if_cong)
  moreover have "advance_next_tx_ring_desc_addr ?s4 = set_reg NVNET_TX_RING_NEXT_DESC_PHYS_ADDR (tx_slot s (Suc k)) ?s4"
    using ring_next_slot [OF n, of k] len(1)
    by (simp add: advance_next_tx_ring_desc_addr_def tx_slot_def get_tx_ring_size_def)
  moreover have "tx_ready (Suc k) (set_reg NVNET_TX_RING_NEXT_DESC_PHYS_ADDR (tx_slot s (Suc k)) ?s4)"
    using assms(1,3) len dl by (simp add: tx_ready_def tx_slot_def get_tx_ring_size_def)
  moreover have "nn_mem ?s4 = nn_mem (store_ring_desc (ucast ?c) (tx_done ?d) s)" by (rule store_mem) simp
  ultimately show ?thesis
    using pend o len assms(3) by (cases "tx_last ?d") (simp_all add: get_tx_ring_size_def tx_pending_def)
qed


lemma dma_read_mem: "nn_mem t = nn_mem s \<Longrightarrow> dma_read a m t = dma_read a m s"
  by (simp add: dma_read_def)

text \<open>Reporting one descriptor leaves the others, and the buffers, as they were.\<close>

lemma tx_done_others:
  assumes "tx_ready k s" "tx_base s' = tx_base s" "tx_count s' = tx_count s"
    and "nn_mem s' = nn_mem (store_ring_desc (ucast (tx_slot s k)) e s)"
  shows "i mod tx_count s \<noteq> k mod tx_count s \<Longrightarrow> tx_desc s' i = tx_desc s i"
    and "tx_valid s d \<Longrightarrow> desc_data s' d = desc_data s d"
    and "tx_desc s' k = e"
proof -
  have n: "unat (tx_base s) + 8 * tx_count s < 2 ^ 32" "0 < tx_count s" using assms(1) by (simp_all add: tx_ready_def)
  have slot: "tx_slot s' i = tx_slot s i" for i using assms(2,3) by (simp add: tx_slot_def)
  have ld: "load_ring_desc a s' = load_ring_desc a (store_ring_desc (ucast (tx_slot s k)) e s)" for a
    using dma_read_mem [OF assms(4)] by (simp add: load_ring_desc_def)
  show "tx_desc s' i = tx_desc s i" if "i mod tx_count s \<noteq> k mod tx_count s"
    unfolding tx_desc_def slot ld
    by (rule load_store_other) (use slots_apart [OF n(1) _ n(2)] that in \<open>auto simp: tx_slot_def\<close>)
  have k: "k mod tx_count s < tx_count s" using n(2) by simp
  have sl: "unat (ucast (tx_slot s k) :: hwaddr) = unat (tx_base s) + 8 * (k mod tx_count s)"
    using unat_ring_slot [OF n, of k] by (simp add: tx_slot_def)
  show "tx_desc s' k = e" unfolding tx_desc_def slot ld
    by (rule load_store_same) (use sl k n(1) in simp)
  show "desc_data s' d = desc_data s d" if "tx_valid s d"
  proof -
    have "apart (ucast (tx_slot s k)) (length (desc_bytes e)) (ucast (rd_buffer_addr d)) (desc_len d)"
      using that sl k n(1) unsigned_less [where ?'a = nat, of "rd_buffer_addr d"]
        unsigned_less [where ?'a = nat, of "rd_length d + 1"]
      by (auto simp: apart_def tx_valid_def desc_len_def)
    then show ?thesis unfolding desc_data_def dma_read_mem [OF assms(4)] store_ring_desc_def by (rule dma_read_write_other)
  qed
qed

lemma tx_valid_base: "tx_base s' = tx_base s \<Longrightarrow> tx_count s' = tx_count s \<Longrightarrow> tx_valid s' d = tx_valid s d"
  by (simp add: tx_valid_def)

lemma mod_distinct: "k < i \<Longrightarrow> i < k + n \<Longrightarrow> i mod n \<noteq> k mod (n :: nat)"
  by (metis mod_window_neq add.right_neutral add_diff_inverse_nat diff_less_mono2 less_add_same_cancel1 less_imp_not_less nat_add_left_cancel_less not_less_iff_gr_or_eq)

lemma upt_Suc_shift: "[0..<Suc n] = 0 # map Suc [0..<n]"
  by (simp add: upt_conv_Cons map_Suc_upt del: upt_Suc)

lemma tx_loop_chain:
  assumes "tx_ready k s" "Suc m \<le> t" "Suc m \<le> tx_count s"
    and "\<And>j. j \<le> m \<Longrightarrow> tx_valid s (tx_desc s (k + j)) \<and> (tx_last (tx_desc s (k + j)) \<longleftrightarrow> j = m)"
    and "unat (tx_dma_buf_offset s) + sum_list (map (\<lambda>j. desc_len (tx_desc s (k + j))) [0..<Suc m]) \<le> TX_ALLOC_BUFSIZE"
  shows "\<exists>s'. tx_loop t False s = Inr (True, s') \<and> tx_ready (k + Suc m) s' \<and> tx_base s' = tx_base s \<and> tx_count s' = tx_count s \<and>
    nn_sent s' = nn_sent s @ [tx_pending s @ concat (map (\<lambda>j. desc_data s (tx_desc s (k + j))) [0..<Suc m])] \<and>
    tx_dma_buf_offset s' = 0 \<and> (\<forall>j \<le> m. tx_desc s' (k + j) = tx_done (tx_desc s (k + j))) \<and>
    (\<forall>i. (\<forall>j \<le> m. i mod tx_count s \<noteq> (k + j) mod tx_count s) \<longrightarrow> tx_desc s' i = tx_desc s i)"
  using assms
proof (induction m arbitrary: k s t)
  case 0
  obtain t' where t: "t = Suc t'" using 0(2) by (cases t) auto
  have v: "tx_valid s (tx_desc s k)" "tx_last (tx_desc s k)" "unat (tx_dma_buf_offset s) + desc_len (tx_desc s k) \<le> TX_ALLOC_BUFSIZE"
    using 0(4) [of 0] 0(5) by simp_all
  obtain s1 where s1: "tx_step s = Inr (False, True, s1)" "tx_ready (Suc k) s1" "tx_base s1 = tx_base s" "tx_count s1 = tx_count s"
      "nn_mem s1 = nn_mem (store_ring_desc (ucast (tx_slot s k)) (tx_done (tx_desc s k)) s)"
      "nn_sent s1 = nn_sent s @ [tx_pending s @ desc_data s (tx_desc s k)]" "tx_dma_buf_offset s1 = 0"
    using tx_step_valid [OF 0(1) v(1,3)] v(2) by auto
  note d = tx_done_others [OF 0(1) s1(3-5)]
  show ?case using s1 d(1,3) by (auto simp: t intro!: exI [of _ s1])
next
  case (Suc m)
  obtain t' where t: "t = Suc t'" using Suc.prems(2) by (cases t) auto
  have v: "tx_valid s (tx_desc s k)" "\<not> tx_last (tx_desc s k)" "unat (tx_dma_buf_offset s) + desc_len (tx_desc s k) \<le> TX_ALLOC_BUFSIZE"
    using Suc.prems(4) [of 0] Suc.prems(5) unfolding upt_Suc_shift [of "Suc m"] by simp_all
  obtain s1 where s1: "tx_step s = Inr (True, False, s1)" "tx_ready (Suc k) s1" "tx_base s1 = tx_base s" "tx_count s1 = tx_count s"
      "nn_mem s1 = nn_mem (store_ring_desc (ucast (tx_slot s k)) (tx_done (tx_desc s k)) s)"
      "nn_sent s1 = nn_sent s" "tx_pending s1 = tx_pending s @ desc_data s (tx_desc s k)"
      "unat (tx_dma_buf_offset s1) = unat (tx_dma_buf_offset s) + desc_len (tx_desc s k)"
    using tx_step_valid [OF Suc.prems(1) v(1,3)] v(2) by auto
  note d = tx_done_others [OF Suc.prems(1) s1(3-5)]
  have later: "tx_desc s1 (Suc k + j) = tx_desc s (k + Suc j)" if "j \<le> m" for j
    using d(1) [of "k + Suc j"] mod_distinct [of k "k + Suc j" "tx_count s"] that Suc.prems(3) by simp
  have data: "desc_data s1 (tx_desc s1 (Suc k + j)) = desc_data s (tx_desc s (k + Suc j))" if "j \<le> m" for j
    unfolding later [OF that] by (rule d(2)) (use Suc.prems(4) [of "Suc j"] that in simp)
  have "\<exists>s'. tx_loop t' False s1 = Inr (True, s') \<and> tx_ready (Suc k + Suc m) s' \<and> tx_base s' = tx_base s1 \<and> tx_count s' = tx_count s1 \<and>
    nn_sent s' = nn_sent s1 @ [tx_pending s1 @ concat (map (\<lambda>j. desc_data s1 (tx_desc s1 (Suc k + j))) [0..<Suc m])] \<and>
    tx_dma_buf_offset s' = 0 \<and> (\<forall>j \<le> m. tx_desc s' (Suc k + j) = tx_done (tx_desc s1 (Suc k + j))) \<and>
    (\<forall>i. (\<forall>j \<le> m. i mod tx_count s1 \<noteq> (Suc k + j) mod tx_count s1) \<longrightarrow> tx_desc s' i = tx_desc s1 i)"
  proof (rule Suc.IH [OF s1(2)])
    show "tx_valid s1 (tx_desc s1 (Suc k + j)) \<and> tx_last (tx_desc s1 (Suc k + j)) = (j = m)" if "j \<le> m" for j
      unfolding later [OF that] tx_valid_base [OF s1(3,4)] using Suc.prems(4) [of "Suc j"] that by simp
    have len: "map (\<lambda>j. desc_len (tx_desc s1 (Suc k + j))) [0..<Suc m] = map (\<lambda>j. desc_len (tx_desc s (k + Suc j))) [0..<Suc m]"
      by (rule map_cong [OF refl]) (simp add: later [simplified] less_Suc_eq_le del: upt_Suc)
    show "unat (tx_dma_buf_offset s1) + sum_list (map (\<lambda>j. desc_len (tx_desc s1 (Suc k + j))) [0..<Suc m]) \<le> TX_ALLOC_BUFSIZE"
      unfolding len s1(8) using Suc.prems(5) unfolding upt_Suc_shift [of "Suc m"] by (simp add: comp_def del: upt_Suc)
  qed (use Suc.prems(2,3) t s1(4) in simp_all)
  then obtain s' where s': "tx_loop t' False s1 = Inr (True, s')" "tx_ready (Suc k + Suc m) s'" "tx_base s' = tx_base s1" "tx_count s' = tx_count s1"
      "nn_sent s' = nn_sent s1 @ [tx_pending s1 @ concat (map (\<lambda>j. desc_data s1 (tx_desc s1 (Suc k + j))) [0..<Suc m])]"
      "tx_dma_buf_offset s' = 0" "\<forall>j \<le> m. tx_desc s' (Suc k + j) = tx_done (tx_desc s1 (Suc k + j))"
      "\<forall>i. (\<forall>j \<le> m. i mod tx_count s1 \<noteq> (Suc k + j) mod tx_count s1) \<longrightarrow> tx_desc s' i = tx_desc s1 i"
    by blast
  have datas: "map (\<lambda>j. desc_data s1 (tx_desc s1 (Suc k + j))) [0..<Suc m] = map (\<lambda>j. desc_data s (tx_desc s (k + Suc j))) [0..<Suc m]"
    by (rule map_cong [OF refl]) (simp add: data [simplified] less_Suc_eq_le del: upt_Suc)
  have sent: "nn_sent s' = nn_sent s @ [tx_pending s @ concat (map (\<lambda>j. desc_data s (tx_desc s (k + j))) [0..<Suc (Suc m)])]"
    unfolding s'(5) datas s1(6,7) upt_Suc_shift [of "Suc m"] by (simp add: comp_def del: upt_Suc)
  have first: "tx_desc s' k = tx_done (tx_desc s k)"
  proof -
    have "k mod tx_count s1 \<noteq> (Suc k + j) mod tx_count s1" if "j \<le> m" for j
      using mod_distinct [of k "Suc k + j" "tx_count s"] that Suc.prems(3) s1(4) by simp
    then show ?thesis using s'(8) d(3) by metis
  qed
  have descs: "tx_desc s' (k + j) = tx_done (tx_desc s (k + j))" if "j \<le> Suc m" for j
    using that first s'(7) later by (cases j) auto
  have frame: "tx_desc s' i = tx_desc s i" if "\<forall>j \<le> Suc m. i mod tx_count s \<noteq> (k + j) mod tx_count s" for i
  proof -
    have "i mod tx_count s1 \<noteq> (Suc k + j) mod tx_count s1" if "j \<le> m" for j
      using \<open>\<forall>j \<le> Suc m. _\<close> that s1(4) by (metis add_Suc_shift Suc_le_mono)
    moreover have "i mod tx_count s \<noteq> k mod tx_count s" using that [rule_format, of 0] by simp
    ultimately show ?thesis using s'(8) d(1) by metis
  qed
  show ?case using s' s1 sent descs frame by (intro exI [of _ s']) (simp add: t)
qed


lemma set_dma_idle_reg: "\<exists>v. set_dma_idle i s = set_reg NVNET_TX_RX_CONTROL v s"
  by (auto simp: set_dma_idle_def or_reg_def and_reg_def)

lemma tx_control_frame:
  "tx_base (set_reg NVNET_TX_RX_CONTROL v s) = tx_base s" "get_tx_ring_size (set_reg NVNET_TX_RX_CONTROL v s) = get_tx_ring_size s"
  "tx_desc (set_reg NVNET_TX_RX_CONTROL v s) i = tx_desc s i" "desc_data (set_reg NVNET_TX_RX_CONTROL v s) d = desc_data s d"
  "tx_valid (set_reg NVNET_TX_RX_CONTROL v s) d = tx_valid s d" "tx_ready k (set_reg NVNET_TX_RX_CONTROL v s) = tx_ready k s"
  "tx_pending (set_reg NVNET_TX_RX_CONTROL v s) = tx_pending s"
  by (simp_all add: tx_desc_def tx_slot_def load_ring_desc_def dma_read_def desc_data_def tx_valid_def tx_ready_def tx_pending_def
    get_tx_ring_size_def)

lemma tx_intr_frame:
  "tx_desc (set_intr_status v s) i = tx_desc s i" "nn_sent (set_intr_status v s) = nn_sent s"
  "8 \<le> a \<Longrightarrow> get_reg a (set_intr_status v s) = get_reg a s"
  "3 < length (nn_regs s) \<Longrightarrow> get_reg NVNET_IRQ_STATUS (set_intr_status v s) = get_reg NVNET_IRQ_STATUS s OR v"
  by (simp_all add: set_intr_status_def update_irq_def or_reg_def tx_desc_def tx_slot_def load_ring_desc_def dma_read_def
    get_tx_ring_size_def)

text \<open>C20: A packet the guest has split over the buffers of consecutive descriptors of its ring, the last one marked, is sent as
  the concatenation of the buffers.  Each descriptor is given back, the ring pointer is past the last, around the end
  of the ring, and the transmit interrupt is set.\<close>

theorem nvnet_transmit_chain:
  assumes "can_transmit s" "tx_ready k s" "tx_dma_buf_offset s = 0" "Suc m \<le> tx_count s"
    and "\<forall>j \<le> m. tx_valid s (tx_desc s (k + j)) \<and> (tx_last (tx_desc s (k + j)) \<longleftrightarrow> j = m)"
    and "sum_list (map (\<lambda>j. desc_len (tx_desc s (k + j))) [0..<Suc m]) \<le> TX_ALLOC_BUFSIZE"
  shows "\<exists>s'. dma_packet_from_guest s = Inr s' \<and>
    nn_sent s' = nn_sent s @ [concat (map (\<lambda>j. desc_data s (tx_desc s (k + j))) [0..<Suc m])] \<and>
    get_reg NVNET_TX_RING_NEXT_DESC_PHYS_ADDR s' = tx_slot s (k + Suc m) \<and>
    (\<forall>j \<le> m. tx_desc s' (k + j) = tx_done (tx_desc s (k + j))) \<and>
    get_reg NVNET_IRQ_STATUS s' AND NVNET_IRQ_STATUS_TX \<noteq> 0"
proof -
  obtain v where v: "set_dma_idle False s = set_reg NVNET_TX_RX_CONTROL v s" using set_dma_idle_reg by blast
  let ?s = "set_reg NVNET_TX_RX_CONTROL v s"
  note f = tx_control_frame [where v = v and s = s]
  have "\<exists>s'. tx_loop (tx_count s) False ?s = Inr (True, s') \<and> tx_ready (k + Suc m) s' \<and> tx_base s' = tx_base ?s \<and> tx_count s' = tx_count ?s \<and>
      nn_sent s' = nn_sent ?s @ [tx_pending ?s @ concat (map (\<lambda>j. desc_data ?s (tx_desc ?s (k + j))) [0..<Suc m])] \<and>
      tx_dma_buf_offset s' = 0 \<and> (\<forall>j \<le> m. tx_desc s' (k + j) = tx_done (tx_desc ?s (k + j))) \<and>
      (\<forall>i. (\<forall>j \<le> m. i mod tx_count ?s \<noteq> (k + j) mod tx_count ?s) \<longrightarrow> tx_desc s' i = tx_desc ?s i)"
    by (rule tx_loop_chain) (use assms f in \<open>simp_all add: f del: upt_Suc\<close>)
  then obtain s1 where s1: "tx_loop (tx_count s) False ?s = Inr (True, s1)" "tx_ready (k + Suc m) s1" "tx_base s1 = tx_base s"
      "tx_count s1 = tx_count s" "nn_sent s1 = nn_sent s @ [concat (map (\<lambda>j. desc_data s (tx_desc s (k + j))) [0..<Suc m])]"
      "\<forall>j \<le> m. tx_desc s1 (k + j) = tx_done (tx_desc s (k + j))"
    using assms(3) by (auto simp: f tx_pending_def simp del: upt_Suc)
  obtain u where u: "set_dma_idle True s1 = set_reg NVNET_TX_RX_CONTROL u s1" using set_dma_idle_reg by blast
  let ?t = "set_reg NVNET_TX_RX_CONTROL u s1"
  have len: "3 < length (nn_regs ?t)" using s1(2) by (simp add: tx_ready_def)
  have "bit (get_reg NVNET_IRQ_STATUS (set_intr_status NVNET_IRQ_STATUS_TX ?t) AND NVNET_IRQ_STATUS_TX) 4"
    using len by (simp add: tx_intr_frame bit_simps)
  then have "get_reg NVNET_IRQ_STATUS (set_intr_status NVNET_IRQ_STATUS_TX ?t) AND NVNET_IRQ_STATUS_TX \<noteq> 0"
    by (metis bit_0_eq bot_apply bot_bool_def)
  then show ?thesis
    using assms(1) s1 v u f by (simp add: dma_packet_from_guest_def tx_intr_frame tx_control_frame tx_ready_def tx_slot_def del: upt_Suc)
qed

section \<open>Receiving a packet\<close>

abbreviation rx_base :: "nvnet \<Rightarrow> u32" where
  "rx_base s \<equiv> get_reg NVNET_RX_RING_PHYS_ADDR s"

definition rx_slot :: "nvnet \<Rightarrow> nat \<Rightarrow> u32" where
  "rx_slot s k = ring_slot (rx_base s) (unat (get_rx_ring_size s)) k"

definition rx_ready :: "nat \<Rightarrow> nvnet \<Rightarrow> bool" where
  "rx_ready k s \<longleftrightarrow> length (nn_regs s) = MMIO_SIZE \<and> unat (rx_base s) + 8 * unat (get_rx_ring_size s) < 2 ^ 32 \<and> get_rx_ring_size s \<noteq> 0 \<and>
     get_reg NVNET_RX_RING_NEXT_DESC_PHYS_ADDR s = rx_slot s k \<and> rx_enabled s \<and> dma_enabled s \<and> link_up s"

lemma rx_current:
  assumes "rx_ready k s"
  shows "update_current_rx_ring_desc_addr s = (rx_slot s k, set_reg NVNET_RX_RING_CURRENT_DESC_PHYS_ADDR (rx_slot s k) s)"
    and "update_current_rx_ring_desc_addr (set_dma_idle False (set_reg NVNET_RX_RING_CURRENT_DESC_PHYS_ADDR (rx_slot s k) s)) =
      (rx_slot s k, set_reg NVNET_RX_RING_CURRENT_DESC_PHYS_ADDR (rx_slot s k)
        (set_dma_idle False (set_reg NVNET_RX_RING_CURRENT_DESC_PHYS_ADDR (rx_slot s k) s)))"
  using assms ring_current_slot [of "rx_base s" "get_rx_ring_size s" k]
  by (simp_all add: update_current_rx_ring_desc_addr_def rx_ready_def rx_slot_def get_rx_ring_size_def set_dma_idle_def and_reg_def Let_def)

lemma filter_prefix:
  assumes "receive_filter buf n s" "n = int (length buf)"
  shows "receive_filter (buf @ xs) n (s\<lparr>rx_dma_buf := y\<rparr>)"
proof -
  have "6 \<le> length buf" using assms by (auto simp: receive_filter_def split: if_splits)
  then have p: "take 6 (buf @ xs) = take 6 buf" "is_broadcast_ether_addr (buf @ xs) = is_broadcast_ether_addr buf"
    by (auto simp: is_broadcast_ether_addr_def nth_append)
  have r: "reg_addr a (s\<lparr>rx_dma_buf := y\<rparr>) = reg_addr a s" for a by (simp add: reg_addr_def)
  show ?thesis using assms(1) unfolding receive_filter_def p r get_reg_updates .
qed

text \<open>C21: A packet that passes the filter and fits the next free buffer is stored there.  The descriptor is given back with
  the length of the packet, the ring pointer moves to the next slot, around the end of the ring, the receive interrupt is set,
  and no other memory changes.\<close>

theorem nvnet_receive_delivers:
  assumes "rx_ready k s" "length (rx_dma_buf s) = RX_ALLOC_BUFSIZE" "length buf \<le> RX_ALLOC_BUFSIZE" "receive_filter buf (int (length buf)) s"
    and "d = load_ring_desc (ucast (rx_slot s k)) s" "rd_flags d AND NV_RX_AVAIL \<noteq> 0" "length buf \<le> unat (rd_length d) + 1"
    and "apart (ucast (rd_buffer_addr d)) (length buf) (ucast (rx_slot s k)) 8"
  shows "\<exists>s'. nvnet_receive buf s = Inr (int (length buf), s') \<and>
    dma_read (ucast (rd_buffer_addr d)) (length buf) s' = buf \<and>
    load_ring_desc (ucast (rx_slot s k)) s' = d\<lparr>rd_length := of_nat (length buf), rd_flags := NV_RX_BIT4 OR NV_RX_DESCRIPTORVALID\<rparr> \<and>
    get_reg NVNET_RX_RING_NEXT_DESC_PHYS_ADDR s' = rx_slot s (Suc k) \<and>
    get_reg NVNET_IRQ_STATUS s' AND NVNET_IRQ_STATUS_RX \<noteq> 0 \<and>
    (\<forall>a. a \<notin> {x. unat (x - ucast (rd_buffer_addr d)) < length buf} \<and> a \<notin> {x. unat (x - ucast (rx_slot s k)) < 8} \<longrightarrow> nn_mem s' a = nn_mem s a)"
proof -
  let ?c = "rx_slot s k" and ?e = "d\<lparr>rd_length := of_nat (length buf), rd_flags := NV_RX_BIT4 OR NV_RX_DESCRIPTORVALID\<rparr>"
  let ?s0 = "s\<lparr>rx_dma_buf := buf @ drop (length buf) (rx_dma_buf s)\<rparr>"
  have ready: "rx_ready k ?s0" "rx_slot ?s0 k = ?c"
    using assms(1) by (simp_all add: rx_ready_def rx_slot_def get_rx_ring_size_def rx_enabled_def dma_enabled_def link_up_def)
  have mem: "load_ring_desc a t = load_ring_desc a s" if "nn_mem t = nn_mem s" for a t
    using dma_read_mem [OF that] by (simp add: load_ring_desc_def)
  let ?s1 = "set_reg NVNET_RX_RING_CURRENT_DESC_PHYS_ADDR ?c (set_dma_idle False (set_reg NVNET_RX_RING_CURRENT_DESC_PHYS_ADDR ?c ?s0))"
  have can: "nvnet_can_receive ?s0 = (True, set_reg NVNET_RX_RING_CURRENT_DESC_PHYS_ADDR ?c ?s0)"
    using rx_current(1) [OF ready(1)] ready assms(5,6) mem [of "set_reg NVNET_RX_RING_CURRENT_DESC_PHYS_ADDR ?c ?s0"]
    by (simp add: nvnet_can_receive_def rx_buf_available_def rx_ready_def)
  let ?s2 = "store_ring_desc (ucast ?c) ?e (dma_write (ucast (rd_buffer_addr d)) buf ?s1)"
  let ?s3 = "set_intr_status NVNET_IRQ_STATUS_RX ?s2"
  have m1: "nn_mem ?s1 = nn_mem s" by (simp add: set_dma_idle_def and_reg_def)
  have r: "nvnet_receive buf s = Inr (int (length buf), set_dma_idle True (advance_next_rx_ring_desc_addr ?s3))"
    using assms(2-4,6,7) can rx_current(2) [OF ready(1)] ready(2) mem [OF m1] assms(5)
    by (simp add: nvnet_receive_def nvnet_receive_iov_def is_packet_oversized_def filter_prefix dma_packet_to_guest_def Let_def)
  have adv: "advance_next_rx_ring_desc_addr ?s3 = set_reg NVNET_RX_RING_NEXT_DESC_PHYS_ADDR (rx_slot s (Suc k)) ?s3"
    using assms(1) ring_next_slot [of "rx_base s" "get_rx_ring_size s" k]
    by (simp add: advance_next_rx_ring_desc_addr_def tx_intr_frame rx_ready_def rx_slot_def get_rx_ring_size_def set_dma_idle_def and_reg_def)
  obtain v where v: "set_dma_idle True (advance_next_rx_ring_desc_addr ?s3) =
      set_reg NVNET_TX_RX_CONTROL v (set_reg NVNET_RX_RING_NEXT_DESC_PHYS_ADDR (rx_slot s (Suc k)) ?s3)"
    unfolding adv using set_dma_idle_reg by blast
  let ?t = "set_reg NVNET_TX_RX_CONTROL v (set_reg NVNET_RX_RING_NEXT_DESC_PHYS_ADDR (rx_slot s (Suc k)) ?s3)"
  have mt: "nn_mem ?t = nn_mem ?s2" by (simp add: set_intr_status_def update_irq_def or_reg_def)
  have len: "length (nn_regs ?s2) = 1024" "length (nn_regs ?s3) = 1024" using assms(1)
    by (simp_all add: rx_ready_def set_dma_idle_def and_reg_def set_intr_status_def update_irq_def or_reg_def)
  have ap: "unat (ucast ?c :: hwaddr) + 8 \<le> 2 ^ 64" "unat (ucast (rd_buffer_addr d) :: hwaddr) + length buf \<le> 2 ^ 64"
    "apart (ucast ?c) (length (desc_bytes ?e)) (ucast (rd_buffer_addr d)) (length buf)"
    using assms(8) by (auto simp: apart_def)
  have buf: "dma_read (ucast (rd_buffer_addr d)) (length buf) ?t = buf"
    using dma_read_mem [OF mt] dma_read_write_other [OF ap(3), of "dma_write (ucast (rd_buffer_addr d)) buf ?s1"]
      dma_read_write_same [OF ap(2), of ?s1]
    by (simp only: store_ring_desc_def)
  have desc: "load_ring_desc (ucast ?c) ?t = ?e"
    using load_store_same [OF ap(1), of ?e "dma_write (ucast (rd_buffer_addr d)) buf ?s1"] dma_read_mem [OF mt] by (simp add: load_ring_desc_def)
  have "bit (get_reg NVNET_IRQ_STATUS ?t AND NVNET_IRQ_STATUS_RX) 1" using len by (simp add: tx_intr_frame bit_simps)
  then have irq: "get_reg NVNET_IRQ_STATUS ?t AND NVNET_IRQ_STATUS_RX \<noteq> 0" by (metis bit_0_eq bot_apply bot_bool_def)
  have "nn_mem ?t a = nn_mem s a" if "\<not> unat (a - ucast (rd_buffer_addr d)) < length buf" "\<not> unat (a - ucast ?c) < 8" for a
    using that m1 unfolding mt by (simp add: store_ring_desc_def dma_write_def)
  then show ?thesis using r buf desc irq len unfolding v by (intro exI [of _ ?t]) simp
qed


section \<open>The physical layer\<close>

lemma mdio_masks: "NVNET_MDIO_ADDR_PHYADDR = field_mask 5 5" "NVNET_MDIO_ADDR_PHYREG = field_mask 0 5"
  by (simp_all add: field_mask_def mask_eq_exp_minus_1)

lemma phy_fields:
  assumes "r < 6"
  shows "(ucast (GET_MASK (0x20 OR r) NVNET_MDIO_ADDR_PHYADDR) :: u8) = 1" "(ucast (GET_MASK (0x20 OR r) NVNET_MDIO_ADDR_PHYREG) :: u8) = ucast r"
    "(ucast (GET_MASK (0x420 OR r) NVNET_MDIO_ADDR_PHYADDR) :: u8) = 1" "(ucast (GET_MASK (0x420 OR r) NVNET_MDIO_ADDR_PHYREG) :: u8) = ucast r"
    "(0x420 OR r) AND NVNET_MDIO_ADDR_WRITE \<noteq> 0" "(0x20 OR r) AND NVNET_MDIO_ADDR_WRITE = 0"
proof -
  have "unat r < 6" using assms by (simp add: word_less_nat_alt)
  then consider "unat r = unat (0 :: u32)" | "unat r = unat (1 :: u32)" | "unat r = unat (2 :: u32)" | "unat r = unat (3 :: u32)"
    | "unat r = unat (4 :: u32)" | "unat r = unat (5 :: u32)" by fastforce
  then consider "r = 0" | "r = 1" | "r = 2" | "r = 3" | "r = 4" | "r = 5" by cases (metis word_unat_eq_iff)+
  then show "(ucast (GET_MASK (0x20 OR r) NVNET_MDIO_ADDR_PHYADDR) :: u8) = 1" "(ucast (GET_MASK (0x20 OR r) NVNET_MDIO_ADDR_PHYREG) :: u8) = ucast r"
    "(ucast (GET_MASK (0x420 OR r) NVNET_MDIO_ADDR_PHYADDR) :: u8) = 1" "(ucast (GET_MASK (0x420 OR r) NVNET_MDIO_ADDR_PHYREG) :: u8) = ucast r"
    "(0x420 OR r) AND NVNET_MDIO_ADDR_WRITE \<noteq> 0" "(0x20 OR r) AND NVNET_MDIO_ADDR_WRITE = 0"
    unfolding mdio_masks by (cases; simp add: GET_MASK_field)+
qed

lemma u16_through_u32: "ucast (ucast (ucast (v :: u16) :: u64) :: u32) = v" "ucast (ucast (ucast v :: u32) :: u64) = v"
  by (rule bit_word_eqI; simp add: bit_simps)+

lemma ucast_widen_twice: "(ucast (ucast (v :: u16) :: u32) :: u64) = ucast v"
  by (rule bit_word_eqI) (auto simp: bit_simps dest: bit_imp_le_length)

text \<open>C23: The guest writes \<open>v\<close> to register \<open>r\<close> of the physical layer through the management interface, overwrites the data
  register with an arbitrary \<open>x\<close>, and reads register \<open>q\<close> through the interface: the data register then has
  \<open>v\<close> if \<open>q\<close> is \<open>r\<close>, and the old value of \<open>q\<close> if not.\<close>

theorem nvnet_mdio_round_trip:
  assumes "length (nn_regs s) = MMIO_SIZE" "length (phy_regs s) = 6" "r < 6" "q < 6"
  shows "\<exists>s'. fold_res nvnet_step
      [Mmio_Write 0x194 (ucast (v :: u16)) 4, Mmio_Write 0x190 (ucast (0x420 OR r :: u32)) 4,
       Mmio_Write 0x194 x 4, Mmio_Write 0x190 (ucast (0x20 OR q :: u32)) 4] s = Inr s' \<and>
    nvnet_mmio_read 0x194 4 s' = Inr (ucast (if q = r then v else ucast (phy_regs s ! unat q)))"
proof -
  have r: "unat r < 6" "unat q < 6" "unat (ucast r :: u8) = unat r" "unat (ucast q :: u8) = unat q" "unat r = unat q \<longleftrightarrow> q = r"
    using assms(3,4) by (auto simp: word_less_nat_alt unsigned_ucast_eq take_bit_eq_mod word_unat_eq_iff)
  note f = phy_fields [OF assms(3)] phy_fields [OF assms(4)]
  note ops = nvnet_mmio_write_def set_reg_ext_def mdio_write_def mdio_read_def phy_reg_write_def phy_reg_read_def and_reg_def
  show ?thesis
    using assms(1,2) r f get_reg_ext_word [of NVNET_MDIO_DATA]
    by (simp add: ops Let_def nvnet_mmio_read_def u16_through_u32 ucast_widen_twice nth_list_update)
qed

text \<open>A controller out of reset with both rings of one descriptor, at 0x1000 and 0x1100, whose buffers of four and of
  sixteen bytes are at 0x2000 and 0x3000.\<close>

definition nn_blank :: nvnet where
  "nn_blank = \<lparr>nn_regs = replicate MMIO_SIZE 0, phy_regs = phy_reg_init, tx_dma_buf_offset = 0, tx_dma_buf = replicate TX_ALLOC_BUFSIZE 0,
     rx_dma_buf = replicate RX_ALLOC_BUFSIZE 0, tx_ring_index = 0, rx_ring_index = 0, nn_mem = (\<lambda>_. 0), nn_sent = [],
     nn_irq = False, nn_link_down = False, nn_autoneg = False\<rparr>"

definition nn_rings :: nvnet where
  "nn_rings = set_reg NVNET_TX_RING_PHYS_ADDR 0x1000 (set_reg NVNET_RX_RING_PHYS_ADDR 0x1100 (set_reg NVNET_TX_RING_NEXT_DESC_PHYS_ADDR 0x1000
     (set_reg NVNET_RX_RING_NEXT_DESC_PHYS_ADDR 0x1100 (set_reg NVNET_TRANSMITTER_CONTROL 1 (set_reg NVNET_RECEIVER_CONTROL 1
     (store_ring_desc 0x1000 \<lparr>rd_buffer_addr = 0x2000, rd_length = 3, rd_flags = 0x8001\<rparr>
     (store_ring_desc 0x1100 \<lparr>rd_buffer_addr = 0x3000, rd_length = 15, rd_flags = 0x8000\<rparr> nn_blank)))))))"

lemma nn_blank_fields [simp]:
  "length (nn_regs nn_blank) = MMIO_SIZE" "phy_regs nn_blank = phy_reg_init" "tx_dma_buf_offset nn_blank = 0"
  "length (tx_dma_buf nn_blank) = TX_ALLOC_BUFSIZE" "length (rx_dma_buf nn_blank) = RX_ALLOC_BUFSIZE" "nn_sent nn_blank = []" "nn_irq nn_blank = False"
  by (simp_all add: nn_blank_def)

lemma get_reg_blank [simp]: "a + 3 < MMIO_SIZE \<Longrightarrow> get_reg a nn_blank = 0"
  by (simp add: nn_blank_def get_reg_def le32_def)

lemma store_fields [simp]: "phy_regs (store_ring_desc a d s) = phy_regs s" "rx_dma_buf (store_ring_desc a d s) = rx_dma_buf s" "nn_irq (store_ring_desc a d s) = nn_irq s"
  by (simp_all add: store_ring_desc_def dma_write_def)

lemma nn_rings_regs [simp]:
  "get_reg NVNET_TX_RING_PHYS_ADDR nn_rings = 0x1000" "get_reg NVNET_RX_RING_PHYS_ADDR nn_rings = 0x1100"
  "get_reg NVNET_TX_RING_NEXT_DESC_PHYS_ADDR nn_rings = 0x1000" "get_reg NVNET_RX_RING_NEXT_DESC_PHYS_ADDR nn_rings = 0x1100"
  "get_reg NVNET_TRANSMITTER_CONTROL nn_rings = 1" "get_reg NVNET_RECEIVER_CONTROL nn_rings = 1" "get_reg NVNET_RING_SIZE nn_rings = 0"
  "get_reg NVNET_IRQ_STATUS nn_rings = 0" "get_reg NVNET_IRQ_MASK nn_rings = 0" "get_reg NVNET_TX_RX_CONTROL nn_rings = 0"
  by (simp_all add: nn_rings_def)

lemma nn_rings_fields [simp]: "length (nn_regs nn_rings) = MMIO_SIZE" "phy_regs nn_rings = phy_reg_init" "tx_dma_buf_offset nn_rings = 0"
    "length (tx_dma_buf nn_rings) = TX_ALLOC_BUFSIZE" "length (rx_dma_buf nn_rings) = RX_ALLOC_BUFSIZE" "nn_sent nn_rings = []" "nn_irq nn_rings = False"
  by (simp_all add: nn_rings_def)

lemma nn_rings_sizes [simp]: "get_tx_ring_size nn_rings = 1" "get_rx_ring_size nn_rings = 1"
  by (simp_all add: get_tx_ring_size_def get_rx_ring_size_def GET_MASK_def)

lemma nn_rings_desc:
  "load_ring_desc 0x1000 nn_rings = \<lparr>rd_buffer_addr = 0x2000, rd_length = 3, rd_flags = 0x8001\<rparr>"
  "load_ring_desc 0x1100 nn_rings = \<lparr>rd_buffer_addr = 0x3000, rd_length = 15, rd_flags = 0x8000\<rparr>"
proof -
  let ?d = "\<lparr>rd_buffer_addr = 0x2000, rd_length = 3, rd_flags = 0x8001\<rparr>" and ?e = "\<lparr>rd_buffer_addr = 0x3000, rd_length = 15, rd_flags = 0x8000\<rparr>"
  have m: "load_ring_desc a nn_rings = load_ring_desc a (store_ring_desc 0x1000 ?d (store_ring_desc 0x1100 ?e nn_blank))" for a
    by (simp add: nn_rings_def load_ring_desc_def dma_read_def)
  show "load_ring_desc 0x1000 nn_rings = ?d" unfolding m by (rule load_store_same) simp
  have "apart 0x1000 8 0x1100 8" by (simp add: apart_def)
  then show "load_ring_desc 0x1100 nn_rings = ?e" unfolding m using load_store_same [of "0x1100" ?e nn_blank] by (simp add: load_store_other)
qed

lemma nn_rings_link [simp]: "link_up nn_rings" "dma_enabled nn_rings" "tx_enabled nn_rings" "rx_enabled nn_rings"
  by (simp_all add: link_up_def dma_enabled_def tx_enabled_def rx_enabled_def phy_reg_init_def)

lemma nn_rings_slots: "tx_slot nn_rings k = 0x1000" "rx_slot nn_rings k = 0x1100"
  by (simp_all add: tx_slot_def rx_slot_def ring_slot_def)

theorem nvnet_irq_line_consistent_witness:
  "\<exists>s'. fold_res nvnet_step [Link True, Mmio_Write 4 0x40 4] nn_rings = Inr s' \<and>
    nn_irq s' = (get_reg NVNET_IRQ_MASK s' AND get_reg NVNET_IRQ_STATUS s' \<noteq> 0)"
proof -
  have ok: "irq_ok nn_rings" by (simp add: irq_ok_def)
  have cl: "\<forall>ev \<in> set [Link True, Mmio_Write 4 0x40 4]. \<not> clears_status ev" by simp
  have "\<exists>s'. fold_res nvnet_step [Link True, Mmio_Write 4 0x40 4] nn_rings = Inr s'"
    by (simp add: nvnet_mmio_write_def set_reg_ext_def)
  then show ?thesis using nvnet_irq_line_consistent [OF ok cl] by blast
qed

theorem nvnet_control_bit1_stale_line_witness:
  "\<exists>s'. nvnet_mmio_write (of_nat NVNET_TX_RX_CONTROL) (ucast (2 :: u32)) 4 (set_intr_status 1 (set_reg NVNET_IRQ_MASK 1 nn_rings)) = Inr s' \<and>
    get_reg NVNET_IRQ_STATUS s' = 0 \<and> nn_irq s' \<and> \<not> irq_ok s'"
  using nvnet_control_bit1_stale_line [of 2 "set_intr_status 1 (set_reg NVNET_IRQ_MASK 1 nn_rings)"]
  by (simp add: set_intr_status_def update_irq_def or_reg_def)

theorem nvnet_transmit_chain_witness:
  "\<exists>s'. dma_packet_from_guest nn_rings = Inr s' \<and> nn_sent s' = [[0, 0, 0, 0]] \<and>
    get_reg NVNET_TX_RING_NEXT_DESC_PHYS_ADDR s' = 0x1000"
proof -
  have d: "tx_desc nn_rings j = \<lparr>rd_buffer_addr = 0x2000, rd_length = 3, rd_flags = 0x8001\<rparr>" for j
    using nn_rings_desc(1) by (simp add: tx_desc_def nn_rings_slots)
  have z: "desc_data nn_rings \<lparr>rd_buffer_addr = 0x2000, rd_length = 3, rd_flags = 0x8001\<rparr> = [0, 0, 0, 0]"
    by (simp add: desc_data_def desc_len_def dma_read_def nn_rings_def store_ring_desc_def dma_write_def nn_blank_def upt_rec)
  have p: "can_transmit nn_rings" "tx_ready 0 nn_rings"
    by (simp_all add: can_transmit_def tx_ready_def nn_rings_slots)
  have v: "\<forall>j \<le> 0. tx_valid nn_rings (tx_desc nn_rings (0 + j)) \<and> (tx_last (tx_desc nn_rings (0 + j)) \<longleftrightarrow> j = 0)"
    by (simp add: d tx_valid_def tx_last_def desc_len_def)
  show ?thesis using nvnet_transmit_chain [OF p _ _ v] by (auto simp: d z nn_rings_slots desc_len_def)
qed

theorem nvnet_receive_delivers_witness:
  "\<exists>s'. nvnet_receive (replicate 6 0xff) nn_rings = Inr (6, s') \<and> dma_read 0x3000 6 s' = replicate 6 0xff \<and>
    get_reg NVNET_IRQ_STATUS s' AND NVNET_IRQ_STATUS_RX \<noteq> 0"
proof -
  have p: "rx_ready 0 nn_rings" by (simp add: rx_ready_def nn_rings_slots)
  have f: "receive_filter (replicate 6 0xff) (int (length (replicate 6 (0xff :: u8)))) nn_rings"
    by (simp add: receive_filter_def is_broadcast_ether_addr_def)
  show ?thesis using nvnet_receive_delivers [OF p _ _ f refl] nn_rings_desc(2) by (auto simp: nn_rings_slots apart_def)
qed

theorem nvnet_mdio_round_trip_witness:
  "\<exists>s'. fold_res nvnet_step [Mmio_Write 0x194 0x1234 4, Mmio_Write 0x190 0x424 4, Mmio_Write 0x194 0xFFFF 4, Mmio_Write 0x190 0x24 4]
      nn_rings = Inr s' \<and> nvnet_mmio_read 0x194 4 s' = Inr 0x1234"
  using nvnet_mdio_round_trip [of nn_rings 4 4 "0x1234" "0xFFFF"] by (simp add: phy_reg_init_def)

end
