(* ===== verification/Spec2Isabelle.thy ===== *)
theory Spec2Isabelle
  imports PFIFO_Spec NV2A_MMIO Swizzle Prim_Rewrite_Spec S3TC_Spec Xbox_SMBus_Spec EEPROM_Spec LPC47M157 ADPCM NvNet_Spec
begin

text \<open>
  \<^bold>\<open>A model of parts of the Xbox machine of DukeX.\<close>  DukeX is an Xbox emulator built on QEMU.  The
  development models the device code under \<open>src/hw/xbox\<close>, file by file, as functions on the
  state the code keeps, and proves what the code promises its callers.

  \<^bold>\<open>Conventions.\<close>  \<open>Xbox_Prelude\<close> fixes the types.  A C integer is a word of its width, so that
  arithmetic wraps where the code wraps.  Code that contains an assertion, an array access, a
  division or a shift returns \<open>'a res\<close>: a \<open>fault\<close> or a value.  A loop that need not end is a partial
  function into \<open>option\<close>; \<open>None\<close> is a loop that runs for ever, and whether it returns is proved, not
  assumed.  Bounded loops are folds over the values of the counter (\<open>fold\<close>, \<open>fold_res\<close>).  Code outside
  \<open>hw/xbox\<close>, such as the VGA core, and the rendering back ends are arguments of the definitions
  that call them.  The files taken from outside it, the bus and the ciphers, are modelled because
  the devices cannot be understood without them.

  \<^bold>\<open>The graphics device.\<close>  \<open>NV2A_Regs\<close> holds the register numbers and fields of \<open>nv2a_regs.h\<close>.
  \<open>NV2A_State\<close> is the device state (\<open>NV2AState\<close> and the parts of \<open>PGRAPHState\<close> in use), the interrupt
  update, DMA objects and the clipping of blits to tiles (\<open>nv2a.c\<close>).  \<open>NV2A_Blocks\<close> has the MMIO
  callbacks of the small register blocks (\<open>pmc.c\<close>, \<open>pbus.c\<close>, \<open>pvideo.c\<close>, \<open>ptimer.c\<close>, \<open>pfb.c\<close>, \<open>pcrtc.c\<close>,
  \<open>pramdac.c\<close>, \<open>prmdio.c\<close>, \<open>user.c\<close>).  \<open>PGRAPH_Core\<close> has the registers, the context switch and the
  method dispatcher of \<open>pgraph.c\<close>, and four handlers of its Kelvin class; the record \<open>method_env\<close> stands for the blit of the
  host renderer and the table of handlers.
  \<open>PFIFO\<close> is the command FIFO of \<open>pfifo.c\<close>: its registers, the handle table, the puller and the
  pusher.  \<open>NV2A_MMIO\<close> hands an access of the MMIO window to the callback of its block, or to the instance memory mapped
  in it, as the memory core does with the regions the device registers, and composes accesses, vertical blanks and
  traps into runs (\<open>nv2a_run\<close>).

  \<^bold>\<open>What is proved of it.\<close>  \<open>PFIFO_Spec\<close> gives an abstract push buffer machine; decoding a command
  word refines it, a call is undone by its return, and a data word is accounted for exactly.  A run of the pusher returns if
  and only if it takes finitely many jumps, calls and returns: between two of them the distance to PUT goes down.  The last
  two rest on \<open>engine_ok\<close>: the blit and the handlers do not touch the registers of the FIFO, and each slot of the table
  has one of the three shapes of its macros.  The modelled handlers satisfy it.  The hash of the handle table is the fold of its
  digits, and for every table size some handle makes the lookup fail its bounds assertion.
  \<open>NV2A_MMIO\<close> proves by rule induction that the interrupt line agrees with the units along every run, but for the bit of
  PGRAPH after a write of its interrupt registers, that an acknowledged PGRAPH interrupt keeps the line up, and that a DMA
  object stored in the instance memory is loaded as stored.  The locale \<open>intr_block\<close> states what a unit with a pending and an enable register promises;
  PCRTC, PTIMER and PFIFO are instances.  Clocks, the palette and tile clipping have their functional specifications.

  \<^bold>\<open>Texture and index data.\<close>  \<open>Swizzle\<close> is \<open>swizzle.c\<close>: the mask loop ends exactly for dimensions up
  to \<open>2 ^ 31\<close>, swizzling stores a texel at its Z-order position, and unswizzling undoes it.
  \<open>Prim_Rewrite\<close> is \<open>prim_rewrite.c\<close>; \<open>Prim_Rewrite_Spec\<close> lists the primitives of a draw abstractly and
  proves that both entry points return them without a fault, each rotated to start with its
  provoking vertex.  The bound of \<open>2 ^ 29\<close> input indices keeps the output count within the
  \<open>2 ^ 31\<close> for which the buffer can grow.  \<open>S3TC\<close> is \<open>s3tc.c\<close>; \<open>S3TC_Spec\<close> gives the colour of a texel
  by the definition of the formats and proves that a 2D texture decompresses to it without a fault.

  \<^bold>\<open>The system management bus.\<close>  \<open>I2C\<close> is the bus (\<open>hw/i2c/core.c\<close>), the slave protocol (\<open>smbus_slave.c\<close>)
  and the master commands (\<open>smbus_master.c\<close>), over the callbacks of a device class.  \<open>Xbox_SMBus\<close> has the
  controller (\<open>amd_smbus.c\<close>) and the devices of the console (\<open>smbus_*.c\<close>) and joins their
  callbacks in \<open>xbox_class\<close>.  The locale \<open>smbus_devices\<close> of \<open>I2C_Spec\<close> states what a device class must
  keep for a bus to stay well-formed, \<open>uniform_devices\<close> when a command is a transaction with one device;
  \<open>register_device\<close> of \<open>Xbox_SMBus_Spec\<close> is a device that stores and returns bytes.  \<open>Xbox_SMBus_Spec\<close>
  interprets them on \<open>xbox_class\<close> and proves that every run of port accesses keeps the controller
  well-formed, that starting a cycle refines the transaction of the addressed device, that an absent
  device changes nothing but the status, and that registers are read back as written.

  \<^bold>\<open>The EEPROM.\<close>  \<open>Crypto\<close> is \<open>util/sha1.c\<close> and \<open>util/rc4.c\<close>, \<open>EEPROM\<close> is \<open>eeprom_generation.c\<close>.
  \<open>EEPROM_Spec\<close> has the hash of FIPS 180 and proves the streaming hash equal to it for messages below
  \<open>2 ^ 29\<close> bytes, where the 32-bit bit count does not overflow; that the cipher is undone by itself; and that a
  generated image has matching checksums and decrypts under the key of its own hash.

  \<^bold>\<open>Other devices.\<close>  \<open>LPC47M157\<close> is the Super I/O chip (\<open>lpc47m157.c\<close>): outside configuration mode
  the serial ports are where the registers place them, by induction over the reachable states, and the faulting
  accesses are exactly those listed.  \<open>ADPCM\<close> is the decoder of the voice processor (\<open>vp/adpcm.h\<close>), proved to decode
  each channel as if alone by a reference of its own.  \<open>NvNet\<close> is the Ethernet controller (\<open>nvnet.c\<close>), its state with the memory of the
  guest, the packets sent and the interrupt line; \<open>NvNet_Spec\<close> proves what happens to a packet sent or
  received through a descriptor ring that ends below 4 GB, that the interrupt line follows the status except after
  one write, and that the physical layer holds what is written to it.

  \<^bold>\<open>Not modelled.\<close>  The other handlers of the Kelvin class, the GL, Vulkan and Metal renderers and
  the shader generators, which translate state into calls of a graphics library; the voice processor
  and the signal processors of the audio unit but for the decoder; the USB controllers and input devices;
  the machine, PCI and ACPI set-up, which registers objects with QEMU; the user interface; threads, locks and condition
  variables (an operation is one step); migration but for the hooks named above; the build variants for
  iOS; and QEMU itself outside the files named.
\<close>

end
